theory Spec2Isabelle
  imports Main "HOL-Library.Multiset" "HOL-Library.Char_ord" "HOL-Library.List_Lexorder"
begin

section \<open>JavaScript strings and numbers\<close>

text \<open>
  Strings are byte strings (the UTF-8 encoding), so \<open>toUtf8Bytes\<close> is the identity.
  \<open>String.prototype.trim\<close>, \<open>toLowerCase\<close>, \<open>split\<close> and \<open>startsWith\<close> are written out for
  ASCII: \<open>trim\<close> strips the ASCII white space (tab, line feed, vertical tab, form feed,
  carriage return, space) and \<open>toLowerCase\<close> maps \<open>A-Z\<close> to \<open>a-z\<close>.  A JavaScript number
  that holds an integer is an \<open>int\<close>.  A value that \<open>Number(...)\<close> maps to \<open>NaN\<close> or an
  infinity is \<open>None\<close>.
\<close>

definition isSpace :: "char \<Rightarrow> bool" where
  "isSpace c = (c \<in> {CHR 0x09, CHR 0x0A, CHR 0x0B, CHR 0x0C, CHR 0x0D, CHR 0x20})"

definition trim :: "string \<Rightarrow> string" where
  "trim s = rev (dropWhile isSpace (rev (dropWhile isSpace s)))"

definition lowerChar :: "char \<Rightarrow> char" where
  "lowerChar c =
     (case map_of (zip ''ABCDEFGHIJKLMNOPQRSTUVWXYZ'' ''abcdefghijklmnopqrstuvwxyz'') c of
        Some l \<Rightarrow> l
      | None \<Rightarrow> c)"

definition toLowerCase :: "string \<Rightarrow> string" where
  "toLowerCase s = map lowerChar s"

definition startsWith :: "string \<Rightarrow> string \<Rightarrow> bool" where
  "startsWith s p = (take (length p) s = p)"

fun splitOn :: "char \<Rightarrow> string \<Rightarrow> string list" where
  "splitOn sep [] = [[]]"
| "splitOn sep (c # cs) =
     (if c = sep then [] # splitOn sep cs
      else (case splitOn sep cs of [] \<Rightarrow> [[c]] | w # ws \<Rightarrow> (c # w) # ws))"

definition isDigit :: "char \<Rightarrow> bool" where
  "isDigit c = (c \<in> set ''0123456789'')"

definition digitChar :: "nat \<Rightarrow> char" where
  "digitChar n = (''0123456789'' ! (n mod 10))"

function showNat :: "nat \<Rightarrow> string" where
  "showNat n = (if n < 10 then [digitChar n] else showNat (n div 10) @ [digitChar n])"
  by pat_completeness auto
termination
  by (relation "measure id") auto

definition showInt :: "int \<Rightarrow> string" where
  "showInt i = (if i < 0 then CHR ''-'' # showNat (nat (- i)) else showNat (nat i))"

text \<open>
  The template literal \<open>${n}\<close> of a number that holds an integer: the decimal notation
  when the absolute value is below \<open>10 ^ 21\<close>, and beyond that the exponent notation of
  the runtime, the parameter \<open>other\<close>.
\<close>

definition numberTemplate :: "(int \<Rightarrow> string) \<Rightarrow> int \<Rightarrow> string" where
  "numberTemplate other n = (if \<bar>n\<bar> < 10 ^ 21 then showInt n else other n)"

definition hexDigit :: "nat \<Rightarrow> char" where
  "hexDigit n = (''0123456789abcdef'' ! (n mod 16))"

text \<open>
  \<open>JSON.stringify\<close> is written out for what the source passes to it here: a string is
  quoted with the escapes of ECMA-262 (QuoteJSONString); an array is bracketed and comma
  separated.
\<close>

fun jsonEscapeChar :: "char \<Rightarrow> string" where
  "jsonEscapeChar c =
     (if c = CHR ''\"'' then [CHR 0x5C, CHR ''\"'']
      else if c = CHR 0x5C then [CHR 0x5C, CHR 0x5C]
      else if c = CHR 0x08 then [CHR 0x5C, CHR ''b'']
      else if c = CHR 0x0C then [CHR 0x5C, CHR ''f'']
      else if c = CHR 0x0A then [CHR 0x5C, CHR ''n'']
      else if c = CHR 0x0D then [CHR 0x5C, CHR ''r'']
      else if c = CHR 0x09 then [CHR 0x5C, CHR ''t'']
      else if of_char c < (32::nat)
        then [CHR 0x5C, CHR ''u'', CHR ''0'', CHR ''0'', hexDigit (of_char c div 16), hexDigit (of_char c)]
      else [c])"

definition jsonString :: "string \<Rightarrow> string" where
  "jsonString s = [CHR ''\"''] @ concat (map jsonEscapeChar s) @ [CHR ''\"'']"

fun joinWith :: "string \<Rightarrow> string list \<Rightarrow> string" where
  "joinWith sep [] = []"
| "joinWith sep [x] = x"
| "joinWith sep (x # y # ys) = x @ sep @ joinWith sep (y # ys)"

definition jsonArray :: "string list \<Rightarrow> string" where
  "jsonArray xs = ''['' @ joinWith '','' xs @ '']''"

definition jsonStringArray :: "string list \<Rightarrow> string" where
  "jsonStringArray xs = jsonArray (map jsonString xs)"

section \<open>Bounded retry with exponential backoff (worker/index.ts, performWithRetry)\<close>

text \<open>
  The source:
  \<^verbatim>\<open>
  async function performWithRetry<T>(fn, opts: { attempts; backoffMs; label }): Promise<T> {
    let lastErr: any;
    for (let attempt = 1; attempt <= opts.attempts; attempt++) {
      try { return await fn(); }
      catch (error) {
        lastErr = error;
        if (attempt < opts.attempts) {
          const waitMs = opts.backoffMs * Math.pow(2, attempt - 1);
          await sleep(waitMs);
        }
      }
    }
    throw lastErr;
  }
  \<close>
  The thunk \<open>fn\<close> is effectful: each invocation may end differently.  It is modelled by
  the function that gives the outcome of its i-th invocation (counted from 1), \<open>Inl\<close> for
  a rejected promise.  The loop calls \<open>fn\<close> exactly once per iteration, so the i-th
  invocation happens in the iteration with \<open>attempt = i\<close>.  The state threaded through
  the loop is what the source keeps (\<open>attempt\<close>, \<open>lastErr\<close>) and a trace of the effects:
  the number of invocations made and the arguments passed to \<open>sleep\<close>, in order.
  \<open>lastErr\<close> starts undefined (\<open>None\<close>).  The configuration values are integers and are
  modelled as natural numbers; the labels and log lines are left out.
\<close>

record ('e, 'a) retry_result =
  outcome :: "'e option + 'a"
  invocations :: nat
  sleeps :: "nat list"

function retryLoop ::
  "(nat \<Rightarrow> 'e + 'a) \<Rightarrow> nat \<Rightarrow> nat \<Rightarrow> nat \<Rightarrow> 'e option \<Rightarrow> nat \<Rightarrow> nat list \<Rightarrow> ('e, 'a) retry_result"
where
  "retryLoop fn attempts backoffMs attempt lastErr calls slept =
     (if attempt \<le> attempts then
        (case fn (Suc calls) of
           Inr v \<Rightarrow> \<lparr>outcome = Inr v, invocations = Suc calls, sleeps = slept\<rparr>
         | Inl e \<Rightarrow>
             (if attempt < attempts
              then retryLoop fn attempts backoffMs (attempt + 1) (Some e) (Suc calls)
                     (slept @ [backoffMs * 2 ^ (attempt - 1)])
              else retryLoop fn attempts backoffMs (attempt + 1) (Some e) (Suc calls) slept))
      else \<lparr>outcome = Inl lastErr, invocations = calls, sleeps = slept\<rparr>)"
  by pat_completeness auto
termination
  by (relation "measure (\<lambda>(fn, attempts, backoffMs, attempt, lastErr, calls, slept). Suc attempts - attempt)") auto

definition performWithRetry :: "(nat \<Rightarrow> 'e + 'a) \<Rightarrow> nat \<Rightarrow> nat \<Rightarrow> ('e, 'a) retry_result" where
  "performWithRetry fn attempts backoffMs = retryLoop fn attempts backoffMs 1 None 0 []"

section \<open>Manifest hash (worker/index.ts, buildManifestHash)\<close>

text \<open>
  \<open>keccak256\<close> comes from the ethers library and is a parameter \<open>K\<close> of every function
  that hashes.  \<open>Array.prototype.sort()\<close> without a comparator orders strings
  lexicographically by code unit with a proper prefix first, which is the order of
  the theory List_Lexorder over Char_ord.
  The payload is \<open>JSON.stringify({ success: [...success].sort(), failed: [...failed].sort() })\<close>.
\<close>

definition manifestPayload :: "string list \<Rightarrow> string list \<Rightarrow> string" where
  "manifestPayload success failed =
     ''{'' @ jsonString ''success'' @ '':'' @ jsonStringArray (sort success) @ '','' @
             jsonString ''failed'' @ '':'' @ jsonStringArray (sort failed) @ ''}''"

definition buildManifestHash :: "(string \<Rightarrow> string) \<Rightarrow> string list \<Rightarrow> string list \<Rightarrow> string" where
  "buildManifestHash K success failed = K (manifestPayload success failed)"

section \<open>Copy event store (worker/index.ts, CopyEventStore)\<close>

text \<open>
  Request ids are JavaScript numbers holding integers (\<open>int\<close>).  Record fields carry a
  prefix (\<open>ce_\<close> for CopyEvent, \<open>cu_\<close> for CopyEventUpdate) because the source reuses
  field names across types.  The clock (\<open>new Date().toISOString()\<close>) is the parameter
  \<open>now\<close>.  The alert that \<open>fail\<close> hands to the alert service is an outbound,
  fire-and-forget notification and is left out.
\<close>

datatype CopyEventStatus = Pending | Copying | Completed | Partial | Error

record CopyEventFailure =
  cf_sop :: string
  cf_message :: string

record CopyEvent =
  ce_requestId :: int
  ce_providerId :: "string option"
  ce_patientAddress :: string
  ce_patientId :: string
  ce_total :: nat
  ce_success :: nat
  ce_failed :: nat
  ce_status :: CopyEventStatus
  ce_errors :: "string list"
  ce_failures :: "CopyEventFailure list"
  ce_manifestHash :: "string option"
  ce_startedAt :: string
  ce_updatedAt :: string

record CopyEventUpdate =
  cu_total :: "nat option"
  cu_success :: "nat option"
  cu_failed :: "nat option"
  cu_status :: "CopyEventStatus option"
  cu_manifestHash :: "string option"
  cu_error :: "string option"

definition noUpdate :: CopyEventUpdate where
  "noUpdate = \<lparr>cu_total = None, cu_success = None, cu_failed = None, cu_status = None,
               cu_manifestHash = None, cu_error = None\<rparr>"

record CopyEventStore =
  events :: "int \<rightharpoonup> CopyEvent"
  order :: "int list"
  limit :: nat

text \<open>\<open>xs.slice(-n)\<close>: the last \<open>n\<close> elements.\<close>

definition sliceLast :: "nat \<Rightarrow> 'a list \<Rightarrow> 'a list" where
  "sliceLast n xs = drop (length xs - n) xs"

text \<open>\<open>trim\<close>: while the order list is longer than the limit, shift the oldest id and delete its event.\<close>

fun trimStore :: "nat \<Rightarrow> (int \<rightharpoonup> CopyEvent) \<Rightarrow> int list \<Rightarrow> (int \<rightharpoonup> CopyEvent) \<times> int list" where
  "trimStore lim evs [] = (evs, [])"
| "trimStore lim evs (oldest # rest) =
     (if length (oldest # rest) > lim then trimStore lim (evs(oldest := None)) rest
      else (evs, oldest # rest))"

definition ce_start :: "string \<Rightarrow> int \<Rightarrow> string option \<Rightarrow> string \<Rightarrow> string \<Rightarrow> CopyEventStore \<Rightarrow> CopyEventStore" where
  "ce_start now rid providerId patientAddress patientId st =
     (let order1 = remove1 rid (order st);
          entry = \<lparr>ce_requestId = rid, ce_providerId = providerId,
                   ce_patientAddress = patientAddress, ce_patientId = patientId,
                   ce_total = 0, ce_success = 0, ce_failed = 0, ce_status = Pending,
                   ce_errors = [], ce_failures = [], ce_manifestHash = None,
                   ce_startedAt = now, ce_updatedAt = now\<rparr>;
          (evs, ord) = trimStore (limit st) ((events st)(rid \<mapsto> entry)) (order1 @ [rid])
      in st\<lparr>events := evs, order := ord\<rparr>)"

definition applyPatch :: "string \<Rightarrow> CopyEventUpdate \<Rightarrow> CopyEvent \<Rightarrow> CopyEvent" where
  "applyPatch now patch entry =
     (let e1 = (case cu_total patch of Some n \<Rightarrow> entry\<lparr>ce_total := n\<rparr> | None \<Rightarrow> entry);
          e2 = (case cu_success patch of Some n \<Rightarrow> e1\<lparr>ce_success := n\<rparr> | None \<Rightarrow> e1);
          e3 = (case cu_failed patch of Some n \<Rightarrow> e2\<lparr>ce_failed := n\<rparr> | None \<Rightarrow> e2);
          e4 = (case cu_status patch of Some s \<Rightarrow> e3\<lparr>ce_status := s\<rparr> | None \<Rightarrow> e3);
          e5 = (case cu_manifestHash patch of Some h \<Rightarrow> e4\<lparr>ce_manifestHash := Some h\<rparr> | None \<Rightarrow> e4);
          e6 = (case cu_error patch of
                  Some m \<Rightarrow> (if m \<noteq> [] then e5\<lparr>ce_errors := sliceLast 5 (ce_errors e5 @ [m])\<rparr> else e5)
                | None \<Rightarrow> e5)
      in e6\<lparr>ce_updatedAt := now\<rparr>)"

definition ce_update :: "string \<Rightarrow> int \<Rightarrow> CopyEventUpdate \<Rightarrow> CopyEventStore \<Rightarrow> CopyEventStore" where
  "ce_update now rid patch st =
     (case events st rid of
        None \<Rightarrow> st
      | Some entry \<Rightarrow> st\<lparr>events := (events st)(rid \<mapsto> applyPatch now patch entry)\<rparr>)"

definition ce_recordFailure :: "string \<Rightarrow> int \<Rightarrow> CopyEventFailure \<Rightarrow> CopyEventStore \<Rightarrow> CopyEventStore" where
  "ce_recordFailure now rid failure st =
     (case events st rid of
        None \<Rightarrow> st
      | Some entry \<Rightarrow>
          st\<lparr>events := (events st)(rid \<mapsto>
               entry\<lparr>ce_failures := sliceLast 20 (ce_failures entry @ [failure]), ce_updatedAt := now\<rparr>)\<rparr>)"

definition ce_fail :: "string \<Rightarrow> int \<Rightarrow> string \<Rightarrow> CopyEventStore \<Rightarrow> CopyEventStore" where
  "ce_fail now rid message st =
     (case events st rid of
        None \<Rightarrow> st
      | Some entry \<Rightarrow>
          st\<lparr>events := (events st)(rid \<mapsto>
               entry\<lparr>ce_status := Error, ce_errors := sliceLast 5 (ce_errors entry @ [message]),
                     ce_updatedAt := now\<rparr>)\<rparr>)"

section \<open>Push envelopes (worker/push-utils.ts)\<close>

text \<open>
  \<open>canonicalise\<close> reduces every instance to \<open>{sop, study ?? null, series ?? null, dataHash}\<close>
  and sorts the entries with the comparator \<open>a.sop.localeCompare(b.sop)\<close>.  The collation of
  \<open>localeCompare\<close> belongs to the runtime and is the parameter \<open>cmp\<close> (negative, zero or
  positive); \<open>Array.prototype.sort\<close> is stable, which the insertion sort below is.  A
  missing \<open>data\<close> is the empty string (\<open>instance.data ?? ""\<close>, and \<open>!instance.data\<close> holds
  for both).  The request id and the expiry of an envelope are what \<open>Number(...)\<close> makes
  of the fields received, taken to be integers (\<open>None\<close> when not finite); the first
  argument of \<open>buildPushMessage\<close> is the runtime's notation of a large number in a
  template literal.
\<close>

record ProviderPushInstance =
  pi_sop :: string
  pi_study :: "string option"
  pi_series :: "string option"
  pi_data :: string

record ProviderPushEnvelope =
  pe_clinicId :: string
  pe_requestId :: "int option"
  pe_expiresAt :: "int option"
  pe_instances :: "ProviderPushInstance list"
  pe_signature :: string

record CanonicalEntry =
  can_sop :: string
  can_study :: "string option"
  can_series :: "string option"
  can_dataHash :: string

fun insertBy :: "('a \<Rightarrow> 'a \<Rightarrow> int) \<Rightarrow> 'a \<Rightarrow> 'a list \<Rightarrow> 'a list" where
  "insertBy cmp x [] = [x]"
| "insertBy cmp x (y # ys) = (if cmp x y \<le> 0 then x # y # ys else y # insertBy cmp x ys)"

definition sortBy :: "('a \<Rightarrow> 'a \<Rightarrow> int) \<Rightarrow> 'a list \<Rightarrow> 'a list" where
  "sortBy cmp xs = foldr (insertBy cmp) xs []"

definition canonicalise ::
  "(string \<Rightarrow> string) \<Rightarrow> (string \<Rightarrow> string \<Rightarrow> int) \<Rightarrow> ProviderPushInstance list \<Rightarrow> CanonicalEntry list" where
  "canonicalise K cmp instances =
     sortBy (\<lambda>a b. cmp (can_sop a) (can_sop b))
       (map (\<lambda>i. \<lparr>can_sop = pi_sop i, can_study = pi_study i, can_series = pi_series i,
                   can_dataHash = K (pi_data i)\<rparr>) instances)"

definition jsonNullable :: "string option \<Rightarrow> string" where
  "jsonNullable v = (case v of None \<Rightarrow> ''null'' | Some s \<Rightarrow> jsonString s)"

definition jsonCanonicalEntry :: "CanonicalEntry \<Rightarrow> string" where
  "jsonCanonicalEntry e =
     ''{'' @ jsonString ''sop'' @ '':'' @ jsonString (can_sop e) @ '','' @
             jsonString ''study'' @ '':'' @ jsonNullable (can_study e) @ '','' @
             jsonString ''series'' @ '':'' @ jsonNullable (can_series e) @ '','' @
             jsonString ''dataHash'' @ '':'' @ jsonString (can_dataHash e) @ ''}''"

definition computeInstancesHash ::
  "(string \<Rightarrow> string) \<Rightarrow> (string \<Rightarrow> string \<Rightarrow> int) \<Rightarrow> ProviderPushInstance list \<Rightarrow> string" where
  "computeInstancesHash K cmp instances =
     K (jsonArray (map jsonCanonicalEntry (canonicalise K cmp instances)))"

definition buildPushMessage :: "(int \<Rightarrow> string) \<Rightarrow> string \<Rightarrow> int \<Rightarrow> int \<Rightarrow> string \<Rightarrow> string" where
  "buildPushMessage other clinicId requestId expiresAt payloadHash =
     ''ProviderPush|'' @ trim clinicId @ ''|'' @ numberTemplate other requestId @ ''|'' @
       numberTemplate other expiresAt @ ''|'' @ payloadHash"

section \<open>The worker (worker/index.ts, main)\<close>

text \<open>
  Everything \<open>main\<close> reaches outside the process is a field of the record \<open>deps\<close>: the
  configuration values it reads, the ethers functions (\<open>keccak256\<close>, \<open>verifyMessage\<close>), the
  collation of \<open>localeCompare\<close> and the notation of a large number in a template literal,
  the ledger (\<open>contract.reqs\<close>), the clock, and the network calls.  A call that can throw
  returns a sum with the message of the error on the left
  (\<open>e?.message || formatAxiosError(e)\<close>).  A network call is made several times with the
  same arguments and may end differently each time, so its model takes the request id, the
  position of the instance in its batch and the number of the invocation within one
  \<open>performWithRetry\<close>.

  The mutable state of the process is the record \<open>worker\<close>: the copy event store, the
  \<open>pendingPush\<close> map, the \<open>processed\<close> set and \<open>fromBlock\<close> of the polling loop, and
  three traces of effects: \<open>startedLog\<close> holds the request id of every call of
  \<open>copyEvents.start\<close>, \<open>dispatchLog\<close> the id of every request whose workflow went on to
  park a pending push or to run the pull-mode transfer, and \<open>uploads\<close> holds one entry
  (request id, SOP instance uid, number of invocations) for every instance that a push
  handler passed to \<open>uploadToOrthanc\<close>.
\<close>

datatype CopyMode = DryRun | Orthanc | ProviderPush

record LedgerRequest =
  lr_id :: int
  lr_patient :: string
  lr_providerClinicKey :: string
  lr_requesterClinicKey :: string
  lr_status :: int

record Uids =
  u_sop :: string
  u_study :: string
  u_series :: string

record PendingPushEntry =
  pp_requestId :: int
  pp_providerId :: string
  pp_patientAddress :: string
  pp_patientId :: string

record PushBody =
  pb_manifestHash :: string
  pb_success :: nat
  pb_failed :: nat
  pb_status :: CopyEventStatus

record ProviderPushResult =
  pr_status :: nat
  pr_body :: "PushBody option"
  pr_error :: "string option"

record deps =
  keccak256 :: "string \<Rightarrow> string"
  localeCompare :: "string \<Rightarrow> string \<Rightarrow> int"
  numberToString :: "int \<Rightarrow> string"
  cfg_copyMode :: CopyMode
  cfg_maxRetries :: "nat option"
  cfg_backoffMs :: "nat option"
  providerSignerAddresses :: "string \<rightharpoonup> string"
  requesterOrthanc :: bool
  verifyMessage :: "string \<Rightarrow> string \<Rightarrow> string + string"
  nowSec :: int
  nowIso :: string
  contract_reqs :: "int \<Rightarrow> string + LedgerRequest"
  base64Decode :: "string \<Rightarrow> string"
  uploadToOrthanc :: "int \<Rightarrow> nat \<Rightarrow> nat \<Rightarrow> string + unit"
  requestMarkFulfilled :: "string \<Rightarrow> int \<Rightarrow> string \<Rightarrow> string + unit"
  getRequestAndProviderId :: "int \<Rightarrow> string + (string \<times> string option)"
  aliasLookup :: "string \<Rightarrow> string option"
  providerCfg :: "string \<Rightarrow> bool"
  qidoFindInstances :: "string \<Rightarrow> string \<Rightarrow> string + Uids list"
  wadoFetchInstance :: "int \<Rightarrow> nat \<Rightarrow> nat \<Rightarrow> string + string"
  restFetchInstance :: "int \<Rightarrow> nat \<Rightarrow> nat \<Rightarrow> string + string"

record worker =
  copyEvents :: CopyEventStore
  pendingPush :: "int \<rightharpoonup> PendingPushEntry"
  processed :: "int set"
  fromBlock :: nat
  startedLog :: "int list"
  dispatchLog :: "int list"
  uploads :: "(int \<times> string \<times> nat) list"

definition pushError :: "nat \<Rightarrow> string \<Rightarrow> ProviderPushResult" where
  "pushError code msg = \<lparr>pr_status = code, pr_body = None, pr_error = Some msg\<rparr>"

text \<open>The message of a caught error; \<open>performWithRetry\<close> with no attempt throws \<open>undefined\<close>.\<close>

definition errMessage :: "string option \<Rightarrow> string" where
  "errMessage e = (case e of None \<Rightarrow> ''unknown error'' | Some m \<Rightarrow> m)"

definition attemptsOf :: "deps \<Rightarrow> nat" where
  "attemptsOf d = (case cfg_maxRetries d of None \<Rightarrow> 3 | Some n \<Rightarrow> n)"

definition backoffOf :: "deps \<Rightarrow> nat" where
  "backoffOf d = (case cfg_backoffMs d of None \<Rightarrow> 1000 | Some n \<Rightarrow> n)"

definition resolvePatientId :: "deps \<Rightarrow> string \<Rightarrow> string" where
  "resolvePatientId d patientAddress =
     (case aliasLookup d patientAddress of None \<Rightarrow> patientAddress | Some p \<Rightarrow> p)"

definition interimStatus :: "string list \<Rightarrow> CopyEventStatus" where
  "interimStatus failed = (if failed \<noteq> [] then Partial else Copying)"

definition outcomeStatusOf :: "string list \<Rightarrow> CopyEventStatus" where
  "outcomeStatusOf failed = (if failed \<noteq> [] then Partial else Completed)"

subsection \<open>handleProviderPush\<close>

text \<open>
  The body of the \<open>try\<close> inside the instance loop: decode the payload and upload it with
  retries.  The result is the caught message on the left, and the upload that was made,
  if one was.
\<close>

definition pushUpload :: "deps \<Rightarrow> int \<Rightarrow> nat \<Rightarrow> ProviderPushInstance \<Rightarrow> (string + unit) \<times> (int \<times> string \<times> nat) list" where
  "pushUpload d rid idx inst =
     (if pi_data inst = [] then (Inl ''instance payload missing base64 data'', [])
      else if base64Decode d (pi_data inst) = [] then (Inl ''decoded payload empty'', [])
      else (let r = performWithRetry (uploadToOrthanc d rid idx) (attemptsOf d) (backoffOf d)
            in (case outcome r of Inr u \<Rightarrow> Inr () | Inl e \<Rightarrow> Inl (errMessage e),
                [(rid, pi_sop inst, invocations r)])))"

definition pushOne ::
  "deps \<Rightarrow> int \<Rightarrow> nat \<Rightarrow> ProviderPushInstance \<Rightarrow> string list \<times> string list \<times> worker
     \<Rightarrow> string list \<times> string list \<times> worker" where
  "pushOne d rid idx inst acc =
     (case acc of (success, failed, w) \<Rightarrow>
        if pi_sop inst = [] then
          (let failed1 = failed @ [''(unknown)''];
               ce1 = ce_recordFailure (nowIso d) rid
                       \<lparr>cf_sop = ''(unknown)'', cf_message = ''missing SOPInstanceUID''\<rparr> (copyEvents w);
               ce2 = ce_update (nowIso d) rid
                       (noUpdate\<lparr>cu_failed := Some (length failed1), cu_success := Some (length success),
                                 cu_status := Some Partial\<rparr>) ce1
           in (success, failed1, w\<lparr>copyEvents := ce2\<rparr>))
        else
          (case pushUpload d rid idx inst of
             (Inr u, ups) \<Rightarrow>
               (let success1 = success @ [pi_sop inst];
                    ce2 = ce_update (nowIso d) rid
                            (noUpdate\<lparr>cu_failed := Some (length failed), cu_success := Some (length success1),
                                      cu_status := Some (interimStatus failed)\<rparr>) (copyEvents w)
                in (success1, failed, w\<lparr>copyEvents := ce2, uploads := uploads w @ ups\<rparr>))
           | (Inl message, ups) \<Rightarrow>
               (let failed1 = failed @ [pi_sop inst];
                    ce1 = ce_recordFailure (nowIso d) rid
                            \<lparr>cf_sop = pi_sop inst, cf_message = message\<rparr> (copyEvents w);
                    ce2 = ce_update (nowIso d) rid
                            (noUpdate\<lparr>cu_failed := Some (length failed1), cu_success := Some (length success),
                                      cu_status := Some (interimStatus failed1)\<rparr>) ce1
                in (success, failed1, w\<lparr>copyEvents := ce2, uploads := uploads w @ ups\<rparr>))))"

fun pushInstances ::
  "deps \<Rightarrow> int \<Rightarrow> nat \<Rightarrow> ProviderPushInstance list \<Rightarrow> string list \<times> string list \<times> worker
     \<Rightarrow> string list \<times> string list \<times> worker" where
  "pushInstances d rid idx [] acc = acc"
| "pushInstances d rid idx (inst # rest) acc = pushInstances d rid (Suc idx) rest (pushOne d rid idx inst acc)"

text \<open>
  The part of \<open>handleProviderPush\<close> from the requester configuration check on: the
  uploads, the manifest, the fulfillment, and the \<open>finally\<close> that deletes the pending
  entry on both ways out of the \<open>try\<close>.
\<close>

definition pushTransfer ::
  "deps \<Rightarrow> ProviderPushEnvelope \<Rightarrow> string \<Rightarrow> int \<Rightarrow> PendingPushEntry \<Rightarrow> worker \<Rightarrow> ProviderPushResult \<times> worker" where
  "pushTransfer d envelope clinicId rid pending w =
     (if \<not> requesterOrthanc d then (pushError 500 ''requester orthanc config missing'', w)
      else
        (let w1 = w\<lparr>copyEvents := ce_update (nowIso d) rid
                      (noUpdate\<lparr>cu_status := Some Copying, cu_total := Some (length (pe_instances envelope))\<rparr>)
                      (copyEvents w)\<rparr>
         in (case pushInstances d rid 0 (pe_instances envelope) ([], [], w1) of
           (success, failed, w2) \<Rightarrow>
             (let manifestHash = buildManifestHash (keccak256 d) success failed;
                  outcomeStatus = outcomeStatusOf failed
              in (case requestMarkFulfilled d clinicId rid manifestHash of
                   Inl message \<Rightarrow>
                     (pushError 502 message,
                      w2\<lparr>copyEvents := ce_fail (nowIso d) rid message (copyEvents w2),
                         pendingPush := (pendingPush w2)(rid := None)\<rparr>)
                 | Inr u \<Rightarrow>
                     (\<lparr>pr_status = 200,
                       pr_body = Some \<lparr>pb_manifestHash = manifestHash, pb_success = length success,
                                       pb_failed = length failed, pb_status = outcomeStatus\<rparr>,
                       pr_error = None\<rparr>,
                      w2\<lparr>pendingPush := (pendingPush w2)(rid := None),
                         copyEvents := ce_update (nowIso d) rid
                           (noUpdate\<lparr>cu_status := Some outcomeStatus, cu_success := Some (length success),
                                     cu_failed := Some (length failed), cu_manifestHash := Some manifestHash\<rparr>)
                           (copyEvents w2)\<rparr>))))))"

definition handleProviderPush :: "deps \<Rightarrow> ProviderPushEnvelope \<Rightarrow> worker \<Rightarrow> ProviderPushResult \<times> worker" where
  "handleProviderPush d envelope w =
     (if cfg_copyMode d \<noteq> ProviderPush then (pushError 400 ''copy mode is not providerPush'', w)
      else
        (let clinicId = trim (pe_clinicId envelope) in
         if clinicId = [] then (pushError 400 ''clinicId is required'', w)
         else (case pe_requestId envelope of
           None \<Rightarrow> (pushError 400 ''requestId must be numeric'', w)
         | Some rid \<Rightarrow>
         (case pe_expiresAt envelope of
           None \<Rightarrow> (pushError 400 ''expiresAt must be numeric'', w)
         | Some expiresAt \<Rightarrow>
         (if pe_signature envelope = [] then (pushError 400 ''signature is required'', w)
          else if pe_instances envelope = [] then (pushError 400 ''instances must be a non-empty array'', w)
          else (case pendingPush w rid of
           None \<Rightarrow> (pushError 409 ''no pending access request'', w)
         | Some pending \<Rightarrow>
         (if pp_providerId pending \<noteq> clinicId then (pushError 403 ''clinicId mismatch'', w)
          else (case providerSignerAddresses d clinicId of
           None \<Rightarrow> (pushError 403 ''unknown provider clinic'', w)
         | Some expectedSigner \<Rightarrow>
         (let payloadHash = computeInstancesHash (keccak256 d) (localeCompare d) (pe_instances envelope)
          in (case verifyMessage d (buildPushMessage (numberToString d) clinicId rid expiresAt payloadHash)
                    (pe_signature envelope) of
           Inl message \<Rightarrow> (pushError 400 (''signature verification failed: '' @ message), w)
         | Inr recovered \<Rightarrow>
         (if toLowerCase recovered \<noteq> toLowerCase expectedSigner then (pushError 403 ''signature mismatch'', w)
          else if expiresAt < nowSec d then (pushError 410 ''envelope expired'', w)
          else (case contract_reqs d rid of
           Inl message \<Rightarrow> (pushError 500 (''failed to load access request: '' @ message), w)
         | Inr reqData \<Rightarrow>
         (if lr_status reqData \<ge> 2
          then (pushError 409 ''access request already fulfilled'',
                w\<lparr>pendingPush := (pendingPush w)(rid := None)\<rparr>)
          else pushTransfer d envelope clinicId rid pending w)))))))))))))"

subsection \<open>The polling loop\<close>

text \<open>
  \<open>fetchInstanceWithFallback\<close>: the WADO retrieval, and the REST lookup-then-fetch when it
  throws.
\<close>

definition fetchInstanceWithFallback :: "deps \<Rightarrow> int \<Rightarrow> nat \<Rightarrow> nat \<Rightarrow> string + string" where
  "fetchInstanceWithFallback d rid idx n =
     (case wadoFetchInstance d rid idx n of
        Inr bin \<Rightarrow> Inr bin
      | Inl wadoErr \<Rightarrow> restFetchInstance d rid idx n)"

text \<open>The body of the \<open>try\<close> in the pull loop: fetch with retries, then upload with retries.\<close>

definition copyInstance :: "deps \<Rightarrow> int \<Rightarrow> nat \<Rightarrow> string + unit" where
  "copyInstance d rid idx =
     (case outcome (performWithRetry (fetchInstanceWithFallback d rid idx) (attemptsOf d) (backoffOf d)) of
        Inl e \<Rightarrow> Inl (errMessage e)
      | Inr bin \<Rightarrow>
          (case outcome (performWithRetry (uploadToOrthanc d rid idx) (attemptsOf d) (backoffOf d)) of
             Inl e \<Rightarrow> Inl (errMessage e)
           | Inr u \<Rightarrow> Inr ()))"

definition copyOne ::
  "deps \<Rightarrow> int \<Rightarrow> nat \<Rightarrow> Uids \<Rightarrow> string list \<times> string list \<times> CopyEventStore
     \<Rightarrow> string list \<times> string list \<times> CopyEventStore" where
  "copyOne d rid idx u acc =
     (case acc of (success, failed, ces) \<Rightarrow>
        (case copyInstance d rid idx of
           Inr ok \<Rightarrow>
             (let success1 = success @ [u_sop u]
              in (success1, failed,
                  ce_update (nowIso d) rid
                    (noUpdate\<lparr>cu_success := Some (length success1), cu_failed := Some (length failed),
                              cu_status := Some (interimStatus failed)\<rparr>) ces))
         | Inl msg \<Rightarrow>
             (let failed1 = failed @ [u_sop u];
                  ce1 = ce_recordFailure (nowIso d) rid \<lparr>cf_sop = u_sop u, cf_message = msg\<rparr> ces
              in (success, failed1,
                  ce_update (nowIso d) rid
                    (noUpdate\<lparr>cu_success := Some (length success), cu_failed := Some (length failed1),
                              cu_status := Some (interimStatus failed1)\<rparr>) ce1))))"

text \<open>
  The callback of the polling timer is an \<open>async\<close> function: it runs until it awaits a
  promise, and goes on, in a later turn of the event loop, when the promise has settled.
  Between two awaits nothing else runs; at an await any other callback may run, among
  them the callbacks of later timer ticks, which \<open>setInterval\<close> starts every five seconds
  whether or not the earlier ones have returned.  A \<open>phase\<close> is a point where the
  callback is suspended, with the values of its local variables that the rest of the run
  reads: the block window, the events of the batch still to visit, the request in
  work and the state of its copy loop.

  The awaits inside \<open>performWithRetry\<close>, \<open>fetchInstanceWithFallback\<close> and
  \<open>requestMarkFulfilled\<close> are not phases of their own: when the callback is resumed at
  one of them it reads and writes no state of the process before it is suspended again,
  so such a resumption is no step of the process, and the copy of one instance, and the
  fulfillment call, are one suspension each.
\<close>

datatype phase =
    AwaitBlockNumber
  | AwaitQueryFilter nat nat
  | AwaitRequest nat "int option list" int
  | AwaitQido nat "int option list" int string string
  | AwaitCopy nat "int option list" int string Uids "Uids list" nat "string list" "string list"
  | AwaitFulfilled nat "int option list" int string string CopyEventStatus nat nat
  | Finished

text \<open>
  \<open>for (const ev of events)\<close> from the event it has reached, up to the next await or to
  the end of the callback.  An event is the number \<open>Number(args.id)\<close>, \<open>None\<close> when it
  is not finite.  A new id is added to \<open>processed\<close> and the callback awaits
  \<open>getRequestAndProviderId\<close>; when the batch is drained \<open>fromBlock\<close> moves.
\<close>

fun eventLoop :: "deps \<Rightarrow> nat \<Rightarrow> int option list \<Rightarrow> worker \<Rightarrow> phase \<times> worker" where
  "eventLoop d toBlock [] w = (Finished, w\<lparr>fromBlock := toBlock\<rparr>)"
| "eventLoop d toBlock (None # evs) w = eventLoop d toBlock evs w"
| "eventLoop d toBlock (Some rid # evs) w =
     (if rid \<in> processed w then eventLoop d toBlock evs w
      else (AwaitRequest toBlock evs rid, w\<lparr>processed := insert rid (processed w)\<rparr>))"

text \<open>
  The callback after \<open>getRequestAndProviderId\<close> has settled: when it threw, the outer
  \<open>catch\<close> fails the copy event; otherwise the copy event is started and the request is
  dispatched: parked for a push (\<open>providerPush\<close>), handed to the pull-mode transfer
  (\<open>orthanc\<close>), or fulfilled at once (\<open>dryRun\<close>, and \<open>orthanc\<close> without its
  configuration).
\<close>

definition afterRequest :: "deps \<Rightarrow> nat \<Rightarrow> int option list \<Rightarrow> int \<Rightarrow> worker \<Rightarrow> phase \<times> worker" where
  "afterRequest d toBlock evs rid w =
     (case getRequestAndProviderId d rid of
        Inl msg \<Rightarrow> eventLoop d toBlock evs (w\<lparr>copyEvents := ce_fail (nowIso d) rid msg (copyEvents w)\<rparr>)
      | Inr (patientAddr, providerIdOpt) \<Rightarrow>
          (let patientId = resolvePatientId d patientAddr;
               w1 = w\<lparr>copyEvents := ce_start (nowIso d) rid providerIdOpt patientAddr patientId (copyEvents w),
                      startedLog := startedLog w @ [rid]\<rparr>
           in (case providerIdOpt of
                 None \<Rightarrow>
                   eventLoop d toBlock evs
                     (w1\<lparr>copyEvents := ce_fail (nowIso d) rid ''providerId not found in config'' (copyEvents w1)\<rparr>)
               | Some providerId \<Rightarrow>
                   (if cfg_copyMode d = ProviderPush then
                      eventLoop d toBlock evs
                        (w1\<lparr>pendingPush := (pendingPush w1)(rid \<mapsto>
                               \<lparr>pp_requestId = rid, pp_providerId = providerId,
                                pp_patientAddress = patientAddr, pp_patientId = patientId\<rparr>),
                            copyEvents := ce_update (nowIso d) rid
                               (noUpdate\<lparr>cu_status := Some Pending, cu_total := Some 0,
                                         cu_success := Some 0, cu_failed := Some 0\<rparr>) (copyEvents w1),
                            dispatchLog := dispatchLog w1 @ [rid]\<rparr>)
                    else if cfg_copyMode d = Orthanc then
                      (if \<not> providerCfg d providerId \<or> \<not> requesterOrthanc d then
                         (AwaitFulfilled toBlock evs rid providerId (keccak256 d ''dummy-manifest'') Error 0 0,
                          w1\<lparr>copyEvents := ce_update (nowIso d) rid
                                (noUpdate\<lparr>cu_status := Some Error,
                                          cu_error := Some ''providers/requester config missing; fallback to dryRun''\<rparr>)
                                (copyEvents w1),
                              dispatchLog := dispatchLog w1 @ [rid]\<rparr>)
                       else
                         (AwaitQido toBlock evs rid providerId patientId,
                          w1\<lparr>copyEvents := ce_update (nowIso d) rid (noUpdate\<lparr>cu_status := Some Copying\<rparr>)
                                (copyEvents w1),
                              dispatchLog := dispatchLog w1 @ [rid]\<rparr>))
                    else
                      (AwaitFulfilled toBlock evs rid providerId (keccak256 d ''dry-run'') Completed 0 0,
                       w1\<lparr>copyEvents := ce_update (nowIso d) rid
                             (noUpdate\<lparr>cu_status := Some Completed,
                                       cu_manifestHash := Some (keccak256 d ''dry-run'')\<rparr>) (copyEvents w1),
                           dispatchLog := dispatchLog w1 @ [rid]\<rparr>)))))"

text \<open>
  The pull loop \<open>for (let i = 0; i < instances.length; i++)\<close> from the instance it has
  reached: it awaits the copy of the next instance or, when none is left, writes the
  outcome and awaits the fulfillment.
\<close>

definition copyLoop ::
  "deps \<Rightarrow> nat \<Rightarrow> int option list \<Rightarrow> int \<Rightarrow> string \<Rightarrow> Uids list \<Rightarrow> nat \<Rightarrow> string list \<Rightarrow> string list
     \<Rightarrow> worker \<Rightarrow> phase \<times> worker" where
  "copyLoop d toBlock evs rid providerId instances idx success failed w =
     (case instances of
        u # rest \<Rightarrow> (AwaitCopy toBlock evs rid providerId u rest idx success failed, w)
      | [] \<Rightarrow>
          (let manifestHash = buildManifestHash (keccak256 d) success failed;
               outcomeStatus = outcomeStatusOf failed
           in (AwaitFulfilled toBlock evs rid providerId manifestHash outcomeStatus (length success) (length failed),
               w\<lparr>copyEvents := ce_update (nowIso d) rid
                     (noUpdate\<lparr>cu_success := Some (length success), cu_failed := Some (length failed),
                               cu_status := Some outcomeStatus, cu_manifestHash := Some manifestHash\<rparr>)
                     (copyEvents w)\<rparr>)))"

text \<open>The callback after \<open>qidoFindInstances\<close> has settled; when it threw, the outer \<open>catch\<close> takes over.\<close>

definition afterQido ::
  "deps \<Rightarrow> nat \<Rightarrow> int option list \<Rightarrow> int \<Rightarrow> string \<Rightarrow> string \<Rightarrow> worker \<Rightarrow> phase \<times> worker" where
  "afterQido d toBlock evs rid providerId patientId w =
     (case qidoFindInstances d providerId patientId of
        Inl msg \<Rightarrow> eventLoop d toBlock evs (w\<lparr>copyEvents := ce_fail (nowIso d) rid msg (copyEvents w)\<rparr>)
      | Inr instances \<Rightarrow>
          copyLoop d toBlock evs rid providerId instances 0 [] []
            (w\<lparr>copyEvents := ce_update (nowIso d) rid (noUpdate\<lparr>cu_total := Some (length instances)\<rparr>)
                   (copyEvents w)\<rparr>))"

text \<open>The callback after the copy of an instance has ended, and after the fulfillment call has.\<close>

definition afterCopy ::
  "deps \<Rightarrow> nat \<Rightarrow> int option list \<Rightarrow> int \<Rightarrow> string \<Rightarrow> Uids \<Rightarrow> Uids list \<Rightarrow> nat \<Rightarrow> string list \<Rightarrow> string list
     \<Rightarrow> worker \<Rightarrow> phase \<times> worker" where
  "afterCopy d toBlock evs rid providerId u rest idx success failed w =
     (case copyOne d rid idx u (success, failed, copyEvents w) of
        (success1, failed1, ces) \<Rightarrow>
          copyLoop d toBlock evs rid providerId rest (Suc idx) success1 failed1 (w\<lparr>copyEvents := ces\<rparr>))"

definition afterFulfilled ::
  "deps \<Rightarrow> nat \<Rightarrow> int option list \<Rightarrow> int \<Rightarrow> string \<Rightarrow> string \<Rightarrow> CopyEventStatus \<Rightarrow> nat \<Rightarrow> nat
     \<Rightarrow> worker \<Rightarrow> phase \<times> worker" where
  "afterFulfilled d toBlock evs rid providerId manifestHash outcomeStatus outcomeSuccess outcomeFailed w =
     eventLoop d toBlock evs
       (case requestMarkFulfilled d providerId rid manifestHash of
          Inr u \<Rightarrow>
            w\<lparr>copyEvents := ce_update (nowIso d) rid
                 (noUpdate\<lparr>cu_status := Some outcomeStatus, cu_success := Some outcomeSuccess,
                           cu_failed := Some outcomeFailed, cu_manifestHash := Some manifestHash\<rparr>)
                 (copyEvents w)\<rparr>
        | Inl msg \<Rightarrow> w\<lparr>copyEvents := ce_fail (nowIso d) rid msg (copyEvents w)\<rparr>)"

text \<open>
  One polling tick is the environment it meets (the collaborators, the answer of
  \<open>getBlockNumber\<close> and that of \<open>queryFilter\<close> for a window, which may throw) and the
  phase it has reached.  \<open>resume\<close> runs the callback from a phase to its next await.  The
  window of the query is the one built when \<open>queryFilter\<close> was called, from \<open>fromBlock\<close>
  as it was then.
\<close>

record tickInput =
  ti_deps :: deps
  ti_blockNumber :: "string + nat"
  ti_queryFilter :: "nat \<Rightarrow> nat \<Rightarrow> string + int option list"

fun resume :: "tickInput \<Rightarrow> phase \<Rightarrow> worker \<Rightarrow> phase \<times> worker" where
  "resume t AwaitBlockNumber w =
     (case ti_blockNumber t of
        Inl e \<Rightarrow> (Finished, w)
      | Inr toBlock \<Rightarrow>
          (if toBlock \<le> fromBlock w then (Finished, w)
           else (AwaitQueryFilter (fromBlock w + 1) toBlock, w)))"
| "resume t (AwaitQueryFilter lo toBlock) w =
     (case ti_queryFilter t lo toBlock of
        Inl e \<Rightarrow> (Finished, w)
      | Inr evs \<Rightarrow> eventLoop (ti_deps t) toBlock evs w)"
| "resume t (AwaitRequest toBlock evs rid) w = afterRequest (ti_deps t) toBlock evs rid w"
| "resume t (AwaitQido toBlock evs rid providerId patientId) w =
     afterQido (ti_deps t) toBlock evs rid providerId patientId w"
| "resume t (AwaitCopy toBlock evs rid providerId u rest idx success failed) w =
     afterCopy (ti_deps t) toBlock evs rid providerId u rest idx success failed w"
| "resume t (AwaitFulfilled toBlock evs rid providerId manifestHash outcomeStatus outcomeSuccess outcomeFailed) w =
     afterFulfilled (ti_deps t) toBlock evs rid providerId manifestHash outcomeStatus outcomeSuccess
       outcomeFailed w"
| "resume t Finished w = (Finished, w)"

text \<open>
  The process: the state of the worker and the callbacks of the timer that have been
  started, each at its phase.  A step of the process is one turn of the event loop: the
  timer fires and a new callback runs up to its first await (\<open>Fire\<close>); a suspended
  callback goes on to its next await (\<open>Resume\<close>, by its position in the list, in any
  order); or other code of the process runs (\<open>Handler\<close>, the HTTP handlers).  \<open>processed\<close>
  and \<open>fromBlock\<close> are variables of \<open>main\<close> that only the callback of the timer
  refers to, and only that callback calls \<open>copyEvents.start\<close>; so a step of other code
  is any function, of which the copy events, the pending pushes and the uploads are
  taken.  A run is a sequence of steps from the state after start-up.
\<close>

record task =
  tk_input :: tickInput
  tk_phase :: phase

record system =
  sy_worker :: worker
  sy_tasks :: "task list"

datatype action = Fire tickInput | Resume nat | Handler "worker \<Rightarrow> worker"

fun step :: "system \<Rightarrow> action \<Rightarrow> system" where
  "step s (Fire t) = s\<lparr>sy_tasks := sy_tasks s @ [\<lparr>tk_input = t, tk_phase = AwaitBlockNumber\<rparr>]\<rparr>"
| "step s (Resume i) =
     (if i < length (sy_tasks s)
      then (case resume (tk_input (sy_tasks s ! i)) (tk_phase (sy_tasks s ! i)) (sy_worker s) of
              (ph, w) \<Rightarrow> \<lparr>sy_worker = w, sy_tasks = (sy_tasks s)[i := (sy_tasks s ! i)\<lparr>tk_phase := ph\<rparr>]\<rparr>)
      else s)"
| "step s (Handler f) =
     s\<lparr>sy_worker := (sy_worker s)\<lparr>copyEvents := copyEvents (f (sy_worker s)),
                                    pendingPush := pendingPush (f (sy_worker s)),
                                    uploads := uploads (f (sy_worker s))\<rparr>\<rparr>"

definition initialWorker :: "nat \<Rightarrow> worker" where
  "initialWorker startBlock =
     \<lparr>copyEvents = \<lparr>events = Map.empty, order = [], limit = 50\<rparr>,
      pendingPush = Map.empty, processed = {}, fromBlock = startBlock,
      startedLog = [], dispatchLog = [], uploads = []\<rparr>"

definition initialSystem :: "nat \<Rightarrow> system" where
  "initialSystem startBlock = \<lparr>sy_worker = initialWorker startBlock, sy_tasks = []\<rparr>"

definition run :: "action list \<Rightarrow> system \<Rightarrow> system" where
  "run acts s = foldl step s acts"

text \<open>
  The requests that the suspended callbacks have claimed (added to \<open>processed\<close>) and not
  yet started, and the invariant of the process: a request is claimed or started at most
  once, and only when it is in \<open>processed\<close>; a dispatched request was started.
\<close>

fun claimed :: "phase \<Rightarrow> int list" where
  "claimed (AwaitRequest toBlock evs rid) = [rid]"
| "claimed ph = []"

definition claims :: "task list \<Rightarrow> int list" where
  "claims tasks = concat (map (\<lambda>t. claimed (tk_phase t)) tasks)"

definition dispatchInv :: "system \<Rightarrow> bool" where
  "dispatchInv s =
     (distinct (startedLog (sy_worker s) @ claims (sy_tasks s)) \<and>
      set (startedLog (sy_worker s) @ claims (sy_tasks s)) \<subseteq> processed (sy_worker s) \<and>
      distinct (dispatchLog (sy_worker s)) \<and>
      set (dispatchLog (sy_worker s)) \<subseteq> set (startedLog (sy_worker s)))"

subsection \<open>The signer of an envelope\<close>

text \<open>
  The vocabulary of the claims about push envelopes, in terms of the functions above:
  the message \<open>handleProviderPush\<close> rebuilds from the fields it received, the address
  that \<open>verifyMessage\<close> recovers from the signature over that message (\<open>None\<close> when it
  throws), the operator address configured for the provider clinic of the request, which
  is the clinic recorded in the pending entry, and their case-insensitive comparison.
\<close>

definition envelopeMessage :: "deps \<Rightarrow> ProviderPushEnvelope \<Rightarrow> int \<Rightarrow> int \<Rightarrow> string" where
  "envelopeMessage d envelope rid expiresAt =
     buildPushMessage (numberToString d) (trim (pe_clinicId envelope)) rid expiresAt
       (computeInstancesHash (keccak256 d) (localeCompare d) (pe_instances envelope))"

definition recoveredSigner :: "deps \<Rightarrow> ProviderPushEnvelope \<Rightarrow> string option" where
  "recoveredSigner d envelope =
     (case (pe_requestId envelope, pe_expiresAt envelope) of
        (Some rid, Some expiresAt) \<Rightarrow>
          (case verifyMessage d (envelopeMessage d envelope rid expiresAt) (pe_signature envelope) of
             Inr a \<Rightarrow> Some a
           | Inl e \<Rightarrow> None)
      | _ \<Rightarrow> None)"

definition operatorAddress :: "deps \<Rightarrow> PendingPushEntry \<Rightarrow> string option" where
  "operatorAddress d pending = providerSignerAddresses d (pp_providerId pending)"

definition signerIsOperator :: "deps \<Rightarrow> PendingPushEntry \<Rightarrow> ProviderPushEnvelope \<Rightarrow> bool" where
  "signerIsOperator d pending envelope =
     (case (recoveredSigner d envelope, operatorAddress d pending) of
        (Some a, Some op) \<Rightarrow> toLowerCase a = toLowerCase op
      | _ \<Rightarrow> False)"

text \<open>The ledger status read during the check, when the read succeeds.\<close>

definition ledgerStatus :: "deps \<Rightarrow> int \<Rightarrow> int option" where
  "ledgerStatus d rid = (case contract_reqs d rid of Inr r \<Rightarrow> Some (lr_status r) | Inl e \<Rightarrow> None)"

text \<open>
  The uploads that the instance loop of \<open>handleProviderPush\<close> makes for a list of
  instances, first index \<open>idx\<close>: none for an instance without a SOP instance uid, else
  what \<open>pushUpload\<close> does.  An instance is uploadable when it has a uid and a payload that
  decodes to a non-empty buffer.
\<close>

definition pushUploadsOf :: "deps \<Rightarrow> int \<Rightarrow> nat \<Rightarrow> ProviderPushInstance \<Rightarrow> (int \<times> string \<times> nat) list" where
  "pushUploadsOf d rid idx inst = (if pi_sop inst = [] then [] else snd (pushUpload d rid idx inst))"

fun pushUploadsFrom :: "deps \<Rightarrow> int \<Rightarrow> nat \<Rightarrow> ProviderPushInstance list \<Rightarrow> (int \<times> string \<times> nat) list" where
  "pushUploadsFrom d rid idx [] = []"
| "pushUploadsFrom d rid idx (inst # rest) = pushUploadsOf d rid idx inst @ pushUploadsFrom d rid (Suc idx) rest"

definition uploadable :: "deps \<Rightarrow> ProviderPushInstance \<Rightarrow> bool" where
  "uploadable d inst = (pi_sop inst \<noteq> [] \<and> pi_data inst \<noteq> [] \<and> base64Decode d (pi_data inst) \<noteq> [])"




section \<open>The gateway (worker/auth.ts, requireAuth; worker/index.ts, startApiServer)\<close>

subsection \<open>Bearer token authentication\<close>

text \<open>
  \<open>JwtAuth.verifyToken\<close> checks a signature with the key set and reads the claims; it is
  the field \<open>verifyToken\<close> of the model of a \<open>JwtAuth\<close> object and returns the status and
  message of a refusal on the left, the principal on the right.  The principal keeps the
  fields the gateway reads: subject, roles, and the optional \<open>clinic_id\<close> claim.
  \<open>verifyHeader\<close> and \<open>requireAuth\<close> are written out.  The result of \<open>requireAuth\<close> is
  \<open>AuthOk\<close> with the principal (none when authentication is switched off) or \<open>AuthDenied\<close>
  with the status and the text it has already written to the response.
\<close>

record Principal =
  pn_subject :: string
  pn_roles :: "string list"
  pn_clinicId :: "string option"

record JwtAuth =
  verifyToken :: "string \<Rightarrow> (nat \<times> string) + Principal"

datatype AuthResult = AuthOk "Principal option" | AuthDenied nat string

definition verifyHeader :: "string option \<Rightarrow> (nat \<times> string) + string" where
  "verifyHeader authHeader =
     (case authHeader of
        None \<Rightarrow> Inl (401, ''missing Authorization header'')
      | Some h \<Rightarrow>
          (case splitOn CHR '' '' h of
             scheme # token # rest \<Rightarrow>
               (if token = [] \<or> toLowerCase scheme \<noteq> ''bearer''
                then Inl (401, ''invalid Authorization header'')
                else Inr token)
           | _ \<Rightarrow> Inl (401, ''invalid Authorization header'')))"

definition requireAuth :: "JwtAuth option \<Rightarrow> string option \<Rightarrow> string list \<Rightarrow> AuthResult" where
  "requireAuth auth authHeader requiredRoles =
     (case auth of
        None \<Rightarrow> AuthOk None
      | Some a \<Rightarrow>
          (case verifyHeader authHeader of
             Inl (st, msg) \<Rightarrow> AuthDenied st msg
           | Inr token \<Rightarrow>
               (case verifyToken a token of
                  Inl (st, msg) \<Rightarrow> AuthDenied st msg
                | Inr princ \<Rightarrow>
                    (if pn_subject princ = [] then AuthDenied 401 ''JWT subject missing''
                     else if requiredRoles \<noteq> [] \<and>
                             \<not> list_ex (\<lambda>role. role \<in> set (pn_roles princ)) requiredRoles
                     then AuthDenied 403 ''forbidden: insufficient role''
                     else AuthOk (Some princ)))))"

subsection \<open>Requests, responses and the state of the gateway\<close>

text \<open>
  A request is what the handler reads of it: the method, the path and the query
  parameters of the parsed URL, the \<open>Authorization\<close> and \<open>Accept\<close> headers, the client
  address that \<open>getClientIp\<close> finds, and for a \<open>PUT\<close> the body as \<open>readJsonBody\<close> returns it
  (the message of the parse error on the left).  Of a clinic configuration the model keeps
  the clinic id and the base URLs of its two endpoints; a missing field is \<open>None\<close> (or the
  empty id).  CORS and the copied upstream headers are left out of the response.

  The state is the clinic store, the audit log (the entries handed to \<open>audit.log\<close>, oldest
  first) and the trace of the requests sent to the requester's imaging endpoint (URL and
  \<open>Accept\<close> header).
\<close>

record HttpRequest =
  rq_method :: string
  rq_pathname :: string
  rq_search :: "(string \<times> string) list"
  rq_authorization :: "string option"
  rq_accept :: "string option"
  rq_clientIp :: "string option"
  rq_body :: "string + (string \<times> string option \<times> string option)"

datatype ResBody = Text string | JsonError string | JsonConfigs | Upstream string | Unmodelled

record HttpResponse =
  rs_status :: nat
  rs_body :: ResBody

text \<open>
  A finite JavaScript number, as the route uses it for the request id: an integer, or a
  number that is not an integer, kept as the decimal text that \<open>String\<close> gives of it.
\<close>

datatype jsnum = Whole int | NonInteger string

record AuditLogEntry =
  al_timestamp :: string
  al_method :: string
  al_path :: string
  al_forwardPath :: string
  al_requestId :: jsnum
  al_patientAddress :: string
  al_patientId :: string
  al_query :: "(string \<times> string) list option"
  al_status :: nat
  al_upstreamStatus :: "nat option"
  al_error :: "string option"
  al_subject :: "string option"
  al_roles :: "string list option"
  al_clientIp :: "string option"

datatype ClinicRole = Provider | Requester

record ClinicCfg =
  cc_role :: ClinicRole
  cc_operatorAddress :: "string option"

datatype Route =
    ROptions | RHealth | RGetAliases | RCopyEvents | RPutAliases | RAuditLogs | RGetClinics
  | RPutClinic | RDeleteClinic | RDeleteAlias | RDicomWebConfig | RProviderPush | RSecure | RNotFound

record gateway =
  clinicStore :: "string \<rightharpoonup> (string \<times> string option \<times> string option)"
  auditLog :: "AuditLogEntry list"
  forwarded :: "(string \<times> string) list"

text \<open>
  The collaborators of the gateway (\<open>GatewayDeps\<close> and the runtime): whether a requester
  endpoint and an audit logger are configured, the \<open>JwtAuth\<close> object, the configured
  clinics in the order of \<open>Object.entries\<close>, the ledger read \<open>contract.reqs\<close> (on the left
  the message of what it throws, as it does for a number that is no request id),
  \<open>keccak256\<close>, the alias lookup, \<open>Number\<close> on a text that is not a run of decimal digits
  denoting an integer of at most \<open>2 ^ 53\<close> (\<open>None\<close> for a result that is not finite), the
  form-urlencoding of a query component,
  \<open>decodeURIComponent\<close> (\<open>None\<close> when it throws), the clock, the request sent upstream
  (on the left the message and the upstream status of an axios error, on the right status
  and data), and the routes that are not modelled.
\<close>

record gdeps =
  g_requester :: bool
  g_audit :: bool
  g_auth :: "JwtAuth option"
  g_clinics :: "(string \<times> ClinicCfg) list"
  g_reqs :: "jsnum \<Rightarrow> string + LedgerRequest"
  g_keccak256 :: "string \<Rightarrow> string"
  g_aliasLookup :: "string \<Rightarrow> string option"
  g_numberOf :: "string \<Rightarrow> jsnum option"
  g_urlEncode :: "string \<Rightarrow> string"
  g_decodeURIComponent :: "string \<Rightarrow> string option"
  g_now :: string
  g_upstream :: "string \<Rightarrow> bool \<Rightarrow> string \<Rightarrow> (string \<times> nat option) + (nat \<times> string)"
  g_otherRoutes :: "Route \<Rightarrow> HttpRequest \<Rightarrow> gateway \<Rightarrow> HttpResponse \<times> gateway"

definition clinicKey :: "(string \<Rightarrow> string) \<Rightarrow> string \<Rightarrow> string" where
  "clinicKey K clinicId = K clinicId"

text \<open>\<open>audit?.log(entry)\<close>: one entry appended when a logger is configured.\<close>

definition auditWrite :: "gdeps \<Rightarrow> AuditLogEntry \<Rightarrow> gateway \<Rightarrow> gateway" where
  "auditWrite d entry g = (if g_audit d then g\<lparr>auditLog := auditLog g @ [entry]\<rparr> else g)"

subsection \<open>Query parameters\<close>

fun str_includes :: "string \<Rightarrow> string \<Rightarrow> bool" where
  "str_includes [] sub = (sub = [])"
| "str_includes (c # cs) sub = (startsWith (c # cs) sub \<or> str_includes cs sub)"

text \<open>\<open>searchParams.get(key)\<close>: the first value of the key.\<close>

definition searchGet :: "(string \<times> string) list \<Rightarrow> string \<Rightarrow> string option" where
  "searchGet params key = map_of params key"

fun assign :: "string \<Rightarrow> string \<Rightarrow> (string \<times> string) list \<Rightarrow> (string \<times> string) list" where
  "assign k v [] = [(k, v)]"
| "assign k v ((k', v') # rest) = (if k' = k then (k, v) # rest else (k', v') # assign k v rest)"

definition isSecretKey :: "string \<Rightarrow> bool" where
  "isSecretKey key =
     (str_includes (toLowerCase key) ''pass'' \<or> str_includes (toLowerCase key) ''token'' \<or>
      str_includes (toLowerCase key) ''secret'')"

definition sanitiseParams :: "(string \<times> string) list \<Rightarrow> string list \<Rightarrow> (string \<times> string) list option" where
  "sanitiseParams params exclude =
     (let entries = filter (\<lambda>(key, v). key \<notin> set exclude) params
      in if entries = [] then None
         else Some (foldl (\<lambda>out (key, v). assign key (if isSecretKey key then ''***'' else v) out) [] entries))"

definition searchToString :: "gdeps \<Rightarrow> (string \<times> string) list \<Rightarrow> string" where
  "searchToString d params = joinWith ''&'' (map (\<lambda>(k, v). g_urlEncode d k @ ''='' @ g_urlEncode d v) params)"

text \<open>
  \<open>Number(text)\<close> is an IEEE double.  A run of decimal digits that denotes an integer of
  at most \<open>2 ^ 53\<close> converts exactly (leading zeros are allowed).  For every other text
  the result is the runtime's, \<open>g_numberOf\<close>: a longer run of digits rounds to a
  neighbouring double or to \<open>Infinity\<close>, and signs, fractions, exponents, hexadecimal
  notation and white space have their own rules.  \<open>None\<close> is a result that
  \<open>Number.isFinite\<close> refuses (\<open>NaN\<close>, \<open>Infinity\<close>).
\<close>

definition digitValue :: "char \<Rightarrow> nat" where
  "digitValue c = (case map_of (zip ''0123456789'' [0, 1, 2, 3, 4, 5, 6, 7, 8, 9]) c of Some n \<Rightarrow> n | None \<Rightarrow> 0)"

definition decimalValue :: "string \<Rightarrow> nat" where
  "decimalValue s = foldl (\<lambda>n c. 10 * n + digitValue c) 0 s"

definition jsNumber :: "gdeps \<Rightarrow> string \<Rightarrow> jsnum option" where
  "jsNumber d s =
     (if s \<noteq> [] \<and> list_all isDigit s \<and> decimalValue s \<le> 2 ^ 53
      then Some (Whole (int (decimalValue s))) else g_numberOf d s)"

subsection \<open>The on-chain access check\<close>

text \<open>
  \<open>resolveAccessRequest\<close> reads the request from the ledger (the read may throw, which
  reaches the \<open>catch\<close> of the handler) and denies with a status and a message, or grants
  with the patient address and the patient id.
\<close>

datatype AccessCtx = Denied nat string | Granted LedgerRequest string string

definition managedRequester :: "gdeps \<Rightarrow> string \<Rightarrow> bool" where
  "managedRequester d requesterKey =
     list_ex (\<lambda>(clinicId, info). cc_role info = Requester \<and>
                toLowerCase (clinicKey (g_keccak256 d) clinicId) = requesterKey) (g_clinics d)"

definition resolveAccessRequest :: "gdeps \<Rightarrow> jsnum \<Rightarrow> string + AccessCtx" where
  "resolveAccessRequest d requestId =
     (case g_reqs d requestId of
        Inl e \<Rightarrow> Inl e
      | Inr reqData \<Rightarrow>
          Inr (if lr_id reqData = 0 then Denied 404 ''request not found''
               else if lr_status reqData < 1 then Denied 403 ''request is not approved''
               else if \<not> managedRequester d (toLowerCase (lr_requesterClinicKey reqData))
               then Denied 403 ''requester clinic is not managed by this worker''
               else Granted reqData (lr_patient reqData)
                      (case g_aliasLookup d (lr_patient reqData) of
                         None \<Rightarrow> lr_patient reqData
                       | Some p \<Rightarrow> p)))"

subsection \<open>The routes\<close>

definition matchRoute :: "bool \<Rightarrow> HttpRequest \<Rightarrow> Route" where
  "matchRoute requester req =
     (let m = rq_method req; p = rq_pathname req in
      if m = ''OPTIONS'' then ROptions
      else if m = ''GET'' \<and> p = ''/health'' then RHealth
      else if m = ''GET'' \<and> p = ''/aliases'' then RGetAliases
      else if m = ''GET'' \<and> p = ''/copy-events'' then RCopyEvents
      else if m = ''PUT'' \<and> p = ''/aliases'' then RPutAliases
      else if m = ''GET'' \<and> p = ''/audit-logs'' then RAuditLogs
      else if m = ''GET'' \<and> p = ''/clinics/config'' then RGetClinics
      else if m = ''PUT'' \<and> p = ''/clinics/config'' then RPutClinic
      else if m = ''DELETE'' \<and> startsWith p ''/clinics/config/'' then RDeleteClinic
      else if m = ''DELETE'' \<and> startsWith p ''/aliases/'' then RDeleteAlias
      else if m = ''GET'' \<and> startsWith p ''/dicom-web-config'' then RDicomWebConfig
      else if m = ''POST'' \<and> p = ''/provider-push'' then RProviderPush
      else if requester \<and> m = ''GET'' \<and> startsWith p ''/secure/'' then RSecure
      else RNotFound)"

definition respond :: "nat \<Rightarrow> ResBody \<Rightarrow> HttpResponse" where
  "respond st b = \<lparr>rs_status = st, rs_body = b\<rparr>"

definition isAdmin :: "Principal option \<Rightarrow> bool" where
  "isAdmin princ = (case princ of None \<Rightarrow> False | Some p \<Rightarrow> ''worker.admin'' \<in> set (pn_roles p))"

definition principalClinic :: "Principal option \<Rightarrow> string option" where
  "principalClinic princ = (case princ of None \<Rightarrow> None | Some p \<Rightarrow> pn_clinicId p)"

text \<open>
  \<open>PUT /clinics/config\<close> and \<open>DELETE /clinics/config/{id}\<close>.  A route returns the
  response and the new state, or on the left the message of an exception that the
  \<open>catch\<close> of the handler turns into a 400.
\<close>

definition putClinicConfig :: "gdeps \<Rightarrow> HttpRequest \<Rightarrow> gateway \<Rightarrow> string + HttpResponse \<times> gateway" where
  "putClinicConfig d req g =
     (case requireAuth (g_auth d) (rq_authorization req) [''worker.admin''] of
        AuthDenied st msg \<Rightarrow> Inr (respond st (Text msg), g)
      | AuthOk princ \<Rightarrow>
          (case rq_body req of
             Inl e \<Rightarrow> Inl (''invalid JSON: '' @ e)
           | Inr (clinicId, qido, wado) \<Rightarrow>
               (if clinicId = [] \<or> qido = None \<or> wado = None
                then Inr (respond 400 (JsonError ''missing required fields (clinicId, qido, wado)''), g)
                else if \<not> isAdmin princ \<and> principalClinic princ \<noteq> Some clinicId
                then Inr (respond 403 (JsonError ''forbidden: you can only edit your own clinic''), g)
                else Inr (respond 200 JsonConfigs,
                          g\<lparr>clinicStore := (clinicStore g)(clinicId \<mapsto> (clinicId, qido, wado))\<rparr>))))"

definition deleteClinicConfig :: "gdeps \<Rightarrow> HttpRequest \<Rightarrow> gateway \<Rightarrow> string + HttpResponse \<times> gateway" where
  "deleteClinicConfig d req g =
     (case requireAuth (g_auth d) (rq_authorization req) [''worker.admin''] of
        AuthDenied st msg \<Rightarrow> Inr (respond st (Text msg), g)
      | AuthOk princ \<Rightarrow>
          (case g_decodeURIComponent d (drop (length ''/clinics/config/'') (rq_pathname req)) of
             None \<Rightarrow> Inl ''URI malformed''
           | Some target \<Rightarrow>
               (if \<not> isAdmin princ \<and> principalClinic princ \<noteq> Some target
                then Inr (respond 403 (JsonError ''forbidden: you can only delete your own clinic''), g)
                else Inr (respond 200 JsonConfigs, g\<lparr>clinicStore := (clinicStore g)(target := None)\<rparr>))))"

text \<open>
  \<open>GET /secure/...\<close>.  \<open>pathMatch\<close> is the regular expression \<open>^\/(\d+)(\/.*)?$\<close> applied
  to the path without \<open>/secure\<close>: the digits, and the rest when there is one (\<open>.\<close> matches
  no line terminator).
\<close>

definition pathMatch :: "string \<Rightarrow> (string \<times> string option) option" where
  "pathMatch s =
     (case s of
        [] \<Rightarrow> None
      | c # after \<Rightarrow>
          (if c \<noteq> CHR ''/'' then None
           else (let digits = takeWhile isDigit after; rest = dropWhile isDigit after in
                 if digits = [] then None
                 else (case rest of
                         [] \<Rightarrow> Some (digits, None)
                       | r # rs \<Rightarrow>
                           (if r = CHR ''/'' \<and> \<not> list_ex (\<lambda>x. x = CHR 0x0A \<or> x = CHR 0x0D) rs
                            then Some (digits, Some rest) else None)))))"

definition wantsBinaryFor :: "string option \<Rightarrow> string \<Rightarrow> bool" where
  "wantsBinaryFor accept forwardPath =
     (case accept of
        None \<Rightarrow> str_includes forwardPath ''/instances/''
      | Some a \<Rightarrow>
          (if a = [] then str_includes forwardPath ''/instances/''
           else str_includes (toLowerCase a) ''application/dicom'' \<or> str_includes (toLowerCase a) ''image/''))"

text \<open>
  The constants of the route, as functions of what they are computed from: the entry
  logged for a denial, \<open>forwardPath\<close>, \<open>forwardUrl\<close>, \<open>auditCommon\<close> (its status is set
  when it is logged) and the \<open>Accept\<close> header sent upstream.
\<close>

definition deniedEntry :: "gdeps \<Rightarrow> HttpRequest \<Rightarrow> Principal option \<Rightarrow> jsnum \<Rightarrow> nat \<Rightarrow> string \<Rightarrow> AuditLogEntry" where
  "deniedEntry d req princ requestId st message =
     \<lparr>al_timestamp = g_now d, al_method = rq_method req,
      al_path = rq_pathname req, al_forwardPath = rq_pathname req,
      al_requestId = requestId, al_patientAddress = [], al_patientId = [],
      al_query = sanitiseParams (rq_search req) [''requestId''],
      al_status = st, al_upstreamStatus = None, al_error = Some message,
      al_subject = map_option pn_subject princ,
      al_roles = map_option pn_roles princ,
      al_clientIp = rq_clientIp req\<rparr>"

definition forwardPathOf :: "string \<Rightarrow> string" where
  "forwardPathOf forwardPathRaw =
     (if forwardPathRaw = [] \<or> forwardPathRaw = ''/'' then ''/''
      else if \<not> startsWith forwardPathRaw ''/'' then ''/'' @ forwardPathRaw
      else forwardPathRaw)"

definition forwardUrlOf :: "gdeps \<Rightarrow> HttpRequest \<Rightarrow> string \<Rightarrow> string" where
  "forwardUrlOf d req forwardPath =
     (let search = filter (\<lambda>(k, v). k \<noteq> ''requestId'') (rq_search req);
          qs = searchToString d search
      in forwardPath @ (if qs \<noteq> [] then ''?'' @ qs else []))"

definition auditCommon ::
  "gdeps \<Rightarrow> HttpRequest \<Rightarrow> Principal option \<Rightarrow> jsnum \<Rightarrow> string \<Rightarrow> string \<Rightarrow> string \<Rightarrow> AuditLogEntry" where
  "auditCommon d req princ requestId patientAddress patientId forwardPath =
     \<lparr>al_timestamp = g_now d, al_method = rq_method req,
      al_path = rq_pathname req, al_forwardPath = forwardPath,
      al_requestId = requestId, al_patientAddress = patientAddress,
      al_patientId = patientId, al_query = sanitiseParams (rq_search req) [''requestId''],
      al_status = 0, al_upstreamStatus = None, al_error = None,
      al_subject = map_option pn_subject princ,
      al_roles = map_option pn_roles princ,
      al_clientIp = rq_clientIp req\<rparr>"

definition acceptHeaderOf :: "HttpRequest \<Rightarrow> string \<Rightarrow> string" where
  "acceptHeaderOf req forwardPath =
     (case rq_accept req of
        Some a \<Rightarrow> a
      | None \<Rightarrow> if wantsBinaryFor (rq_accept req) forwardPath then ''application/dicom'' else ''application/json'')"

text \<open>The part of the route after the access check has granted: the upstream request and its \<open>try\<close>/\<open>catch\<close>.\<close>

definition proxyForward ::
  "gdeps \<Rightarrow> HttpRequest \<Rightarrow> Principal option \<Rightarrow> jsnum \<Rightarrow> string \<Rightarrow> string \<Rightarrow> string \<Rightarrow> gateway
     \<Rightarrow> HttpResponse \<times> gateway" where
  "proxyForward d req princ requestId patientAddress patientId forwardPathRaw g =
     (let forwardPath = forwardPathOf forwardPathRaw;
          forwardUrl = forwardUrlOf d req forwardPath;
          common = auditCommon d req princ requestId patientAddress patientId forwardPath;
          wantsBinary = wantsBinaryFor (rq_accept req) forwardPath;
          acceptHeader = acceptHeaderOf req forwardPath;
          g1 = g\<lparr>forwarded := forwarded g @ [(forwardUrl, acceptHeader)]\<rparr>
      in case g_upstream d forwardUrl wantsBinary acceptHeader of
           Inr (st, payload) \<Rightarrow>
             (respond st (Upstream payload),
              auditWrite d (common\<lparr>al_status := st, al_upstreamStatus := Some st\<rparr>) g1)
         | Inl (message, upstreamStatus) \<Rightarrow>
             (respond 502 (Text (''upstream error: '' @ message)),
              auditWrite d (common\<lparr>al_status := 502, al_upstreamStatus := upstreamStatus,
                                   al_error := Some message\<rparr>) g1))"

text \<open>
  The request id text and the raw forward path: the \<open>requestId\<close> query parameter has
  precedence; without one (or with an empty one) the path segment is used when the path
  matches, and the rest of the path is what is forwarded.
\<close>

definition requestIdParamOf :: "HttpRequest \<Rightarrow> string option \<times> string" where
  "requestIdParamOf req =
     (let fromQuery = searchGet (rq_search req) ''requestId'';
          raw = drop (length ''/secure'') (rq_pathname req)
      in if fromQuery = None \<or> fromQuery = Some []
         then (case pathMatch raw of
                 Some (digits, Some rest) \<Rightarrow> (Some digits, rest)
               | Some (digits, None) \<Rightarrow> (Some digits, ''/'')
               | None \<Rightarrow> (fromQuery, raw))
         else (fromQuery, raw))"

definition secureProxy :: "gdeps \<Rightarrow> HttpRequest \<Rightarrow> gateway \<Rightarrow> string + HttpResponse \<times> gateway" where
  "secureProxy d req g =
     (case requireAuth (g_auth d) (rq_authorization req) [''requester.viewer''] of
        AuthDenied st msg \<Rightarrow> Inr (respond st (Text msg), g)
      | AuthOk princ \<Rightarrow>
          (case requestIdParamOf req of
             (None, forwardPathRaw) \<Rightarrow> Inr (respond 400 (Text ''requestId is required''), g)
           | (Some idText, forwardPathRaw) \<Rightarrow>
               (if idText = [] then Inr (respond 400 (Text ''requestId is required''), g)
                else (case jsNumber d idText of
                        None \<Rightarrow> Inr (respond 400 (Text ''requestId must be numeric''), g)
                      | Some requestId \<Rightarrow>
                          (case resolveAccessRequest d requestId of
                             Inl e \<Rightarrow> Inl e
                           | Inr (Denied st message) \<Rightarrow>
                               Inr (respond st (Text message),
                                    auditWrite d (deniedEntry d req princ requestId st message) g)
                           | Inr (Granted reqData patientAddress patientId) \<Rightarrow>
                               Inr (proxyForward d req princ requestId patientAddress patientId
                                      forwardPathRaw g))))))"

text \<open>The handler: the routes in the order of the source, and the \<open>catch\<close> around them.\<close>

definition handler :: "gdeps \<Rightarrow> HttpRequest \<Rightarrow> gateway \<Rightarrow> HttpResponse \<times> gateway" where
  "handler d req g =
     (case (case matchRoute (g_requester d) req of
              ROptions \<Rightarrow> Inr (respond 204 (Text []), g)
            | RHealth \<Rightarrow> Inr (respond 200 (Text ''OK''), g)
            | RPutClinic \<Rightarrow> putClinicConfig d req g
            | RDeleteClinic \<Rightarrow> deleteClinicConfig d req g
            | RSecure \<Rightarrow> secureProxy d req g
            | RNotFound \<Rightarrow> Inr (respond 404 (Text ''Not Found''), g)
            | other \<Rightarrow> Inr (g_otherRoutes d other req g)) of
        Inr result \<Rightarrow> result
      | Inl message \<Rightarrow> (respond 400 (Text message), g))"

section \<open>The audit logger (class AuditLogger)\<close>

text \<open>
  A JSON value is a value of the datatype \<open>json\<close>; an object is the list of its properties
  in the order in which \<open>JSON.stringify\<close> visits them, a property whose value is
  \<open>undefined\<close> left out, as \<open>JSON.stringify\<close> leaves it out.  \<open>JSON.stringify\<close> without
  indentation is the function \<open>stringify\<close>: an integer of absolute value below \<open>10 ^ 21\<close>
  is written in decimal notation, and the text of any other number is the runtime's
  (\<open>rt_numberText\<close>, the first argument of \<open>stringify\<close>).

  \<open>JSON.parse\<close>, the AES-256-GCM cipher of \<open>node:crypto\<close> and the hex coding of \<open>Buffer\<close>
  belong to the runtime and are fields of the record \<open>runtime\<close>: \<open>rt_parse\<close> is \<open>None\<close> when
  \<open>JSON.parse\<close> throws; \<open>rt_encrypt key iv plaintext\<close> is the pair of the hex ciphertext
  (\<open>cipher.update(..., "utf8", "hex") + cipher.final("hex")\<close>) and the hex authentication
  tag; \<open>rt_toHex\<close> is \<open>toString("hex")\<close> of a buffer and \<open>rt_fromHex\<close> is
  \<open>Buffer.from(value, "hex")\<close> of a parsed value, \<open>None\<close> when it throws;
  \<open>rt_decrypt key iv tag data\<close> is the plaintext that the decipher returns for the parsed
  value \<open>data\<close>, or \<open>None\<close> when it throws.  The nonce drawn by \<open>randomBytes(16)\<close> is an
  argument of \<open>log\<close>.
\<close>

datatype json = JNull | JBool bool | JNum jsnum | JStr string | JArr "json list" | JObj "(string \<times> json) list"

record runtime =
  rt_numberText :: "jsnum \<Rightarrow> string"
  rt_parse :: "string \<Rightarrow> json option"
  rt_encrypt :: "string \<Rightarrow> string \<Rightarrow> string \<Rightarrow> string \<times> string"
  rt_decrypt :: "string \<Rightarrow> string \<Rightarrow> string \<Rightarrow> json \<Rightarrow> string option"
  rt_toHex :: "string \<Rightarrow> string"
  rt_fromHex :: "json \<Rightarrow> string option"

definition numberText :: "(jsnum \<Rightarrow> string) \<Rightarrow> jsnum \<Rightarrow> string" where
  "numberText other n =
     (case n of
        Whole i \<Rightarrow> (if \<bar>i\<bar> < 10 ^ 21 then showInt i else other n)
      | NonInteger s \<Rightarrow> other n)"

fun stringify :: "(jsnum \<Rightarrow> string) \<Rightarrow> json \<Rightarrow> string" where
  "stringify other JNull = ''null''"
| "stringify other (JBool b) = (if b then ''true'' else ''false'')"
| "stringify other (JNum n) = numberText other n"
| "stringify other (JStr s) = jsonString s"
| "stringify other (JArr xs) = ''['' @ joinWith '','' (map (stringify other) xs) @ '']''"
| "stringify other (JObj kvs) =
     ''{'' @ joinWith '','' (map (\<lambda>kv. jsonString (fst kv) @ '':'' @ stringify other (snd kv)) kvs) @ ''}''"

text \<open>
  The disk is the log file (\<open>None\<close> when it does not exist) and its numbered backups.  A
  call of \<open>node:fs\<close> can fail for a reason other than a missing file; whether it does is
  a field of \<open>diskFaults\<close> (\<open>df_rename 0\<close> is the rename of the log file itself, \<open>df_rename i\<close>
  that of backup \<open>i\<close>).  A failed \<open>appendFile\<close> is taken to have written nothing.
\<close>

record auditFiles =
  af_main :: "string option"
  af_backups :: "nat \<rightharpoonup> string"

record diskFaults =
  df_stat :: bool
  df_unlink :: bool
  df_rename :: "nat \<Rightarrow> bool"
  df_append :: bool
  df_read :: bool

text \<open>The envelope \<open>{ v: 1, iv, tag, data }\<close> of an encrypted line, and the line that \<open>log\<close> writes.\<close>

definition envelopeJson :: "runtime \<Rightarrow> string \<Rightarrow> string \<Rightarrow> string \<Rightarrow> json" where
  "envelopeJson rt iv authTag encrypted =
     JObj [(''v'', JNum (Whole 1)), (''iv'', JStr (rt_toHex rt iv)), (''tag'', JStr authTag),
           (''data'', JStr encrypted)]"

definition auditLine :: "runtime \<Rightarrow> string option \<Rightarrow> string \<Rightarrow> json \<Rightarrow> string" where
  "auditLine rt encryptionKey iv entry =
     (let serialised = stringify (rt_numberText rt) entry in
      case encryptionKey of
        None \<Rightarrow> serialised
      | Some key \<Rightarrow>
          (case rt_encrypt rt key iv serialised of
             (encrypted, authTag) \<Rightarrow> stringify (rt_numberText rt) (envelopeJson rt iv authTag encrypted)))"

text \<open>
  \<open>rotateIfNeeded\<close>: a log file above 10 MB becomes backup 1 after backup 5 is dropped and
  the backups 4 to 1 are moved up; a failure of \<open>unlink\<close> or of the rename of a backup
  (there may be no such backup) is ignored.  A failure of \<open>stat\<close>, or of the rename of the
  log file, ends the rotation; it is logged unless the file is missing.
\<close>

definition renameBackup :: "diskFaults \<Rightarrow> nat \<Rightarrow> (nat \<rightharpoonup> string) \<Rightarrow> (nat \<rightharpoonup> string)" where
  "renameBackup io i b =
     (if df_rename io i then b
      else (case b i of None \<Rightarrow> b | Some c \<Rightarrow> b(i := None, Suc i \<mapsto> c)))"

definition rotateIfNeeded :: "diskFaults \<Rightarrow> auditFiles \<Rightarrow> auditFiles" where
  "rotateIfNeeded io fs =
     (if df_stat io then fs
      else (case af_main fs of
        None \<Rightarrow> fs
      | Some content \<Rightarrow>
          (if length content > 10 * 1024 * 1024
           then (let b0 = (if df_unlink io then af_backups fs else (af_backups fs)(5 := None));
                     b1 = foldl (\<lambda>b i. renameBackup io i b) b0 [4, 3, 2, 1]
                 in if df_rename io 0 then fs\<lparr>af_backups := b1\<rparr>
                    else \<lparr>af_main = None, af_backups = b1(1 \<mapsto> content)\<rparr>)
           else fs)))"

definition appendFile :: "diskFaults \<Rightarrow> string \<Rightarrow> auditFiles \<Rightarrow> auditFiles" where
  "appendFile io text fs =
     (if df_append io then fs
      else fs\<lparr>af_main := Some ((case af_main fs of None \<Rightarrow> [] | Some c \<Rightarrow> c) @ text)\<rparr>)"

text \<open>
  \<open>log(entry)\<close>, for the object \<open>entry\<close> it is called with: the line and a line feed are
  appended after the rotation; a write that fails is reported on the console and the
  entry is lost.
\<close>

definition audit_log :: "runtime \<Rightarrow> diskFaults \<Rightarrow> string option \<Rightarrow> string \<Rightarrow> json \<Rightarrow> auditFiles \<Rightarrow> auditFiles" where
  "audit_log rt io encryptionKey iv entry fs =
     appendFile io (auditLine rt encryptionKey iv entry @ [CHR 0x0A]) (rotateIfNeeded io fs)"

text \<open>
  \<open>read(limit)\<close>: the lines that are not blank, newest first, at most \<open>limit\<close> of them,
  each parsed and, when it is an envelope and a key is configured, decrypted and parsed
  again; a line on which any of this throws, or that parses to \<open>null\<close>, is dropped.  A
  missing file reads as no entry; any other failure of \<open>readFile\<close> is thrown.
\<close>

definition jget :: "json \<Rightarrow> string \<Rightarrow> json option" where
  "jget j name = (case j of JObj props \<Rightarrow> map_of props name | _ \<Rightarrow> None)"

definition truthy :: "json option \<Rightarrow> bool" where
  "truthy v =
     (case v of
        None \<Rightarrow> False
      | Some JNull \<Rightarrow> False
      | Some (JBool b) \<Rightarrow> b
      | Some (JNum n) \<Rightarrow> n \<noteq> Whole 0
      | Some (JStr s) \<Rightarrow> s \<noteq> []
      | Some _ \<Rightarrow> True)"

definition notNull :: "json option \<Rightarrow> json option" where
  "notNull r = (case r of Some JNull \<Rightarrow> None | _ \<Rightarrow> r)"

definition decodeLine :: "runtime \<Rightarrow> string option \<Rightarrow> string \<Rightarrow> json option" where
  "decodeLine rt encryptionKey line =
     (case rt_parse rt line of
        None \<Rightarrow> None
      | Some JNull \<Rightarrow> None
      | Some parsed \<Rightarrow>
          (if jget parsed ''v'' = Some (JNum (Whole 1)) \<and> truthy (jget parsed ''iv'') \<and>
              truthy (jget parsed ''tag'') \<and> truthy (jget parsed ''data'') \<and> encryptionKey \<noteq> None
           then (case (encryptionKey, jget parsed ''iv'', jget parsed ''tag'', jget parsed ''data'') of
                   (Some key, Some ivHex, Some tagHex, Some encrypted) \<Rightarrow>
                     (case (rt_fromHex rt ivHex, rt_fromHex rt tagHex) of
                        (Some iv, Some authTag) \<Rightarrow>
                          (case rt_decrypt rt key iv authTag encrypted of
                             None \<Rightarrow> None
                           | Some decrypted \<Rightarrow> notNull (rt_parse rt decrypted))
                      | _ \<Rightarrow> None)
                 | _ \<Rightarrow> None)
           else Some parsed))"

definition audit_read :: "runtime \<Rightarrow> diskFaults \<Rightarrow> string option \<Rightarrow> nat \<Rightarrow> auditFiles \<Rightarrow> string + json list" where
  "audit_read rt io encryptionKey lim fs =
     (if df_read io then Inl ''read failed''
      else (case af_main fs of
        None \<Rightarrow> Inr []
      | Some content \<Rightarrow>
          Inr (List.map_filter (decodeLine rt encryptionKey)
                 (take lim (rev (filter (\<lambda>line. trim line \<noteq> []) (splitOn CHR 0x0A content)))))))"

text \<open>
  A log file is well formed when it is missing, empty, or ends with a line feed, as it
  does after every write of \<open>log\<close>.
\<close>

definition wellFormedLog :: "auditFiles \<Rightarrow> bool" where
  "wellFormedLog fs =
     (case af_main fs of None \<Rightarrow> True | Some content \<Rightarrow> content = [] \<or> last content = CHR 0x0A)"

section \<open>An audit log for the examples\<close>

text \<open>
  A disk without faults and one whose \<open>appendFile\<close> fails; a denial as the gateway logs
  it, and its envelope under the key \<open>k3y\<close> and the nonce \<open>0001\<close>; and a runtime whose
  cipher is a stand-in (the ciphertext is the plaintext behind the key, the tag is fixed,
  hex coding is the identity) and whose \<open>JSON.parse\<close> knows the lines of the examples.
\<close>

definition healthyDisk :: diskFaults where
  "healthyDisk = \<lparr>df_stat = False, df_unlink = False, df_rename = (\<lambda>i. False), df_append = False,
                  df_read = False\<rparr>"

definition fullDisk :: diskFaults where
  "fullDisk = healthyDisk\<lparr>df_append := True\<rparr>"

definition sampleEntry :: json where
  "sampleEntry =
     JObj [(''timestamp'', JStr ''2025-01-01T00:00:00.000Z''), (''method'', JStr ''GET''),
           (''path'', JStr ''/secure/5/studies''), (''requestId'', JNum (Whole 5)),
           (''status'', JNum (Whole 403)), (''error'', JStr ''request is not approved'')]"

definition toyNumberText :: "jsnum \<Rightarrow> string" where
  "toyNumberText n = ''1e+21''"

definition toyEncrypt :: "string \<Rightarrow> string \<Rightarrow> string \<Rightarrow> string \<times> string" where
  "toyEncrypt key iv plaintext = (key @ plaintext, ''c0ffee'')"

definition toyDecrypt :: "string \<Rightarrow> string \<Rightarrow> string \<Rightarrow> json \<Rightarrow> string option" where
  "toyDecrypt key iv tag data =
     (case data of
        JStr text \<Rightarrow>
          (if tag = ''c0ffee'' \<and> take (length key) text = key then Some (drop (length key) text) else None)
      | _ \<Rightarrow> None)"

definition toyFromHex :: "json \<Rightarrow> string option" where
  "toyFromHex v = (case v of JStr text \<Rightarrow> Some text | _ \<Rightarrow> None)"

definition sealedEntry :: json where
  "sealedEntry =
     JObj [(''v'', JNum (Whole 1)), (''iv'', JStr ''0001''), (''tag'', JStr ''c0ffee''),
           (''data'', JStr (''k3y'' @ stringify toyNumberText sampleEntry))]"

definition toyParse :: "string \<Rightarrow> json option" where
  "toyParse s =
     (if s = stringify toyNumberText sampleEntry then Some sampleEntry
      else if s = stringify toyNumberText sealedEntry then Some sealedEntry
      else None)"

definition sampleRuntime :: runtime where
  "sampleRuntime =
     \<lparr>rt_numberText = toyNumberText, rt_parse = toyParse, rt_encrypt = toyEncrypt,
      rt_decrypt = toyDecrypt, rt_toHex = (\<lambda>s. s), rt_fromHex = toyFromHex\<rparr>"

definition emptyDisk :: auditFiles where
  "emptyDisk = \<lparr>af_main = None, af_backups = Map.empty\<rparr>"

definition tornDisk :: auditFiles where
  "tornDisk = \<lparr>af_main = Some ''{\"timestamp\":'', af_backups = Map.empty\<rparr>"

section \<open>A concrete deployment for the examples\<close>

text \<open>
  One provider clinic \<open>PROV-001\<close> with operator address \<open>0xAbC1\<close>, one requester clinic,
  push mode.  The hash is the identity and signatures are stand-ins: the signature of the
  operator over a message is \<open>0xabc1:\<close> followed by the message, the signature
  \<open>garbage\<close> makes \<open>verifyMessage\<close> throw, and any other recovers \<open>0xdead\<close>.
\<close>

definition toySign :: "string \<Rightarrow> string \<Rightarrow> string" where
  "toySign addr msg = addr @ '':'' @ msg"

definition sampleDeps :: deps where
  "sampleDeps =
     \<lparr>keccak256 = (\<lambda>s. s),
      localeCompare = (\<lambda>a b. if a = b then 0 else if a < b then - 1 else 1),
      numberToString = (\<lambda>n. ''1e+21''),
      cfg_copyMode = ProviderPush,
      cfg_maxRetries = None,
      cfg_backoffMs = None,
      providerSignerAddresses = [''PROV-001'' \<mapsto> ''0xAbC1''],
      requesterOrthanc = True,
      verifyMessage = (\<lambda>msg sig. if sig = toySign ''0xabc1'' msg then Inr ''0xabc1''
                                 else if sig = ''garbage'' then Inl ''invalid signature''
                                 else Inr ''0xdead''),
      nowSec = 1000,
      nowIso = ''2025-01-01T00:00:00.000Z'',
      contract_reqs = (\<lambda>rid. Inr \<lparr>lr_id = rid, lr_patient = ''0xpatient'',
                                     lr_providerClinicKey = ''PROV-001'',
                                     lr_requesterClinicKey = ''REQ-001'', lr_status = 1\<rparr>),
      base64Decode = (\<lambda>s. s),
      uploadToOrthanc = (\<lambda>rid idx n. Inr ()),
      requestMarkFulfilled = (\<lambda>providerId rid manifestHash. Inr ()),
      getRequestAndProviderId = (\<lambda>rid. Inr (''0xpatient'', Some ''PROV-001'')),
      aliasLookup = (\<lambda>a. None),
      providerCfg = (\<lambda>p. True),
      qidoFindInstances = (\<lambda>p q. Inr []),
      wadoFetchInstance = (\<lambda>rid idx n. Inr ''bin''),
      restFetchInstance = (\<lambda>rid idx n. Inr ''bin'')\<rparr>"

definition sampleTick :: "nat \<Rightarrow> int option list \<Rightarrow> tickInput" where
  "sampleTick head evs =
     \<lparr>ti_deps = sampleDeps, ti_blockNumber = Inr head, ti_queryFilter = (\<lambda>lo hi. Inr evs)\<rparr>"

text \<open>
  Request 7 approved and parked for \<open>PROV-001\<close>: the state of the worker when one
  polling tick has met the event and run to its end.  An envelope with one instance,
  unsigned, signed by the operator, and with a forged signature; the signed envelope with
  its payload changed after signing.
\<close>

definition sampleWorker :: worker where
  "sampleWorker =
     sy_worker (run [Fire (sampleTick 10 [Some 7]), Resume 0, Resume 0, Resume 0] (initialSystem 0))"

definition sampleUnsigned :: ProviderPushEnvelope where
  "sampleUnsigned =
     \<lparr>pe_clinicId = ''PROV-001'', pe_requestId = Some 7, pe_expiresAt = Some 2000,
      pe_instances = [\<lparr>pi_sop = ''1.2.3'', pi_study = Some ''1.2'', pi_series = None, pi_data = ''QUJD''\<rparr>],
      pe_signature = []\<rparr>"

definition sampleEnvelope :: ProviderPushEnvelope where
  "sampleEnvelope =
     sampleUnsigned\<lparr>pe_signature := toySign ''0xabc1'' (envelopeMessage sampleDeps sampleUnsigned 7 2000)\<rparr>"

definition forgedEnvelope :: ProviderPushEnvelope where
  "forgedEnvelope = sampleUnsigned\<lparr>pe_signature := ''forged''\<rparr>"

definition alteredEnvelope :: ProviderPushEnvelope where
  "alteredEnvelope =
     sampleEnvelope\<lparr>pe_instances :=
       [\<lparr>pi_sop = ''1.2.3'', pi_study = Some ''1.2'', pi_series = None, pi_data = ''WFla''\<rparr>]\<rparr>"

text \<open>The same deployment with the request already fulfilled on the ledger, and with a signer that fails.\<close>

definition fulfilledDeps :: deps where
  "fulfilledDeps =
     sampleDeps\<lparr>contract_reqs := (\<lambda>rid. Inr \<lparr>lr_id = rid, lr_patient = ''0xpatient'',
                                     lr_providerClinicKey = ''PROV-001'',
                                     lr_requesterClinicKey = ''REQ-001'', lr_status = 2\<rparr>)\<rparr>"

definition failingSignerDeps :: deps where
  "failingSignerDeps =
     sampleDeps\<lparr>requestMarkFulfilled := (\<lambda>providerId rid manifestHash. Inl ''signer unavailable'')\<rparr>"

definition samplePending :: PendingPushEntry where
  "samplePending = \<lparr>pp_requestId = 7, pp_providerId = ''PROV-001'',
                    pp_patientAddress = ''0xpatient'', pp_patientId = ''0xpatient''\<rparr>"



section \<open>A concrete gateway for the examples\<close>

text \<open>
  Two tokens: \<open>viewer-token\<close> belongs to \<open>alice\<close> of clinic \<open>CLINIC-A\<close> with the role
  \<open>requester.viewer\<close>, \<open>admin-token\<close> to an administrator.  The gateway operates for the
  requester clinic \<open>REQ-001\<close>.  On the ledger request 5 is still requested, request 7 is
  approved, and any other id reads as the zero record of a request that was never
  created.  The hash is the identity and the upstream answers 200.
\<close>

definition sampleAuth :: JwtAuth where
  "sampleAuth =
     \<lparr>verifyToken = (\<lambda>tok.
        if tok = ''viewer-token''
        then Inr \<lparr>pn_subject = ''alice'', pn_roles = [''requester.viewer''], pn_clinicId = Some ''CLINIC-A''\<rparr>
        else if tok = ''admin-token''
        then Inr \<lparr>pn_subject = ''root'', pn_roles = [''worker.admin''], pn_clinicId = None\<rparr>
        else Inl (401, ''JWT signature verification failed''))\<rparr>"

definition sampleLedger :: "jsnum \<Rightarrow> string + LedgerRequest" where
  "sampleLedger rid =
     (if rid = Whole 5 then Inr \<lparr>lr_id = 5, lr_patient = ''0xpatient'', lr_providerClinicKey = ''PROV-001'',
                           lr_requesterClinicKey = ''REQ-001'', lr_status = 0\<rparr>
      else if rid = Whole 7 then Inr \<lparr>lr_id = 7, lr_patient = ''0xpatient'', lr_providerClinicKey = ''PROV-001'',
                           lr_requesterClinicKey = ''REQ-001'', lr_status = 1\<rparr>
      else Inr \<lparr>lr_id = 0, lr_patient = ''0x0'', lr_providerClinicKey = ''0x0'',
                lr_requesterClinicKey = ''0x0'', lr_status = 0\<rparr>)"

definition sampleGdeps :: gdeps where
  "sampleGdeps =
     \<lparr>g_requester = True, g_audit = True, g_auth = Some sampleAuth,
      g_clinics = [(''PROV-001'', \<lparr>cc_role = Provider, cc_operatorAddress = Some ''0xAbC1''\<rparr>),
                   (''REQ-001'', \<lparr>cc_role = Requester, cc_operatorAddress = None\<rparr>)],
      g_reqs = sampleLedger,
      g_keccak256 = (\<lambda>s. s),
      g_aliasLookup = (\<lambda>a. None),
      g_numberOf = (\<lambda>s. None),
      g_urlEncode = (\<lambda>s. s),
      g_decodeURIComponent = Some,
      g_now = ''2025-01-01T00:00:00.000Z'',
      g_upstream = (\<lambda>url wantsBinary accept. Inr (200, ''[]'')),
      g_otherRoutes = (\<lambda>route req g. (\<lparr>rs_status = 501, rs_body = Unmodelled\<rparr>, g))\<rparr>"

definition emptyGateway :: gateway where
  "emptyGateway = \<lparr>clinicStore = Map.empty, auditLog = [], forwarded = []\<rparr>"

definition sampleRequest :: "string \<Rightarrow> string \<Rightarrow> (string \<times> string) list \<Rightarrow> string option \<Rightarrow> HttpRequest" where
  "sampleRequest method path search authorization =
     \<lparr>rq_method = method, rq_pathname = path, rq_search = search, rq_authorization = authorization,
      rq_accept = None, rq_clientIp = Some ''127.0.0.1'',
      rq_body = Inr (''CLINIC-A'', Some ''http://a.example/qido'', Some ''http://a.example/wado'')\<rparr>"

section \<open>Properties of performWithRetry\<close>

declare retryLoop.simps [simp del]

lemma retryLoop_invocations:
  "invocations (retryLoop fn attempts backoffMs attempt lastErr calls slept)
     \<le> calls + (Suc attempts - attempt)"
proof (induction fn attempts backoffMs attempt lastErr calls slept rule: retryLoop.induct)
  case (1 fn attempts backoffMs attempt lastErr calls slept)
  show ?case
  proof (cases "attempt \<le> attempts")
    case False
    then show ?thesis by (subst retryLoop.simps) simp
  next
    case le: True
    show ?thesis
    proof (cases "fn (Suc calls)")
      case (Inr v)
      with le show ?thesis by (subst retryLoop.simps) simp
    next
      case (Inl e)
      show ?thesis
      proof (cases "attempt < attempts")
        case True
        with "1.IH"(1)[OF le Inl True] le Inl show ?thesis
          by (subst retryLoop.simps) simp
      next
        case False
        with "1.IH"(2)[OF le Inl False] le Inl show ?thesis
          by (subst retryLoop.simps) simp
      qed
    qed
  qed
qed

text \<open>
  Invariant of the loop: on entry to the iteration \<open>attempt\<close>, \<open>attempt - 1\<close> invocations
  have been made.  When the invocations \<open>attempt, ..., k - 1\<close> fail and invocation \<open>k\<close>
  succeeds, the loop returns that value after sleeping once for each failed invocation.
\<close>

lemma retryLoop_success:
  assumes "attempt \<le> k" "k \<le> attempts" "calls + 1 = attempt"
    and "\<forall>i. attempt \<le> i \<and> i < k \<longrightarrow> isl (fn i)" "fn k = Inr v"
  shows "retryLoop fn attempts backoffMs attempt lastErr calls slept =
           \<lparr>outcome = Inr v, invocations = k,
            sleeps = slept @ map (\<lambda>i. backoffMs * 2 ^ (i - 1)) [attempt..<k]\<rparr>"
  using assms
proof (induction "k - attempt" arbitrary: attempt lastErr calls slept)
  case 0
  then have "attempt = k" by simp
  with 0 show ?case by (subst retryLoop.simps) simp
next
  case (Suc d)
  then have lt: "attempt < k" and lt': "attempt < attempts" and le: "attempt \<le> attempts" by simp_all
  from Suc.prems lt have "isl (fn attempt)" by simp
  then obtain e where e: "fn attempt = Inl e" by (cases "fn attempt") simp_all
  have sc: "Suc calls = attempt" using Suc.prems by simp
  have step: "retryLoop fn attempts backoffMs attempt lastErr calls slept =
      retryLoop fn attempts backoffMs (attempt + 1) (Some e) (Suc calls)
         (slept @ [backoffMs * 2 ^ (attempt - 1)])"
    using le lt' e sc by (subst retryLoop.simps) simp
  have IH: "retryLoop fn attempts backoffMs (attempt + 1) (Some e) (Suc calls)
         (slept @ [backoffMs * 2 ^ (attempt - 1)]) =
       \<lparr>outcome = Inr v, invocations = k,
        sleeps = (slept @ [backoffMs * 2 ^ (attempt - 1)]) @
                 map (\<lambda>i. backoffMs * 2 ^ (i - 1)) [attempt + 1..<k]\<rparr>"
    using Suc.hyps(2) Suc.prems lt sc
    by (intro Suc.hyps(1)) auto
  have "[attempt..<k] = attempt # [attempt + 1..<k]"
    using lt by (simp add: upt_conv_Cons)
  with step IH show ?case by simp
qed

lemma retryLoop_exhausted:
  assumes "attempt \<le> attempts" "calls + 1 = attempt"
    and "\<forall>i. attempt \<le> i \<and> i \<le> attempts \<longrightarrow> isl (fn i)"
  shows "retryLoop fn attempts backoffMs attempt lastErr calls slept =
           \<lparr>outcome = Inl (Some (projl (fn attempts))), invocations = attempts,
            sleeps = slept @ map (\<lambda>i. backoffMs * 2 ^ (i - 1)) [attempt..<attempts]\<rparr>"
  using assms
proof (induction "attempts - attempt" arbitrary: attempt lastErr calls slept)
  case 0
  then have eq: "attempt = attempts" by simp
  with 0 have "isl (fn attempts)" by simp
  then obtain e where e: "fn attempts = Inl e" by (cases "fn attempts") simp_all
  have sc: "Suc calls = attempts" using 0 eq by simp
  have "retryLoop fn attempts backoffMs attempt lastErr calls slept =
        retryLoop fn attempts backoffMs (attempts + 1) (Some e) attempts slept"
    using eq e sc by (subst retryLoop.simps) simp
  also have "\<dots> = \<lparr>outcome = Inl (Some e), invocations = attempts, sleeps = slept\<rparr>"
    by (subst retryLoop.simps) simp
  finally show ?case using e eq by simp
next
  case (Suc d)
  then have lt: "attempt < attempts" and le: "attempt \<le> attempts" by simp_all
  from Suc.prems have "isl (fn attempt)" by simp
  then obtain e where e: "fn attempt = Inl e" by (cases "fn attempt") simp_all
  have sc: "Suc calls = attempt" using Suc.prems by simp
  have step: "retryLoop fn attempts backoffMs attempt lastErr calls slept =
      retryLoop fn attempts backoffMs (attempt + 1) (Some e) (Suc calls)
         (slept @ [backoffMs * 2 ^ (attempt - 1)])"
    using le lt e sc by (subst retryLoop.simps) simp
  have IH: "retryLoop fn attempts backoffMs (attempt + 1) (Some e) (Suc calls)
         (slept @ [backoffMs * 2 ^ (attempt - 1)]) =
       \<lparr>outcome = Inl (Some (projl (fn attempts))), invocations = attempts,
        sleeps = (slept @ [backoffMs * 2 ^ (attempt - 1)]) @
                 map (\<lambda>i. backoffMs * 2 ^ (i - 1)) [attempt + 1..<attempts]\<rparr>"
    using Suc.hyps(2) Suc.prems lt sc
    by (intro Suc.hyps(1)) auto
  have "[attempt..<attempts] = attempt # [attempt + 1..<attempts]"
    using lt by (simp add: upt_conv_Cons)
  with step IH show ?case by simp
qed

text \<open>The count of invocations never goes down, so one attempt allowed is one invocation made.\<close>

lemma retryLoop_invocations_ge:
  "calls \<le> invocations (retryLoop fn attempts backoffMs attempt lastErr calls slept)"
proof (induction fn attempts backoffMs attempt lastErr calls slept rule: retryLoop.induct)
  case (1 fn attempts backoffMs attempt lastErr calls slept)
  show ?case
  proof (cases "attempt \<le> attempts")
    case False
    then show ?thesis by (subst retryLoop.simps) simp
  next
    case le: True
    show ?thesis
    proof (cases "fn (Suc calls)")
      case (Inr v)
      with le show ?thesis by (subst retryLoop.simps) simp
    next
      case (Inl e)
      show ?thesis
      proof (cases "attempt < attempts")
        case True
        with "1.IH"(1)[OF le Inl True] le Inl show ?thesis
          by (subst retryLoop.simps) simp
      next
        case False
        with "1.IH"(2)[OF le Inl False] le Inl show ?thesis
          by (subst retryLoop.simps) simp
      qed
    qed
  qed
qed

lemma performWithRetry_invoked:
  assumes "1 \<le> attempts"
  shows "1 \<le> invocations (performWithRetry fn attempts backoffMs) \<and>
         invocations (performWithRetry fn attempts backoffMs) \<le> attempts"
proof
  show "1 \<le> invocations (performWithRetry fn attempts backoffMs)"
  proof (cases "fn (Suc 0)")
    case (Inr v)
    with assms show ?thesis
      unfolding performWithRetry_def by (subst retryLoop.simps) simp
  next
    case (Inl e)
    have "\<exists>slept. retryLoop fn attempts backoffMs 1 None 0 [] =
            retryLoop fn attempts backoffMs (1 + 1) (Some e) (Suc 0) slept"
      using assms Inl by (subst retryLoop.simps) auto
    then obtain slept where "performWithRetry fn attempts backoffMs =
        retryLoop fn attempts backoffMs (1 + 1) (Some e) (Suc 0) slept"
      unfolding performWithRetry_def by blast
    with retryLoop_invocations_ge [of "Suc 0" fn attempts backoffMs "1 + 1" "Some e" slept]
    show ?thesis by simp
  qed
  show "invocations (performWithRetry fn attempts backoffMs) \<le> attempts"
    using retryLoop_invocations [of fn attempts backoffMs 1 None 0 "[]"]
    by (simp add: performWithRetry_def)
qed

lemma sum_list_backoff:
  "sum_list (map (\<lambda>i. b * 2 ^ (i - 1)) [1..<k]) = (\<Sum>i = 1..<k. b * 2 ^ (i - 1))"
  by (simp add: interv_sum_list_conv_sum_set_nat)


text \<open>
  Claim C8.  \<open>performWithRetry\<close> invokes \<open>fn\<close> at most \<open>attempts\<close> times.  If the first
  \<open>k - 1\<close> invocations fail and invocation \<open>k\<close> (with \<open>k \<le> attempts\<close>) succeeds, the
  result is that success, exactly \<open>k\<close> invocations are made, and the waits requested
  from \<open>sleep\<close> before invocation \<open>k\<close> are \<open>backoffMs * 2 ^ (i - 1)\<close> for
  \<open>i = 1, ..., k - 1\<close>, whose sum is the cumulative wait.  If all \<open>attempts\<close>
  invocations fail, the error of the last one is thrown.
\<close>

theorem performWithRetry_bounded_backoff:
  "invocations (performWithRetry fn attempts backoffMs) \<le> attempts \<and>
   (\<forall>k v. 1 \<le> k \<and> k \<le> attempts \<and> (\<forall>i. 1 \<le> i \<and> i < k \<longrightarrow> isl (fn i)) \<and> fn k = Inr v \<longrightarrow>
      outcome (performWithRetry fn attempts backoffMs) = Inr v \<and>
      invocations (performWithRetry fn attempts backoffMs) = k \<and>
      sleeps (performWithRetry fn attempts backoffMs) = map (\<lambda>i. backoffMs * 2 ^ (i - 1)) [1..<k] \<and>
      sum_list (sleeps (performWithRetry fn attempts backoffMs)) = (\<Sum>i = 1..<k. backoffMs * 2 ^ (i - 1))) \<and>
   (1 \<le> attempts \<and> (\<forall>i. 1 \<le> i \<and> i \<le> attempts \<longrightarrow> isl (fn i)) \<longrightarrow>
      outcome (performWithRetry fn attempts backoffMs) = Inl (Some (projl (fn attempts))) \<and>
      invocations (performWithRetry fn attempts backoffMs) = attempts)"
proof (intro conjI allI impI)
  show "invocations (performWithRetry fn attempts backoffMs) \<le> attempts"
    using retryLoop_invocations [of fn attempts backoffMs 1 None 0 "[]"]
    by (simp add: performWithRetry_def)
next
  fix k v
  assume h: "1 \<le> k \<and> k \<le> attempts \<and> (\<forall>i. 1 \<le> i \<and> i < k \<longrightarrow> isl (fn i)) \<and> fn k = Inr v"
  then have r: "performWithRetry fn attempts backoffMs =
       \<lparr>outcome = Inr v, invocations = k,
        sleeps = [] @ map (\<lambda>i. backoffMs * 2 ^ (i - 1)) [1..<k]\<rparr>"
    unfolding performWithRetry_def by (intro retryLoop_success) auto
  show "outcome (performWithRetry fn attempts backoffMs) = Inr v"
    and "invocations (performWithRetry fn attempts backoffMs) = k"
    and "sleeps (performWithRetry fn attempts backoffMs) = map (\<lambda>i. backoffMs * 2 ^ (i - 1)) [1..<k]"
    by (simp_all add: r)
  show "sum_list (sleeps (performWithRetry fn attempts backoffMs)) = (\<Sum>i = 1..<k. backoffMs * 2 ^ (i - 1))"
  proof -
    have "sleeps (performWithRetry fn attempts backoffMs) = map (\<lambda>i. backoffMs * 2 ^ (i - 1)) [1..<k]"
      by (simp add: r)
    then show ?thesis by (simp only: sum_list_backoff)
  qed
next
  assume h: "1 \<le> attempts \<and> (\<forall>i. 1 \<le> i \<and> i \<le> attempts \<longrightarrow> isl (fn i))"
  then have r: "performWithRetry fn attempts backoffMs =
       \<lparr>outcome = Inl (Some (projl (fn attempts))), invocations = attempts,
        sleeps = [] @ map (\<lambda>i. backoffMs * 2 ^ (i - 1)) [1..<attempts]\<rparr>"
    unfolding performWithRetry_def by (intro retryLoop_exhausted) auto
  show "outcome (performWithRetry fn attempts backoffMs) = Inl (Some (projl (fn attempts)))"
    and "invocations (performWithRetry fn attempts backoffMs) = attempts"
    by (simp_all add: r)
qed

text \<open>
  A step that fails twice and succeeds on the third of three attempts, with a backoff of
  1000 ms: reported as the success, after waits of 1000 and 2000 ms.  And a step that
  fails on each of its three attempts rethrows the third error.
\<close>

theorem performWithRetry_bounded_backoff_witness:
  "outcome (performWithRetry (\<lambda>i. if i < 3 then Inl (''timeout'', i) else Inr ''ok'') 3 1000) = Inr ''ok'' \<and>
   invocations (performWithRetry (\<lambda>i. if i < 3 then Inl (''timeout'', i) else Inr ''ok'') 3 1000) = 3 \<and>
   sleeps (performWithRetry (\<lambda>i. if i < 3 then Inl (''timeout'', i) else Inr ''ok'') 3 1000) = [1000, 2000] \<and>
   outcome (performWithRetry (\<lambda>i. (Inl (''timeout'', i) :: (string \<times> nat) + string)) 3 1000)
     = Inl (Some (''timeout'', 3))"
proof -
  let ?f = "\<lambda>i::nat. if i < 3 then Inl (''timeout'', i) else (Inr ''ok'' :: (string \<times> nat) + string)"
  let ?g = "\<lambda>i::nat. (Inl (''timeout'', i) :: (string \<times> nat) + string)"
  have up: "[Suc 0..<3] = [1, 2::nat]" by (simp add: upt_rec)
  have a: "1 \<le> (3::nat) \<and> (3::nat) \<le> 3 \<and> (\<forall>i. 1 \<le> i \<and> i < 3 \<longrightarrow> isl (?f i)) \<and> ?f 3 = Inr ''ok''"
    by simp
  have b: "1 \<le> (3::nat) \<and> (\<forall>i. 1 \<le> i \<and> i \<le> 3 \<longrightarrow> isl (?g i))"
    by simp
  from performWithRetry_bounded_backoff [of ?f 3 1000] a
  have "outcome (performWithRetry ?f 3 1000) = Inr ''ok'' \<and>
        invocations (performWithRetry ?f 3 1000) = 3 \<and>
        sleeps (performWithRetry ?f 3 1000) = map (\<lambda>i. 1000 * 2 ^ (i - 1)) [1..<3]"
    by blast
  moreover from performWithRetry_bounded_backoff [of ?g 3 1000] b
  have "outcome (performWithRetry ?g 3 1000) = Inl (Some (projl (?g 3)))"
    by blast
  ultimately show ?thesis by (simp add: up)
qed

section \<open>Properties of buildManifestHash\<close>

text \<open>
  Claim C7.  \<open>buildManifestHash\<close> is invariant under permutation of each of its two
  input lists: two success lists with the same elements (counted with multiplicity) and
  two failed lists with the same elements give the same hash.
\<close>

theorem buildManifestHash_permutation_invariant:
  assumes "mset success' = mset success" and "mset failed' = mset failed"
  shows "buildManifestHash K success' failed' = buildManifestHash K success failed"
proof -
  have "sort success' = sort success"
    using assms(1) by (intro properties_for_sort) simp_all
  moreover have "sort failed' = sort failed"
    using assms(2) by (intro properties_for_sort) simp_all
  ultimately show ?thesis
    by (simp add: buildManifestHash_def manifestPayload_def)
qed

text \<open>The instance of the specification: \<open>(success=[B,A], failed=[C])\<close> against \<open>(success=[A,B], failed=[C])\<close>.\<close>

theorem buildManifestHash_permutation_invariant_witness:
  "\<forall>K. buildManifestHash K [''B'', ''A''] [''C''] = buildManifestHash K [''A'', ''B''] [''C'']"
proof
  fix K :: "string \<Rightarrow> string"
  have "mset [''B'', ''A''] = mset [''A'', ''B'']" by simp
  then show "buildManifestHash K [''B'', ''A''] [''C''] = buildManifestHash K [''A'', ''B''] [''C'']"
    by (rule buildManifestHash_permutation_invariant) simp
qed

section \<open>Properties of the polling loop\<close>

lemma distinct_count_le_one: "distinct xs \<Longrightarrow> count_list xs x \<le> 1"
  by (induction xs) auto

lemma claimed_cases: "claimed ph = [] \<or> (\<exists>rid. claimed ph = [rid])"
  by (cases ph) simp_all

text \<open>
  What a run of the callback from one await to the next does to \<open>processed\<close> and to the
  traces.  The loop over the events starts nothing; it claims at most one request, which
  was not in \<open>processed\<close> and now is.
\<close>

lemma eventLoop_spec:
  "startedLog (snd (eventLoop d toBlock evs w)) = startedLog w \<and>
   dispatchLog (snd (eventLoop d toBlock evs w)) = dispatchLog w \<and>
   set (claimed (fst (eventLoop d toBlock evs w))) \<inter> processed w = {} \<and>
   processed (snd (eventLoop d toBlock evs w)) = processed w \<union> set (claimed (fst (eventLoop d toBlock evs w)))"
  by (induction d toBlock evs w rule: eventLoop.induct) simp_all

lemma copyLoop_spec:
  "startedLog (snd (copyLoop d toBlock evs rid providerId us idx success failed w)) = startedLog w \<and>
   dispatchLog (snd (copyLoop d toBlock evs rid providerId us idx success failed w)) = dispatchLog w \<and>
   claimed (fst (copyLoop d toBlock evs rid providerId us idx success failed w)) = [] \<and>
   processed (snd (copyLoop d toBlock evs rid providerId us idx success failed w)) = processed w"
  by (cases us) (simp_all add: copyLoop_def Let_def)

text \<open>
  A segment of the callback: the requests it starts are among those the callback had
  claimed, the requests it dispatches are among those it starts, and it leaves the
  callback with a claim only on a request that it has just added to \<open>processed\<close>.
\<close>

lemma eventLoop_after:
  assumes "startedLog w1 = startedLog w @ S" "dispatchLog w1 = dispatchLog w @ D"
    and "processed w1 = processed w" and "S = [] \<or> S = held" and "D = [] \<or> D = S"
  shows "\<exists>S D. startedLog (snd (eventLoop d toBlock evs w1)) = startedLog w @ S \<and>
         dispatchLog (snd (eventLoop d toBlock evs w1)) = dispatchLog w @ D \<and>
         (S = [] \<or> S = held) \<and> (D = [] \<or> D = S) \<and>
         set (claimed (fst (eventLoop d toBlock evs w1))) \<inter> processed w = {} \<and>
         processed (snd (eventLoop d toBlock evs w1))
           = processed w \<union> set (claimed (fst (eventLoop d toBlock evs w1)))"
  using eventLoop_spec [of d toBlock evs w1] assms
  by (intro exI [of _ S] exI [of _ D]) simp

lemma suspended_after:
  assumes "startedLog w1 = startedLog w @ S" "dispatchLog w1 = dispatchLog w @ D"
    and "processed w1 = processed w" and "S = [] \<or> S = held" and "D = [] \<or> D = S"
    and "claimed ph1 = []"
  shows "\<exists>S D. startedLog (snd (ph1, w1)) = startedLog w @ S \<and>
         dispatchLog (snd (ph1, w1)) = dispatchLog w @ D \<and>
         (S = [] \<or> S = held) \<and> (D = [] \<or> D = S) \<and>
         set (claimed (fst (ph1, w1))) \<inter> processed w = {} \<and>
         processed (snd (ph1, w1)) = processed w \<union> set (claimed (fst (ph1, w1)))"
  using assms by (intro exI [of _ S] exI [of _ D]) simp

lemma afterRequest_spec:
  "\<exists>S D. startedLog (snd (afterRequest d toBlock evs rid w)) = startedLog w @ S \<and>
         dispatchLog (snd (afterRequest d toBlock evs rid w)) = dispatchLog w @ D \<and>
         (S = [] \<or> S = [rid]) \<and> (D = [] \<or> D = S) \<and>
         set (claimed (fst (afterRequest d toBlock evs rid w))) \<inter> processed w = {} \<and>
         processed (snd (afterRequest d toBlock evs rid w))
           = processed w \<union> set (claimed (fst (afterRequest d toBlock evs rid w)))"
proof (cases "getRequestAndProviderId d rid")
  case (Inl msg)
  then have r: "afterRequest d toBlock evs rid w =
      eventLoop d toBlock evs (w\<lparr>copyEvents := ce_fail (nowIso d) rid msg (copyEvents w)\<rparr>)"
    by (simp add: afterRequest_def)
  show ?thesis
    unfolding r by (rule eventLoop_after [where S = "[]" and D = "[]"]) simp_all
next
  case (Inr res)
  obtain patientAddr providerIdOpt where res: "res = (patientAddr, providerIdOpt)"
    by (cases res) auto
  define w1 where "w1 = w\<lparr>copyEvents := ce_start (nowIso d) rid providerIdOpt patientAddr
                                (resolvePatientId d patientAddr) (copyEvents w),
                            startedLog := startedLog w @ [rid]\<rparr>"
  have w1: "startedLog w1 = startedLog w @ [rid]" "dispatchLog w1 = dispatchLog w" "processed w1 = processed w"
    by (simp_all add: w1_def)
  show ?thesis
  proof (cases providerIdOpt)
    case None
    with Inr res have r: "afterRequest d toBlock evs rid w =
        eventLoop d toBlock evs
          (w1\<lparr>copyEvents := ce_fail (nowIso d) rid ''providerId not found in config'' (copyEvents w1)\<rparr>)"
      by (simp add: afterRequest_def Let_def w1_def)
    show ?thesis
      unfolding r by (rule eventLoop_after [where S = "[rid]" and D = "[]"]) (simp_all add: w1)
  next
    case (Some providerId)
    consider (push) "cfg_copyMode d = ProviderPush"
      | (fallback) "cfg_copyMode d = Orthanc" "\<not> providerCfg d providerId \<or> \<not> requesterOrthanc d"
      | (pull) "cfg_copyMode d = Orthanc" "\<not> (\<not> providerCfg d providerId \<or> \<not> requesterOrthanc d)"
      | (dry) "cfg_copyMode d \<noteq> ProviderPush" "cfg_copyMode d \<noteq> Orthanc"
      by blast
    then show ?thesis
    proof cases
      case push
      with Inr res Some have r: "afterRequest d toBlock evs rid w =
          eventLoop d toBlock evs
            (w1\<lparr>pendingPush := (pendingPush w1)(rid \<mapsto>
                   \<lparr>pp_requestId = rid, pp_providerId = providerId,
                    pp_patientAddress = patientAddr, pp_patientId = resolvePatientId d patientAddr\<rparr>),
                copyEvents := ce_update (nowIso d) rid
                   (noUpdate\<lparr>cu_status := Some Pending, cu_total := Some 0,
                             cu_success := Some 0, cu_failed := Some 0\<rparr>) (copyEvents w1),
                dispatchLog := dispatchLog w1 @ [rid]\<rparr>)"
        by (simp add: afterRequest_def Let_def w1_def)
      show ?thesis
        unfolding r by (rule eventLoop_after [where S = "[rid]" and D = "[rid]"]) (simp_all add: w1)
    next
      case fallback
      with Inr res Some have r: "afterRequest d toBlock evs rid w =
          (AwaitFulfilled toBlock evs rid providerId (keccak256 d ''dummy-manifest'') Error 0 0,
           w1\<lparr>copyEvents := ce_update (nowIso d) rid
                 (noUpdate\<lparr>cu_status := Some Error,
                           cu_error := Some ''providers/requester config missing; fallback to dryRun''\<rparr>)
                 (copyEvents w1),
               dispatchLog := dispatchLog w1 @ [rid]\<rparr>)"
        by (simp add: afterRequest_def Let_def w1_def)
      show ?thesis
        unfolding r by (rule suspended_after [where S = "[rid]" and D = "[rid]"]) (simp_all add: w1)
    next
      case pull
      with Inr res Some have r: "afterRequest d toBlock evs rid w =
          (AwaitQido toBlock evs rid providerId (resolvePatientId d patientAddr),
           w1\<lparr>copyEvents := ce_update (nowIso d) rid (noUpdate\<lparr>cu_status := Some Copying\<rparr>) (copyEvents w1),
               dispatchLog := dispatchLog w1 @ [rid]\<rparr>)"
        by (simp add: afterRequest_def Let_def w1_def)
      show ?thesis
        unfolding r by (rule suspended_after [where S = "[rid]" and D = "[rid]"]) (simp_all add: w1)
    next
      case dry
      with Inr res Some have r: "afterRequest d toBlock evs rid w =
          (AwaitFulfilled toBlock evs rid providerId (keccak256 d ''dry-run'') Completed 0 0,
           w1\<lparr>copyEvents := ce_update (nowIso d) rid
                 (noUpdate\<lparr>cu_status := Some Completed,
                           cu_manifestHash := Some (keccak256 d ''dry-run'')\<rparr>) (copyEvents w1),
               dispatchLog := dispatchLog w1 @ [rid]\<rparr>)"
        by (simp add: afterRequest_def Let_def w1_def)
      show ?thesis
        unfolding r by (rule suspended_after [where S = "[rid]" and D = "[rid]"]) (simp_all add: w1)
    qed
  qed
qed

lemma copyLoop_after:
  assumes "startedLog w1 = startedLog w" "dispatchLog w1 = dispatchLog w" "processed w1 = processed w"
  shows "\<exists>S D. startedLog (snd (copyLoop d toBlock evs rid providerId us idx success failed w1)) = startedLog w @ S \<and>
         dispatchLog (snd (copyLoop d toBlock evs rid providerId us idx success failed w1)) = dispatchLog w @ D \<and>
         (S = [] \<or> S = held) \<and> (D = [] \<or> D = S) \<and>
         set (claimed (fst (copyLoop d toBlock evs rid providerId us idx success failed w1))) \<inter> processed w = {} \<and>
         processed (snd (copyLoop d toBlock evs rid providerId us idx success failed w1))
           = processed w \<union> set (claimed (fst (copyLoop d toBlock evs rid providerId us idx success failed w1)))"
  using copyLoop_spec [of d toBlock evs rid providerId us idx success failed w1] assms
  by (intro exI [of _ "[]"]) simp

lemma resume_spec:
  "\<exists>S D. startedLog (snd (resume t ph w)) = startedLog w @ S \<and>
         dispatchLog (snd (resume t ph w)) = dispatchLog w @ D \<and>
         (S = [] \<or> S = claimed ph) \<and> (D = [] \<or> D = S) \<and>
         set (claimed (fst (resume t ph w))) \<inter> processed w = {} \<and>
         processed (snd (resume t ph w)) = processed w \<union> set (claimed (fst (resume t ph w)))"
proof (cases ph)
  case AwaitBlockNumber
  then show ?thesis by (simp split: sum.splits)
next
  case (AwaitQueryFilter lo toBlock)
  show ?thesis
  proof (cases "ti_queryFilter t lo toBlock")
    case (Inl e)
    with AwaitQueryFilter show ?thesis by simp
  next
    case (Inr evs)
    with AwaitQueryFilter have r: "resume t ph w = eventLoop (ti_deps t) toBlock evs w" by simp
    show ?thesis
      unfolding r by (rule eventLoop_after [where S = "[]" and D = "[]"]) simp_all
  qed
next
  case (AwaitRequest toBlock evs rid)
  then have r: "resume t ph w = afterRequest (ti_deps t) toBlock evs rid w"
    and c: "claimed ph = [rid]" by simp_all
  show ?thesis
    unfolding r c by (rule afterRequest_spec)
next
  case (AwaitQido toBlock evs rid providerId patientId)
  let ?d = "ti_deps t"
  show ?thesis
  proof (cases "qidoFindInstances ?d providerId patientId")
    case (Inl msg)
    with AwaitQido have r: "resume t ph w =
        eventLoop ?d toBlock evs (w\<lparr>copyEvents := ce_fail (nowIso ?d) rid msg (copyEvents w)\<rparr>)"
      by (simp add: afterQido_def)
    show ?thesis
      unfolding r by (rule eventLoop_after [where S = "[]" and D = "[]"]) simp_all
  next
    case (Inr instances)
    with AwaitQido have r: "resume t ph w =
        copyLoop ?d toBlock evs rid providerId instances 0 [] []
          (w\<lparr>copyEvents := ce_update (nowIso ?d) rid (noUpdate\<lparr>cu_total := Some (length instances)\<rparr>)
                 (copyEvents w)\<rparr>)"
      by (simp add: afterQido_def)
    show ?thesis
      unfolding r by (rule copyLoop_after) simp_all
  qed
next
  case (AwaitCopy toBlock evs rid providerId u rest idx success failed)
  let ?d = "ti_deps t"
  obtain s1 f1 ces where one: "copyOne ?d rid idx u (success, failed, copyEvents w) = (s1, f1, ces)"
    by (cases "copyOne ?d rid idx u (success, failed, copyEvents w)") auto
  with AwaitCopy have r: "resume t ph w =
      copyLoop ?d toBlock evs rid providerId rest (Suc idx) s1 f1 (w\<lparr>copyEvents := ces\<rparr>)"
    by (simp add: afterCopy_def)
  show ?thesis
    unfolding r by (rule copyLoop_after) simp_all
next
  case (AwaitFulfilled toBlock evs rid providerId manifestHash outcomeStatus outcomeSuccess outcomeFailed)
  let ?d = "ti_deps t"
  define w1 where "w1 = (case requestMarkFulfilled ?d providerId rid manifestHash of
          Inr u \<Rightarrow>
            w\<lparr>copyEvents := ce_update (nowIso ?d) rid
                 (noUpdate\<lparr>cu_status := Some outcomeStatus, cu_success := Some outcomeSuccess,
                           cu_failed := Some outcomeFailed, cu_manifestHash := Some manifestHash\<rparr>)
                 (copyEvents w)\<rparr>
        | Inl msg \<Rightarrow> w\<lparr>copyEvents := ce_fail (nowIso ?d) rid msg (copyEvents w)\<rparr>)"
  have w1: "startedLog w1 = startedLog w" "dispatchLog w1 = dispatchLog w" "processed w1 = processed w"
    by (simp_all add: w1_def split: sum.splits)
  from AwaitFulfilled have r: "resume t ph w = eventLoop ?d toBlock evs w1"
    by (simp add: afterFulfilled_def w1_def)
  show ?thesis
    unfolding r by (rule eventLoop_after [where S = "[]" and D = "[]"]) (simp_all add: w1)
next
  case Finished
  then show ?thesis by simp
qed

lemma claims_append [simp]: "claims (xs @ ys) = claims xs @ claims ys"
  by (simp add: claims_def)

lemma claims_Cons [simp]: "claims (t # ts) = claimed (tk_phase t) @ claims ts"
  by (simp add: claims_def)

lemma claims_Nil [simp]: "claims [] = []"
  by (simp add: claims_def)

text \<open>The invariant holds after start-up and every step of the process keeps it.\<close>

lemma initialSystem_inv: "dispatchInv (initialSystem b)"
  by (simp add: dispatchInv_def initialSystem_def initialWorker_def)

lemma resume_inv:
  assumes inv: "dispatchInv s" and i: "i < length (sy_tasks s)"
  shows "dispatchInv (step s (Resume i))"
proof -
  let ?w = "sy_worker s" and ?ts = "sy_tasks s"
  let ?t = "?ts ! i"
  let ?r = "resume (tk_input ?t) (tk_phase ?t) ?w"
  let ?pre = "take i ?ts" and ?post = "drop (Suc i) ?ts"
  have split: "?ts = ?pre @ ?t # ?post"
    using i by (rule id_take_nth_drop)
  have upd: "?ts[i := ?t\<lparr>tk_phase := fst ?r\<rparr>] = ?pre @ ?t\<lparr>tk_phase := fst ?r\<rparr> # ?post"
    using i by (rule upd_conv_take_nth_drop)
  have st: "step s (Resume i) = \<lparr>sy_worker = snd ?r, sy_tasks = ?pre @ ?t\<lparr>tk_phase := fst ?r\<rparr> # ?post\<rparr>"
    using i upd by (simp add: case_prod_beta)
  define L where "L = startedLog ?w"
  define DL where "DL = dispatchLog ?w"
  define P where "P = processed ?w"
  define h where "h = claimed (tk_phase ?t)"
  define h' where "h' = claimed (fst ?r)"
  define cp where "cp = claims ?pre"
  define cq where "cq = claims ?post"
  have cl: "claims ?ts = cp @ h @ cq"
    by (subst split) (simp add: cp_def cq_def h_def)
  from inv have I: "distinct (L @ cp @ h @ cq)" "set (L @ cp @ h @ cq) \<subseteq> P" "distinct DL" "set DL \<subseteq> set L"
    by (simp_all add: dispatchInv_def cl L_def DL_def P_def)
  from resume_spec [of "tk_input ?t" "tk_phase ?t" ?w]
  obtain S D where R: "startedLog (snd ?r) = L @ S" "dispatchLog (snd ?r) = DL @ D"
    "S = [] \<or> S = h" "D = [] \<or> D = S" "set h' \<inter> P = {}" "processed (snd ?r) = P \<union> set h'"
    unfolding L_def DL_def P_def h_def h'_def by blast
  from claimed_cases [of "fst ?r"] have dh': "distinct h'"
    by (auto simp: h'_def)
  have a: "distinct ((L @ S) @ cp @ h' @ cq)"
    using I(1,2) R(3,5) dh' by auto
  have b: "set ((L @ S) @ cp @ h' @ cq) \<subseteq> P \<union> set h'"
    using I(2) R(3) by auto
  have c: "distinct (DL @ D)"
    using I(1,3,4) R(3,4) by auto
  have e: "set (DL @ D) \<subseteq> set (L @ S)"
    using I(4) R(4) by auto
  have w': "sy_worker (step s (Resume i)) = snd ?r"
    and ts': "claims (sy_tasks (step s (Resume i))) = cp @ h' @ cq"
    unfolding st by (simp_all add: cp_def cq_def h'_def)
  show ?thesis
    unfolding dispatchInv_def w' ts' R(1,2,6) using a b c e by blast
qed

lemma step_inv: "dispatchInv s \<Longrightarrow> dispatchInv (step s a)"
proof (cases a)
  case (Fire t)
  assume "dispatchInv s"
  then show ?thesis using Fire by (simp add: dispatchInv_def)
next
  case (Resume i)
  assume inv: "dispatchInv s"
  show ?thesis
  proof (cases "i < length (sy_tasks s)")
    case True
    from resume_inv [OF inv True] Resume show ?thesis by simp
  next
    case False
    with inv Resume show ?thesis by simp
  qed
next
  case (Handler f)
  assume "dispatchInv s"
  then show ?thesis using Handler by (simp add: dispatchInv_def)
qed

lemma run_inv: "dispatchInv s \<Longrightarrow> dispatchInv (run acts s)"
  unfolding run_def
  by (induction acts arbitrary: s) (simp_all add: step_inv)

text \<open>
  Claim C6.  Within one process lifetime, that is after any sequence of steps of the
  process from start-up (timer ticks started at any moment, their callbacks resumed in
  any order at their awaits, whatever events each query returns, and any steps of the
  other handlers in between), the transfer workflow has been executed at most once for
  every request id: \<open>copyEvents.start\<close> has been called at most once for it, and it has
  been dispatched (parked for a push or handed to the pull-mode transfer) at most once,
  and only after it was started and added to \<open>processed\<close>.
\<close>

theorem transfer_workflow_at_most_once:
  "count_list (startedLog (sy_worker (run acts (initialSystem b)))) rid \<le> 1 \<and>
   count_list (dispatchLog (sy_worker (run acts (initialSystem b)))) rid \<le> 1 \<and>
   distinct (startedLog (sy_worker (run acts (initialSystem b)))) \<and>
   distinct (dispatchLog (sy_worker (run acts (initialSystem b)))) \<and>
   set (dispatchLog (sy_worker (run acts (initialSystem b))))
     \<subseteq> set (startedLog (sy_worker (run acts (initialSystem b)))) \<and>
   set (startedLog (sy_worker (run acts (initialSystem b))))
     \<subseteq> processed (sy_worker (run acts (initialSystem b)))"
proof -
  let ?w = "sy_worker (run acts (initialSystem b))"
  have "dispatchInv (run acts (initialSystem b))"
    by (rule run_inv [OF initialSystem_inv])
  then have d: "distinct (startedLog ?w)" "distinct (dispatchLog ?w)"
    and s: "set (dispatchLog ?w) \<subseteq> set (startedLog ?w)" "set (startedLog ?w) \<subseteq> processed ?w"
    by (simp_all add: dispatchInv_def)
  from d s distinct_count_le_one [OF d(1), of rid] distinct_count_le_one [OF d(2), of rid]
  show ?thesis by simp
qed

lemmas run_defs = run_def initialSystem_def initialWorker_def sampleTick_def afterRequest_def
  resolvePatientId_def Let_def

text \<open>
  Two ticks overlap: the second fires before the first has read the block number, so
  both query a window that starts at block 1, and both queries return the approval of
  request 7.  The first callback claims the request; the second, resumed while the first
  awaits the ledger, finds the id in \<open>processed\<close> and passes it over.  The workflow of
  request 7 is started and dispatched once.
\<close>

theorem transfer_workflow_at_most_once_witness:
  "map tk_phase (sy_tasks (run [Fire (sampleTick 10 [Some 7]), Fire (sampleTick 20 [Some 7, None]),
                                 Resume 0, Resume (Suc 0)] (initialSystem 0)))
     = [AwaitQueryFilter 1 10, AwaitQueryFilter 1 20] \<and>
   startedLog (sy_worker (run [Fire (sampleTick 10 [Some 7]), Fire (sampleTick 20 [Some 7, None]),
                               Resume 0, Resume (Suc 0), Resume 0, Resume (Suc 0), Resume 0]
                              (initialSystem 0))) = [7] \<and>
   dispatchLog (sy_worker (run [Fire (sampleTick 10 [Some 7]), Fire (sampleTick 20 [Some 7, None]),
                                Resume 0, Resume (Suc 0), Resume 0, Resume (Suc 0), Resume 0]
                               (initialSystem 0))) = [7] \<and>
   count_list (startedLog (sy_worker (run [Fire (sampleTick 10 [Some 7]), Fire (sampleTick 20 [Some 7, None]),
                               Resume 0, Resume (Suc 0), Resume 0, Resume (Suc 0), Resume 0]
                              (initialSystem 0)))) 7 \<le> 1"
proof -
  let ?acts = "[Fire (sampleTick 10 [Some 7]), Fire (sampleTick 20 [Some 7, None]),
                Resume 0, Resume (Suc 0), Resume 0, Resume (Suc 0), Resume 0]"
  have a: "map tk_phase (sy_tasks (run [Fire (sampleTick 10 [Some 7]), Fire (sampleTick 20 [Some 7, None]),
                                 Resume 0, Resume (Suc 0)] (initialSystem 0)))
     = [AwaitQueryFilter 1 10, AwaitQueryFilter 1 20]"
    by (simp add: run_defs)
  have l: "startedLog (sy_worker (run ?acts (initialSystem 0))) = [7]"
    by (simp add: run_defs sampleDeps_def)
  have m: "dispatchLog (sy_worker (run ?acts (initialSystem 0))) = [7]"
    by (simp add: run_defs sampleDeps_def)
  from transfer_workflow_at_most_once [of ?acts 0 7] a l m show ?thesis by simp
qed

section \<open>The content hash of a push envelope\<close>

text \<open>
  \<open>JSON.stringify\<close> of the canonical entries can be read back: the escapes of a string
  form a prefix code, so a quoted string, a nullable field, an entry and the whole array
  determine what was serialised.  The sort moves the entries by their SOP instance uids
  alone, so two batches with the same uids in the same order are permuted alike.
\<close>

lemma hexDigit_mod: "hexDigit a = hexDigit b \<Longrightarrow> a mod 16 = b mod 16"
proof -
  assume h: "hexDigit a = hexDigit b"
  have d: "distinct ''0123456789abcdef''" by simp
  have l: "a mod 16 < length ''0123456789abcdef''" "b mod 16 < length ''0123456789abcdef''" by simp_all
  from h have "''0123456789abcdef'' ! (a mod 16) = ''0123456789abcdef'' ! (b mod 16)"
    by (simp only: hexDigit_def)
  with nth_eq_iff_index_eq [OF d l] show ?thesis by blast
qed

lemma hex_pair_inj:
  assumes "of_char c < (32::nat)" "of_char c' < (32::nat)"
    and "hexDigit (of_char c div 16) = hexDigit (of_char c' div 16)"
    and "hexDigit (of_char c) = hexDigit (of_char c')"
  shows "c = c'"
proof -
  let ?n = "of_char c :: nat" and ?m = "of_char c' :: nat"
  from hexDigit_mod [OF assms(3)] assms(1,2) have "?n div 16 = ?m div 16" by simp
  moreover from hexDigit_mod [OF assms(4)] have "?n mod 16 = ?m mod 16" .
  ultimately have "?n = ?m" by (metis div_mult_mod_eq)
  then show ?thesis by simp
qed

lemma esc_prefix:
  "jsonEscapeChar c @ r = jsonEscapeChar c' @ r' \<Longrightarrow> c = c' \<and> r = r'"
  by (auto split: if_splits dest: hex_pair_inj)

lemma esc_head: "\<exists>x xs. jsonEscapeChar c = x # xs \<and> x \<noteq> CHR ''\"''"
  by simp

lemma concat_esc_inj:
  "concat (map jsonEscapeChar s) @ CHR ''\"'' # r = concat (map jsonEscapeChar s') @ CHR ''\"'' # r'
     \<Longrightarrow> s = s' \<and> r = r'"
proof (induction s arbitrary: s')
  case Nil
  show ?case
  proof (cases s')
    case Nil
    with Nil.prems show ?thesis by simp
  next
    case (Cons c' t')
    from esc_head [of c'] obtain x xs where "jsonEscapeChar c' = x # xs" "x \<noteq> CHR ''\"''" by blast
    with Nil.prems Cons show ?thesis by simp
  qed
next
  case (Cons c t)
  show ?case
  proof (cases s')
    case Nil
    from esc_head [of c] obtain x xs where "jsonEscapeChar c = x # xs" "x \<noteq> CHR ''\"''" by blast
    with Cons.prems Nil show ?thesis by simp
  next
    case (Cons c' t')
    with Cons.prems have
      "jsonEscapeChar c @ (concat (map jsonEscapeChar t) @ CHR ''\"'' # r)
         = jsonEscapeChar c' @ (concat (map jsonEscapeChar t') @ CHR ''\"'' # r')"
      by (simp del: jsonEscapeChar.simps)
    from esc_prefix [OF this] have "c = c'"
      and "concat (map jsonEscapeChar t) @ CHR ''\"'' # r = concat (map jsonEscapeChar t') @ CHR ''\"'' # r'"
      by simp_all
    with Cons.IH [of t'] Cons show ?thesis by (simp del: jsonEscapeChar.simps)
  qed
qed

lemma jsonString_prefix:
  "jsonString s @ r = jsonString s' @ r' \<Longrightarrow> s = s' \<and> r = r'"
  using concat_esc_inj [of s r s' r'] by (simp add: jsonString_def)





lemma joinWith_Cons: "joinWith sep (x # xs) = x @ (if xs = [] then [] else sep @ joinWith sep xs)"
  by (cases xs) simp_all









section \<open>Properties of handleProviderPush\<close>

lemma pushError_status [simp]: "pr_status (pushError c m) = c"
  by (simp add: pushError_def)

lemma pushError_error [simp]: "pr_error (pushError c m) = Some m"
  by (simp add: pushError_def)

lemma dom_ce_update [simp]: "dom (events (ce_update now rid patch st)) = dom (events st)"
  by (auto simp: ce_update_def split: option.splits)

lemma dom_ce_recordFailure [simp]: "dom (events (ce_recordFailure now rid f st)) = dom (events st)"
  by (auto simp: ce_recordFailure_def split: option.splits)

lemma dom_ce_fail [simp]: "dom (events (ce_fail now rid m st)) = dom (events st)"
  by (auto simp: ce_fail_def split: option.splits)

lemma ce_fail_status:
  "rid \<in> dom (events st) \<Longrightarrow> \<exists>ev. events (ce_fail now rid m st) rid = Some ev \<and> ce_status ev = Error"
  by (auto simp: ce_fail_def)

text \<open>The instance loop changes the copy events and the upload trace, nothing else.\<close>

lemma pushOne_frame:
  "pendingPush (snd (snd (pushOne d rid idx inst (s, f, w)))) = pendingPush w \<and>
   processed (snd (snd (pushOne d rid idx inst (s, f, w)))) = processed w \<and>
   dom (events (copyEvents (snd (snd (pushOne d rid idx inst (s, f, w)))))) = dom (events (copyEvents w)) \<and>
   uploads (snd (snd (pushOne d rid idx inst (s, f, w)))) = uploads w @ pushUploadsOf d rid idx inst"
  by (simp add: pushOne_def pushUploadsOf_def Let_def split: prod.splits sum.splits)

lemma pushInstances_frame:
  "pendingPush (snd (snd (pushInstances d rid idx insts (s, f, w)))) = pendingPush w \<and>
   processed (snd (snd (pushInstances d rid idx insts (s, f, w)))) = processed w \<and>
   dom (events (copyEvents (snd (snd (pushInstances d rid idx insts (s, f, w)))))) = dom (events (copyEvents w)) \<and>
   uploads (snd (snd (pushInstances d rid idx insts (s, f, w)))) = uploads w @ pushUploadsFrom d rid idx insts"
proof (induction insts arbitrary: idx s f w)
  case Nil
  then show ?case by simp
next
  case (Cons inst rest)
  obtain s1 f1 w1 where one: "pushOne d rid idx inst (s, f, w) = (s1, f1, w1)"
    by (cases "pushOne d rid idx inst (s, f, w)") auto
  from pushOne_frame [of d rid idx inst s f w] one
  have "pendingPush w1 = pendingPush w \<and> processed w1 = processed w \<and>
     dom (events (copyEvents w1)) = dom (events (copyEvents w)) \<and>
     uploads w1 = uploads w @ pushUploadsOf d rid idx inst" by simp
  with Cons.IH [of "Suc idx" s1 f1 w1] one show ?case by simp
qed

text \<open>
  Every uploadable instance of the batch appears in the uploads of the loop, with at least
  one invocation of the upload when at least one attempt is configured.
\<close>

lemma pushUploadsOf_uploadable:
  assumes "uploadable d inst" and "1 \<le> attemptsOf d"
  shows "\<exists>n. 1 \<le> n \<and> n \<le> attemptsOf d \<and> pushUploadsOf d rid idx inst = [(rid, pi_sop inst, n)]"
  using assms performWithRetry_invoked [OF assms(2), of "uploadToOrthanc d rid idx" "backoffOf d"]
  by (simp add: uploadable_def pushUploadsOf_def pushUpload_def Let_def)

lemma pushUploadsFrom_uploadable:
  "inst \<in> set insts \<Longrightarrow> uploadable d inst \<Longrightarrow> 1 \<le> attemptsOf d \<Longrightarrow>
     \<exists>n. 1 \<le> n \<and> n \<le> attemptsOf d \<and> (rid, pi_sop inst, n) \<in> set (pushUploadsFrom d rid idx insts)"
proof (induction insts arbitrary: idx)
  case Nil
  then show ?case by simp
next
  case (Cons a rest)
  show ?case
  proof (cases "inst = a")
    case True
    from pushUploadsOf_uploadable [OF Cons.prems(2,3), of rid idx]
    obtain n where "1 \<le> n" "n \<le> attemptsOf d" "pushUploadsOf d rid idx inst = [(rid, pi_sop inst, n)]"
      by blast
    with True have "1 \<le> n \<and> n \<le> attemptsOf d \<and>
        (rid, pi_sop inst, n) \<in> set (pushUploadsFrom d rid idx (a # rest))" by simp
    then show ?thesis by blast
  next
    case False
    with Cons.prems have "inst \<in> set rest" by simp
    from Cons.IH [OF this Cons.prems(2,3), of "Suc idx"]
    obtain n where "1 \<le> n" "n \<le> attemptsOf d"
      "(rid, pi_sop inst, n) \<in> set (pushUploadsFrom d rid (Suc idx) rest)" by blast
    then have "1 \<le> n \<and> n \<le> attemptsOf d \<and>
        (rid, pi_sop inst, n) \<in> set (pushUploadsFrom d rid idx (a # rest))" by simp
    then show ?thesis by blast
  qed
qed

text \<open>What the transfer part of the handler does, by the way it ends.\<close>

lemma pushTransfer_unconfigured:
  "\<not> requesterOrthanc d \<Longrightarrow>
     pushTransfer d envelope clinicId rid pending w = (pushError 500 ''requester orthanc config missing'', w)"
  by (simp add: pushTransfer_def)

lemma pushTransfer_configured:
  assumes cfg: "requesterOrthanc d"
    and run: "pushTransfer d envelope clinicId rid pending w = (r, w')"
  shows "pr_status r \<in> {200, 502} \<and>
      pendingPush w' = (pendingPush w)(rid := None) \<and>
      uploads w' = uploads w @ pushUploadsFrom d rid 0 (pe_instances envelope) \<and>
      dom (events (copyEvents w')) = dom (events (copyEvents w)) \<and>
      (pr_status r = 502 \<longrightarrow> rid \<in> dom (events (copyEvents w)) \<longrightarrow>
         (\<exists>ev. events (copyEvents w') rid = Some ev \<and> ce_status ev = Error)) \<and>
      ((\<forall>h. requestMarkFulfilled d clinicId rid h = Inr ()) \<longrightarrow> pr_status r = 200) \<and>
      ((\<forall>h. isl (requestMarkFulfilled d clinicId rid h)) \<longrightarrow> pr_status r = 502)"
proof -
  let ?w1 = "w\<lparr>copyEvents := ce_update (nowIso d) rid
                (noUpdate\<lparr>cu_status := Some Copying, cu_total := Some (length (pe_instances envelope))\<rparr>)
                (copyEvents w)\<rparr>"
  obtain s f w2 where loop: "pushInstances d rid 0 (pe_instances envelope) ([], [], ?w1) = (s, f, w2)"
    by (cases "pushInstances d rid 0 (pe_instances envelope) ([], [], ?w1)") auto
  from pushInstances_frame [of d rid 0 "pe_instances envelope" "[]" "[]" ?w1] loop
  have fr: "pendingPush w2 = pendingPush w" "uploads w2 = uploads w @ pushUploadsFrom d rid 0 (pe_instances envelope)"
    "dom (events (copyEvents w2)) = dom (events (copyEvents w))"
    by simp_all
  let ?h = "buildManifestHash (keccak256 d) s f"
  have unf: "pushTransfer d envelope clinicId rid pending w =
      (case requestMarkFulfilled d clinicId rid ?h of
         Inl message \<Rightarrow>
           (pushError 502 message,
            w2\<lparr>copyEvents := ce_fail (nowIso d) rid message (copyEvents w2),
               pendingPush := (pendingPush w2)(rid := None)\<rparr>)
       | Inr u \<Rightarrow>
           (\<lparr>pr_status = 200,
             pr_body = Some \<lparr>pb_manifestHash = ?h, pb_success = length s,
                             pb_failed = length f, pb_status = outcomeStatusOf f\<rparr>,
             pr_error = None\<rparr>,
            w2\<lparr>pendingPush := (pendingPush w2)(rid := None),
               copyEvents := ce_update (nowIso d) rid
                 (noUpdate\<lparr>cu_status := Some (outcomeStatusOf f), cu_success := Some (length s),
                           cu_failed := Some (length f), cu_manifestHash := Some ?h\<rparr>)
                 (copyEvents w2)\<rparr>))"
    using cfg loop by (simp add: pushTransfer_def Let_def)
  show ?thesis
  proof (cases "requestMarkFulfilled d clinicId rid ?h")
    case (Inl message)
    with unf run have r: "r = pushError 502 message"
      and w': "w' = w2\<lparr>copyEvents := ce_fail (nowIso d) rid message (copyEvents w2),
                      pendingPush := (pendingPush w2)(rid := None)\<rparr>"
      by (simp_all only: sum.case prod.inject)
    have err: "rid \<in> dom (events (copyEvents w)) \<longrightarrow>
        (\<exists>ev. events (copyEvents w') rid = Some ev \<and> ce_status ev = Error)"
    proof
      assume "rid \<in> dom (events (copyEvents w))"
      with fr(3) have "rid \<in> dom (events (copyEvents w2))" by simp
      from ce_fail_status [OF this] show "\<exists>ev. events (copyEvents w') rid = Some ev \<and> ce_status ev = Error"
        by (simp add: w')
    qed
    have nok: "\<not> (\<forall>h. requestMarkFulfilled d clinicId rid h = Inr ())"
      using Inl by (metis sum.distinct(1))
    show ?thesis
      using err nok fr by (simp add: r w')
  next
    case (Inr u)
    with unf run have r: "pr_status r = 200"
      and w': "w' = w2\<lparr>pendingPush := (pendingPush w2)(rid := None),
               copyEvents := ce_update (nowIso d) rid
                 (noUpdate\<lparr>cu_status := Some (outcomeStatusOf f), cu_success := Some (length s),
                           cu_failed := Some (length f), cu_manifestHash := Some ?h\<rparr>)
                 (copyEvents w2)\<rparr>"
      by auto
    have nfail: "\<not> (\<forall>h. isl (requestMarkFulfilled d clinicId rid h))"
      using Inr by (metis sum.disc(2))
    show ?thesis
      using nfail fr by (simp add: r w')
  qed
qed


text \<open>
  The ways \<open>handleProviderPush\<close> ends for an envelope whose request id has a pending entry:
  it reaches the transfer (signer verified, ledger status below 2), or it rejects and leaves
  the worker as it was, or it finds the request already fulfilled and drops the entry.
\<close>

lemma handle_outcomes:
  assumes rid: "pe_requestId envelope = Some rid" and pend: "pendingPush w rid = Some pending"
  shows "(handleProviderPush d envelope w = pushTransfer d envelope (trim (pe_clinicId envelope)) rid pending w \<and>
            signerIsOperator d pending envelope \<and> pp_providerId pending = trim (pe_clinicId envelope) \<and>
            (\<exists>s. ledgerStatus d rid = Some s \<and> s < 2)) \<or>
         (pr_status (fst (handleProviderPush d envelope w)) \<in> {400, 403, 410, 500} \<and>
            snd (handleProviderPush d envelope w) = w \<and>
            (\<not> signerIsOperator d pending envelope \<longrightarrow>
               pr_status (fst (handleProviderPush d envelope w)) \<in> {400, 403})) \<or>
         (pr_status (fst (handleProviderPush d envelope w)) = 409 \<and> signerIsOperator d pending envelope \<and>
            snd (handleProviderPush d envelope w) = w\<lparr>pendingPush := (pendingPush w)(rid := None)\<rparr>)"
proof -
  note defs = handleProviderPush_def Let_def
  note sdefs = signerIsOperator_def recoveredSigner_def operatorAddress_def envelopeMessage_def
  let ?c = "trim (pe_clinicId envelope)"
  consider
      (mode) "cfg_copyMode d \<noteq> ProviderPush"
    | (clinic) "cfg_copyMode d = ProviderPush" "?c = []"
    | (expNone) "cfg_copyMode d = ProviderPush" "?c \<noteq> []" "pe_expiresAt envelope = None"
    | (go) ex where "cfg_copyMode d = ProviderPush" "?c \<noteq> []" "pe_expiresAt envelope = Some ex"
    by (cases "pe_expiresAt envelope") auto
  then show ?thesis
  proof cases
    case mode
    then show ?thesis by (simp add: defs)
  next
    case clinic
    then show ?thesis by (simp add: defs)
  next
    case expNone
    then show ?thesis using rid by (simp add: defs)
  next
    case go
    note base = go rid pend
    consider
        (sig) "pe_signature envelope = []"
      | (inst) "pe_signature envelope \<noteq> []" "pe_instances envelope = []"
      | (prov) "pe_signature envelope \<noteq> []" "pe_instances envelope \<noteq> []" "pp_providerId pending \<noteq> ?c"
      | (noop) "pe_signature envelope \<noteq> []" "pe_instances envelope \<noteq> []" "pp_providerId pending = ?c"
               "providerSignerAddresses d ?c = None"
      | (op) op where "pe_signature envelope \<noteq> []" "pe_instances envelope \<noteq> []" "pp_providerId pending = ?c"
               "providerSignerAddresses d ?c = Some op"
      by (cases "providerSignerAddresses d ?c") auto
    then show ?thesis
    proof cases
      case sig
      then show ?thesis using base by (simp add: defs)
    next
      case inst
      then show ?thesis using base by (simp add: defs)
    next
      case prov
      then show ?thesis using base by (simp add: defs)
    next
      case noop
      then show ?thesis using base by (simp add: defs sdefs split: sum.splits)
    next
      case op
      let ?m = "buildPushMessage (numberToString d) ?c rid ex
                  (computeInstancesHash (keccak256 d) (localeCompare d) (pe_instances envelope))"
      show ?thesis
      proof (cases "verifyMessage d ?m (pe_signature envelope)")
        case (Inl e)
        then show ?thesis using base op by (simp add: defs sdefs)
      next
        case (Inr a)
        note ver = Inr
        show ?thesis
        proof (cases "toLowerCase a = toLowerCase op")
          case False
          then show ?thesis using base op ver by (simp add: defs sdefs)
        next
          case True
          then have sio: "signerIsOperator d pending envelope"
            using base op ver by (simp add: sdefs)
          show ?thesis
          proof (cases "ex < nowSec d")
            case True
            then show ?thesis using base op ver \<open>toLowerCase a = toLowerCase op\<close> sio by (simp add: defs)
          next
            case notexp: False
            show ?thesis
            proof (cases "contract_reqs d rid")
              case (Inl e)
              then show ?thesis
                using base op ver \<open>toLowerCase a = toLowerCase op\<close> sio notexp by (simp add: defs)
            next
              case (Inr rq)
              then show ?thesis
                using base op ver \<open>toLowerCase a = toLowerCase op\<close> sio notexp
                by (cases "2 \<le> lr_status rq") (simp_all add: defs ledgerStatus_def)
            qed
          qed
        qed
      qed
    qed
  qed
qed


lemma handle_pass:
  assumes "cfg_copyMode d = ProviderPush" "trim (pe_clinicId envelope) \<noteq> []"
    and rid: "pe_requestId envelope = Some rid" and ex: "pe_expiresAt envelope = Some expiresAt"
    and "pe_signature envelope \<noteq> []" "pe_instances envelope \<noteq> []"
    and "pendingPush w rid = Some pending"
    and prov: "pp_providerId pending = trim (pe_clinicId envelope)"
    and sio: "signerIsOperator d pending envelope" and "nowSec d \<le> expiresAt"
    and led: "ledgerStatus d rid = Some s" and "s < 2"
  shows "handleProviderPush d envelope w = pushTransfer d envelope (trim (pe_clinicId envelope)) rid pending w"
proof -
  let ?c = "trim (pe_clinicId envelope)"
  let ?m = "buildPushMessage (numberToString d) ?c rid expiresAt
              (computeInstancesHash (keccak256 d) (localeCompare d) (pe_instances envelope))"
  from sio rid ex prov obtain a op where
    "providerSignerAddresses d ?c = Some op" "verifyMessage d ?m (pe_signature envelope) = Inr a"
    "toLowerCase a = toLowerCase op"
    by (auto simp: signerIsOperator_def recoveredSigner_def operatorAddress_def envelopeMessage_def
        split: option.splits sum.splits)
  moreover from led obtain rq where "contract_reqs d rid = Inr rq" "lr_status rq = s"
    by (auto simp: ledgerStatus_def split: sum.splits)
  ultimately show ?thesis
    using assms by (simp add: handleProviderPush_def Let_def)
qed




text \<open>
  Claim C4, as the code has it.  For an envelope whose request id has a pending entry
  recorded for the envelope's clinic, the entry is deleted when the handler answers 200
  (accepted), 502 (fulfillment failed) or 409 (ledger status already 2 or more).  On every
  other answer, which is one of 400, 403, 410 and 500, the entry is kept and the worker
  is unchanged.
\<close>

theorem handleProviderPush_pending_consumed:
  assumes "pe_requestId envelope = Some rid" and "pendingPush w rid = Some pending"
    and "pp_providerId pending = trim (pe_clinicId envelope)"
  shows "(pr_status (fst (handleProviderPush d envelope w)) \<in> {200, 502, 409} \<longrightarrow>
            pendingPush (snd (handleProviderPush d envelope w)) rid = None) \<and>
         (pr_status (fst (handleProviderPush d envelope w)) \<notin> {200, 502, 409} \<longrightarrow>
            pr_status (fst (handleProviderPush d envelope w)) \<in> {400, 403, 410, 500} \<and>
            snd (handleProviderPush d envelope w) = w \<and>
            pendingPush (snd (handleProviderPush d envelope w)) rid = Some pending)"
proof -
  let ?H = "handleProviderPush d envelope w"
  let ?T = "pushTransfer d envelope (trim (pe_clinicId envelope)) rid pending w"
  from handle_outcomes [OF assms(1,2), of d]
  consider (transfer) "?H = ?T"
    | (reject) "pr_status (fst ?H) \<in> {400, 403, 410, 500}" "snd ?H = w"
    | (fulfilled) "pr_status (fst ?H) = 409" "snd ?H = w\<lparr>pendingPush := (pendingPush w)(rid := None)\<rparr>"
    by blast
  then show ?thesis
  proof cases
    case transfer
    show ?thesis
    proof (cases "requesterOrthanc d")
      case False
      from pushTransfer_unconfigured [OF False, of envelope "trim (pe_clinicId envelope)" rid pending w]
      show ?thesis using transfer assms(2) by simp
    next
      case True
      from pushTransfer_configured [OF True, of envelope "trim (pe_clinicId envelope)" rid pending w "fst ?T" "snd ?T"]
      have "pr_status (fst ?T) \<in> {200, 502}" "pendingPush (snd ?T) = (pendingPush w)(rid := None)"
        by simp_all
      then show ?thesis using transfer by auto
    qed
  next
    case reject
    then show ?thesis using assms(2) by auto
  next
    case fulfilled
    then show ?thesis by simp
  qed
qed

text \<open>
  Claim C5, as the code has it.  In push mode, for a well-formed envelope (clinic id,
  signature and instance list not empty) with a pending entry recorded for its clinic, a
  signature that recovers the operator and an expiry not in the past, when the ledger
  read succeeds with a status below 2, the requester endpoint is configured and at least
  one attempt per upload is configured: the handler uploads the instances (every
  uploadable instance is passed to the upload, which is invoked at least once and at
  most as often as there are attempts), removes the pending entry, and answers 200 or
  502.  When the fulfillment call throws, the answer is 502 and the copy event of the
  request, if the store holds one, has status \<open>error\<close>; when it succeeds the answer is
  200.
\<close>

theorem handleProviderPush_accepts_valid:
  assumes "cfg_copyMode d = ProviderPush" and "trim (pe_clinicId envelope) \<noteq> []"
    and "pe_requestId envelope = Some rid" and "pe_expiresAt envelope = Some expiresAt"
    and "pe_signature envelope \<noteq> []" and "pe_instances envelope \<noteq> []"
    and "pendingPush w rid = Some pending" and "pp_providerId pending = trim (pe_clinicId envelope)"
    and "signerIsOperator d pending envelope" and "nowSec d \<le> expiresAt"
    and "ledgerStatus d rid = Some s" and "s < 2"
    and "requesterOrthanc d" and "1 \<le> attemptsOf d"
  shows "uploads (snd (handleProviderPush d envelope w))
           = uploads w @ pushUploadsFrom d rid 0 (pe_instances envelope) \<and>
         (\<forall>inst \<in> set (pe_instances envelope). uploadable d inst \<longrightarrow>
            (\<exists>n. 1 \<le> n \<and> n \<le> attemptsOf d \<and>
                 (rid, pi_sop inst, n) \<in> set (uploads (snd (handleProviderPush d envelope w))))) \<and>
         pendingPush (snd (handleProviderPush d envelope w)) rid = None \<and>
         pr_status (fst (handleProviderPush d envelope w)) \<in> {200, 502} \<and>
         ((\<forall>h. isl (requestMarkFulfilled d (trim (pe_clinicId envelope)) rid h)) \<longrightarrow>
            pr_status (fst (handleProviderPush d envelope w)) = 502 \<and>
            (rid \<in> dom (events (copyEvents w)) \<longrightarrow>
               (\<exists>ev. events (copyEvents (snd (handleProviderPush d envelope w))) rid = Some ev \<and>
                     ce_status ev = Error))) \<and>
         ((\<forall>h. requestMarkFulfilled d (trim (pe_clinicId envelope)) rid h = Inr ()) \<longrightarrow>
            pr_status (fst (handleProviderPush d envelope w)) = 200)"
proof -
  let ?c = "trim (pe_clinicId envelope)"
  let ?H = "handleProviderPush d envelope w"
  have H: "?H = pushTransfer d envelope ?c rid pending w"
    using assms(1-12) by (rule handle_pass)
  then have run: "pushTransfer d envelope ?c rid pending w = (fst ?H, snd ?H)" by simp
  note T = pushTransfer_configured [OF assms(13) run]
  have ups: "uploads (snd ?H) = uploads w @ pushUploadsFrom d rid 0 (pe_instances envelope)"
    using T by blast
  have each: "\<forall>inst \<in> set (pe_instances envelope). uploadable d inst \<longrightarrow>
            (\<exists>n. 1 \<le> n \<and> n \<le> attemptsOf d \<and> (rid, pi_sop inst, n) \<in> set (uploads (snd ?H)))"
  proof (intro ballI impI)
    fix inst assume "inst \<in> set (pe_instances envelope)" "uploadable d inst"
    from pushUploadsFrom_uploadable [OF this assms(14), of rid 0]
    show "\<exists>n. 1 \<le> n \<and> n \<le> attemptsOf d \<and> (rid, pi_sop inst, n) \<in> set (uploads (snd ?H))"
      by (auto simp: ups)
  qed
  have gone: "pendingPush (snd ?H) rid = None" using T by simp
  from ups each gone T show ?thesis by blast
qed


subsection \<open>The claims on the sample deployment\<close>

lemmas envelope_defs = sampleDeps_def sampleUnsigned_def sampleEnvelope_def
  forgedEnvelope_def alteredEnvelope_def fulfilledDeps_def failingSignerDeps_def samplePending_def
  resolvePatientId_def toySign_def

lemma sampleWorker_eval:
  "sampleWorker =
     \<lparr>copyEvents = \<lparr>events = [7 \<mapsto> \<lparr>ce_requestId = 7, ce_providerId = Some ''PROV-001'',
          ce_patientAddress = ''0xpatient'', ce_patientId = ''0xpatient'', ce_total = 0, ce_success = 0,
          ce_failed = 0, ce_status = Pending, ce_errors = [], ce_failures = [], ce_manifestHash = None,
          ce_startedAt = ''2025-01-01T00:00:00.000Z'', ce_updatedAt = ''2025-01-01T00:00:00.000Z''\<rparr>],
        order = [7], limit = 50\<rparr>,
      pendingPush = [7 \<mapsto> samplePending], processed = {7}, fromBlock = 10,
      startedLog = [7], dispatchLog = [7], uploads = []\<rparr>"
  by (simp add: sampleWorker_def run_def initialSystem_def initialWorker_def sampleTick_def
      afterRequest_def envelope_defs ce_start_def ce_update_def applyPatch_def noUpdate_def Let_def)

lemmas sample_defs = envelope_defs sampleWorker_eval

lemma sample_pending: "pendingPush sampleWorker 7 = Some samplePending"
  by (simp add: sampleWorker_eval)

lemma sample_uploads: "uploads sampleWorker = []"
  by (simp add: sampleWorker_eval)

lemma sample_event: "7 \<in> dom (events (copyEvents sampleWorker))"
  by (simp add: sampleWorker_eval)

lemma trim_sample: "trim ''PROV-001'' = ''PROV-001''"
  by (simp add: trim_def isSpace_def)

lemma trim_clinic:
  "trim (pe_clinicId sampleEnvelope) = ''PROV-001''"
  "trim (pe_clinicId forgedEnvelope) = ''PROV-001''"
  "trim (pe_clinicId alteredEnvelope) = ''PROV-001''"
  by (simp_all add: sample_defs trim_sample)


lemma sample_operator:
  "signerIsOperator sampleDeps samplePending sampleEnvelope"
  "signerIsOperator fulfilledDeps samplePending sampleEnvelope"
  "signerIsOperator failingSignerDeps samplePending sampleEnvelope"
  by (simp_all add: signerIsOperator_def recoveredSigner_def operatorAddress_def sample_defs trim_sample
      toLowerCase_def lowerChar_def envelopeMessage_def)




lemma sample_ledger:
  "ledgerStatus sampleDeps 7 = Some 1" "ledgerStatus failingSignerDeps 7 = Some 1"
  "ledgerStatus fulfilledDeps 7 = Some 2"
  by (simp_all add: ledgerStatus_def sample_defs)

lemma sample_pushUploads:
  "pushUploadsFrom sampleDeps 7 0 (pe_instances sampleEnvelope) = [(7, ''1.2.3'', 1)]"
  "pushUploadsFrom failingSignerDeps 7 0 (pe_instances sampleEnvelope) = [(7, ''1.2.3'', 1)]"
  by (simp_all add: sample_defs pushUploadsOf_def pushUpload_def attemptsOf_def backoffOf_def
      performWithRetry_def retryLoop.simps Let_def)



text \<open>
  Claim C4 as stated fails: the forged envelope names request 7, whose pending entry is
  recorded for the envelope's clinic; it is rejected with 403 (signature mismatch) and the
  entry is still there when the handler returns.
\<close>

theorem pending_kept_on_signature_mismatch:
  "pe_requestId forgedEnvelope = Some 7 \<and>
   pendingPush sampleWorker 7 = Some samplePending \<and>
   pp_providerId samplePending = trim (pe_clinicId forgedEnvelope) \<and>
   pr_status (fst (handleProviderPush sampleDeps forgedEnvelope sampleWorker)) = 403 \<and>
   pr_error (fst (handleProviderPush sampleDeps forgedEnvelope sampleWorker)) = Some ''signature mismatch'' \<and>
   pendingPush (snd (handleProviderPush sampleDeps forgedEnvelope sampleWorker)) 7 = Some samplePending"
  by (simp add: sample_pending trim_clinic)
     (simp add: handleProviderPush_def sample_defs trim_sample toLowerCase_def lowerChar_def Let_def
       ce_start_def ce_update_def applyPatch_def noUpdate_def)

text \<open>The signed envelope is answered 200 and its entry is gone; the forged one leaves the worker as it was.\<close>

theorem handleProviderPush_pending_consumed_witness:
  "pe_requestId sampleEnvelope = Some 7 \<and> pendingPush sampleWorker 7 = Some samplePending \<and>
   pp_providerId samplePending = trim (pe_clinicId sampleEnvelope) \<and>
   pr_status (fst (handleProviderPush failingSignerDeps sampleEnvelope sampleWorker)) = 502 \<and>
   pendingPush (snd (handleProviderPush failingSignerDeps sampleEnvelope sampleWorker)) 7 = None \<and>
   pr_status (fst (handleProviderPush sampleDeps forgedEnvelope sampleWorker)) \<in> {400, 403, 410, 500} \<and>
   snd (handleProviderPush sampleDeps forgedEnvelope sampleWorker) = sampleWorker"
proof -
  have rid: "pe_requestId sampleEnvelope = Some 7" "pe_requestId forgedEnvelope = Some 7"
    by (simp_all add: sample_defs)
  have prov: "pp_providerId samplePending = trim (pe_clinicId sampleEnvelope)"
    "pp_providerId samplePending = trim (pe_clinicId forgedEnvelope)"
    by (simp_all add: trim_clinic) (simp_all add: samplePending_def)
  have st: "pr_status (fst (handleProviderPush failingSignerDeps sampleEnvelope sampleWorker)) = 502"
  proof -
    have "handleProviderPush failingSignerDeps sampleEnvelope sampleWorker =
        pushTransfer failingSignerDeps sampleEnvelope (trim (pe_clinicId sampleEnvelope)) 7 samplePending sampleWorker"
      using sample_operator(3) sample_pending sample_ledger(2)
      by (intro handle_pass [where expiresAt = 2000 and s = 1])
         (simp_all add: trim_clinic, simp_all add: sample_defs)
    moreover have "requesterOrthanc failingSignerDeps"
      "\<forall>h. isl (requestMarkFulfilled failingSignerDeps ''PROV-001'' 7 h)"
      by (simp_all add: sample_defs)
    ultimately show ?thesis
      using pushTransfer_configured [of failingSignerDeps sampleEnvelope "''PROV-001''" 7 samplePending sampleWorker
          "fst (handleProviderPush failingSignerDeps sampleEnvelope sampleWorker)"
          "snd (handleProviderPush failingSignerDeps sampleEnvelope sampleWorker)"]
      by (simp add: trim_clinic)
  qed
  have f: "pr_status (fst (handleProviderPush sampleDeps forgedEnvelope sampleWorker)) = 403"
    by (simp add: handleProviderPush_def sample_defs trim_sample toLowerCase_def lowerChar_def Let_def
       ce_start_def ce_update_def applyPatch_def noUpdate_def)
  from handleProviderPush_pending_consumed [OF rid(1) sample_pending prov(1), of failingSignerDeps] st
  have a: "pendingPush (snd (handleProviderPush failingSignerDeps sampleEnvelope sampleWorker)) 7 = None"
    by simp
  from handleProviderPush_pending_consumed [OF rid(2) sample_pending prov(2), of sampleDeps] f
  have b: "pr_status (fst (handleProviderPush sampleDeps forgedEnvelope sampleWorker)) \<in> {400, 403, 410, 500} \<and>
           snd (handleProviderPush sampleDeps forgedEnvelope sampleWorker) = sampleWorker"
    by simp
  from rid(1) sample_pending prov(1) st a b show ?thesis by blast
qed

text \<open>
  Claim C5 as stated fails: the signed envelope has the operator's signature, an expiry
  in the future and a matching pending entry, but the ledger already reports the request
  as fulfilled; the handler answers 409 and uploads nothing.
\<close>

theorem valid_envelope_rejected_when_fulfilled:
  "signerIsOperator fulfilledDeps samplePending sampleEnvelope \<and>
   pe_expiresAt sampleEnvelope = Some 2000 \<and> nowSec fulfilledDeps < 2000 \<and>
   pe_requestId sampleEnvelope = Some 7 \<and> pendingPush sampleWorker 7 = Some samplePending \<and>
   pp_providerId samplePending = trim (pe_clinicId sampleEnvelope) \<and>
   pr_status (fst (handleProviderPush fulfilledDeps sampleEnvelope sampleWorker)) = 409 \<and>
   pr_error (fst (handleProviderPush fulfilledDeps sampleEnvelope sampleWorker))
     = Some ''access request already fulfilled'' \<and>
   uploads (snd (handleProviderPush fulfilledDeps sampleEnvelope sampleWorker)) = []"
proof -
  have "handleProviderPush fulfilledDeps sampleEnvelope sampleWorker =
      (pushError 409 ''access request already fulfilled'',
       sampleWorker\<lparr>pendingPush := (pendingPush sampleWorker)(7 := None)\<rparr>)"
    by (simp add: handleProviderPush_def trim_clinic sample_pending)
       (simp add: sample_defs toLowerCase_def lowerChar_def envelopeMessage_def Let_def trim_sample)
  moreover have "pe_expiresAt sampleEnvelope = Some 2000 \<and> nowSec fulfilledDeps < 2000 \<and>
      pe_requestId sampleEnvelope = Some 7 \<and> pp_providerId samplePending = ''PROV-001''"
    by (simp add: sample_defs)
  ultimately show ?thesis
    using sample_operator(2) sample_pending sample_uploads by (simp add: trim_clinic)
qed

text \<open>
  The signed envelope against a signer that fails: one upload, the entry removed, 502, and
  the copy event of request 7 in error.
\<close>

theorem handleProviderPush_accepts_valid_witness:
  "signerIsOperator failingSignerDeps samplePending sampleEnvelope \<and>
   ledgerStatus failingSignerDeps 7 = Some 1 \<and> attemptsOf failingSignerDeps = 3 \<and>
   uploads (snd (handleProviderPush failingSignerDeps sampleEnvelope sampleWorker)) = [(7, ''1.2.3'', 1)] \<and>
   pendingPush (snd (handleProviderPush failingSignerDeps sampleEnvelope sampleWorker)) 7 = None \<and>
   pr_status (fst (handleProviderPush failingSignerDeps sampleEnvelope sampleWorker)) = 502 \<and>
   (\<exists>ev. events (copyEvents (snd (handleProviderPush failingSignerDeps sampleEnvelope sampleWorker))) 7 = Some ev \<and>
         ce_status ev = Error)"
proof -
  have h: "cfg_copyMode failingSignerDeps = ProviderPush" "trim (pe_clinicId sampleEnvelope) \<noteq> []"
    "pe_requestId sampleEnvelope = Some 7" "pe_expiresAt sampleEnvelope = Some 2000"
    "pe_signature sampleEnvelope \<noteq> []" "pe_instances sampleEnvelope \<noteq> []"
    "pp_providerId samplePending = trim (pe_clinicId sampleEnvelope)"
    "nowSec failingSignerDeps \<le> 2000" "(1::int) < 2" "requesterOrthanc failingSignerDeps"
    by (simp_all add: trim_clinic) (simp_all add: sample_defs)
  have at: "attemptsOf failingSignerDeps = 3"
    by (simp add: attemptsOf_def sample_defs)
  then have at1: "1 \<le> attemptsOf failingSignerDeps" by simp
  have fails: "\<forall>h. isl (requestMarkFulfilled failingSignerDeps (trim (pe_clinicId sampleEnvelope)) 7 h)"
    by (simp add: sample_defs)
  from handleProviderPush_accepts_valid
         [OF h(1-6) sample_pending h(7) sample_operator(3) h(8) sample_ledger(2) h(9) h(10) at1]
       fails sample_event
  show ?thesis
    using sample_operator(3) sample_ledger(2) at by (simp add: sample_pushUploads sample_uploads)
qed


section \<open>Properties of the gateway\<close>

subsection \<open>Request ids in paths\<close>

lemma takeWhile_digits_nil:
  "list_all isDigit ds \<Longrightarrow> takeWhile isDigit ds = ds \<and> dropWhile isDigit ds = []"
  by (induction ds) auto

lemma takeWhile_digits_cons:
  "list_all isDigit ds \<Longrightarrow> \<not> isDigit r \<Longrightarrow>
     takeWhile isDigit (ds @ r # rs) = ds \<and> dropWhile isDigit (ds @ r # rs) = r # rs"
  by (induction ds) auto

lemma slash_not_digit: "\<not> isDigit CHR ''/''"
  by (simp add: isDigit_def)

lemma pathMatch_digits:
  assumes ne: "ds \<noteq> []" and dg: "list_all isDigit ds"
    and "rest = [] \<or> (hd rest = CHR ''/'' \<and> \<not> list_ex (\<lambda>x. x = CHR 0x0A \<or> x = CHR 0x0D) rest)"
  shows "pathMatch (CHR ''/'' # ds @ rest) = Some (ds, if rest = [] then None else Some rest)"
proof (cases rest)
  case Nil
  from takeWhile_digits_nil [OF dg]
  have tw: "takeWhile isDigit ds = ds" "dropWhile isDigit ds = []"
    by blast+
  show ?thesis using ne Nil by (simp add: pathMatch_def Let_def tw)
next
  case (Cons r rs)
  with assms have r: "r = CHR ''/''" and rs: "\<not> list_ex (\<lambda>x. x = CHR 0x0A \<or> x = CHR 0x0D) rs"
    by simp_all
  from takeWhile_digits_cons [OF dg slash_not_digit, of rs]
  have tw: "takeWhile isDigit (ds @ CHR ''/'' # rs) = ds"
    "dropWhile isDigit (ds @ CHR ''/'' # rs) = CHR ''/'' # rs"
    by blast+
  show ?thesis using ne r rs Cons by (simp add: pathMatch_def Let_def tw)
qed

lemma jsNumber_digits:
  "ds \<noteq> [] \<Longrightarrow> list_all isDigit ds \<Longrightarrow> decimalValue ds \<le> 2 ^ 53 \<Longrightarrow>
     jsNumber d ds = Some (Whole (int (decimalValue ds)))"
  by (simp add: jsNumber_def)

subsection \<open>The secure route\<close>

lemma matchRoute_secure:
  "rq_method req = ''GET'' \<Longrightarrow> rq_pathname req = ''/secure/'' @ x \<Longrightarrow>
     matchRoute requester req = (if requester then RSecure else RNotFound)"
  by (simp add: matchRoute_def startsWith_def Let_def)

lemma filter_absent_key:
  "map_of params k = None \<Longrightarrow> filter (\<lambda>(k', v). k' \<noteq> k) params = params"
  by (induction params) (auto split: if_splits)

lemma auditWrite_forwarded [simp]: "forwarded (auditWrite d e g) = forwarded g"
  by (simp add: auditWrite_def)

lemma auditWrite_log [simp]:
  "auditLog (auditWrite d e g) = (if g_audit d then auditLog g @ [e] else auditLog g)"
  by (simp add: auditWrite_def)

lemma requestIdParamOf_path:
  assumes path: "rq_pathname req = ''/secure/'' @ ds @ rest"
    and ne: "ds \<noteq> []" and dg: "list_all isDigit ds"
    and rest: "rest = [] \<or> (hd rest = CHR ''/'' \<and> \<not> list_ex (\<lambda>x. x = CHR 0x0A \<or> x = CHR 0x0D) rest)"
    and noq: "searchGet (rq_search req) ''requestId'' = None"
  shows "requestIdParamOf req = (Some ds, if rest = [] then ''/'' else rest)"
  by (simp add: requestIdParamOf_def Let_def noq path pathMatch_digits [OF ne dg rest])

lemma proxyForward_effects:
  "forwarded (snd (proxyForward d req princ rid pa pid raw g))
     = forwarded g @ [(forwardUrlOf d req (forwardPathOf raw), acceptHeaderOf req (forwardPathOf raw))] \<and>
   (g_audit d \<longrightarrow>
      length (auditLog (snd (proxyForward d req princ rid pa pid raw g))) = Suc (length (auditLog g)) \<and>
      take (length (auditLog g)) (auditLog (snd (proxyForward d req princ rid pa pid raw g))) = auditLog g \<and>
      al_status (last (auditLog (snd (proxyForward d req princ rid pa pid raw g))))
        = rs_status (fst (proxyForward d req princ rid pa pid raw g)) \<and>
      al_requestId (last (auditLog (snd (proxyForward d req princ rid pa pid raw g)))) = rid)"
  by (cases "g_upstream d (forwardUrlOf d req (forwardPathOf raw))
               (wantsBinaryFor (rq_accept req) (forwardPathOf raw)) (acceptHeaderOf req (forwardPathOf raw))")
     (auto simp: proxyForward_def Let_def respond_def auditCommon_def)

text \<open>
  The route once authentication has passed and the request id text has converted to the
  number \<open>rid\<close>: what remains is the on-chain check and its three ways out.
\<close>

lemma secure_checked:
  assumes auth: "requireAuth (g_auth d) (rq_authorization req) [''requester.viewer''] = AuthOk princ"
    and par: "requestIdParamOf req = (Some idText, raw)" and ne: "idText \<noteq> []"
    and num: "jsNumber d idText = Some rid"
  shows "secureProxy d req g =
           (case resolveAccessRequest d rid of
              Inl e \<Rightarrow> Inl e
            | Inr (Denied st message) \<Rightarrow>
                Inr (respond st (Text message), auditWrite d (deniedEntry d req princ rid st message) g)
            | Inr (Granted reqData patientAddress patientId) \<Rightarrow>
                Inr (proxyForward d req princ rid patientAddress patientId raw g))"
  using ne by (simp add: secureProxy_def auth par num)

lemma forwardPathOf_rest:
  "rest = [] \<or> hd rest = CHR ''/'' \<Longrightarrow> forwardPathOf (if rest = [] then ''/'' else rest) = (if rest = [] then ''/'' else rest)"
  by (cases rest) (auto simp: forwardPathOf_def startsWith_def)

lemmas gw_defs = sampleGdeps_def sampleAuth_def sampleLedger_def emptyGateway_def sampleRequest_def

lemma requireAuth_granted:
  assumes "g_auth d = Some a" and "verifyHeader (rq_authorization req) = Inr token"
    and "verifyToken a token = Inr p" and "pn_subject p \<noteq> []" and "role \<in> set (pn_roles p)"
  shows "requireAuth (g_auth d) (rq_authorization req) [role] = AuthOk (Some p)"
  using assms by (simp add: requireAuth_def)

lemma managedRequester_exact:
  assumes "(clinicId, info) \<in> set (g_clinics d)" and "cc_role info = Requester"
    and "clinicKey (g_keccak256 d) clinicId = requesterKey"
  shows "managedRequester d (toLowerCase requesterKey)"
  using assms by (auto simp: managedRequester_def list_ex_iff)

lemma handler_route_secure:
  assumes "matchRoute (g_requester d) req = RSecure"
  shows "handler d req g =
           (case secureProxy d req g of Inr result \<Rightarrow> result | Inl message \<Rightarrow> (respond 400 (Text message), g))"
  using assms by (simp add: handler_def)

text \<open>
  Claim C1, as the code has it.  For every \<open>GET\<close> request to \<open>/secure/{id}\<close> or
  \<open>/secure/{id}/...\<close>, where \<open>id\<close> is a run of decimal digits denoting a number \<open>n\<close> of at
  most \<open>2 ^ 53\<close> (which \<open>Number\<close> converts exactly), that carries no \<open>requestId\<close> query
  parameter and passes the authentication for the viewer role, when a requester endpoint
  is configured and the ledger holds a record for request \<open>n\<close> (its id field is not 0):
  if the on-chain status is 0 (requested) the gateway answers 403 and sends nothing
  upstream; if the status is 1 or more and the requester clinic key of the request is the
  clinic key of a configured clinic with role requester, the request is forwarded:
  exactly one request goes upstream, for the rest of the path and the query.  A request
  with a bearer token that verifies to a principal with a subject and the viewer role
  passes the authentication (\<open>requireAuth_granted\<close>).
\<close>

theorem secure_route_consent_gate:
  assumes "g_requester d" and "rq_method req = ''GET''"
    and "rq_pathname req = ''/secure/'' @ ds @ rest"
    and "ds \<noteq> []" and "list_all isDigit ds" and "decimalValue ds \<le> 2 ^ 53"
    and "rest = [] \<or> (hd rest = CHR ''/'' \<and> \<not> list_ex (\<lambda>x. x = CHR 0x0A \<or> x = CHR 0x0D) rest)"
    and "searchGet (rq_search req) ''requestId'' = None"
    and "requireAuth (g_auth d) (rq_authorization req) [''requester.viewer''] = AuthOk princ"
    and "g_reqs d (Whole (int (decimalValue ds))) = Inr reqData" and "lr_id reqData \<noteq> 0"
  shows "(lr_status reqData = 0 \<longrightarrow>
            rs_status (fst (handler d req g)) = 403 \<and>
            forwarded (snd (handler d req g)) = forwarded g) \<and>
         (1 \<le> lr_status reqData \<and>
          (\<exists>(clinicId, info) \<in> set (g_clinics d). cc_role info = Requester \<and>
               clinicKey (g_keccak256 d) clinicId = lr_requesterClinicKey reqData) \<longrightarrow>
            forwarded (snd (handler d req g))
              = forwarded g @ [(forwardUrlOf d req (if rest = [] then ''/'' else rest),
                                acceptHeaderOf req (if rest = [] then ''/'' else rest))])"
proof -
  let ?n = "Whole (int (decimalValue ds))"
  note auth = assms(9)
  have par: "requestIdParamOf req = (Some ds, if rest = [] then ''/'' else rest)"
    using assms(3,4,5,7,8) by (rule requestIdParamOf_path)
  have num: "jsNumber d ds = Some ?n"
    using assms(4,5,6) by (rule jsNumber_digits)
  note sec = secure_checked [OF auth par assms(4) num, of g]
  have route: "matchRoute (g_requester d) req = RSecure"
    using matchRoute_secure [OF assms(2,3)] assms(1) by simp
  note H = handler_route_secure [OF route, of g]
  have restc: "rest = [] \<or> hd rest = CHR ''/''" using assms(7) by blast
  have denied: "rs_status (fst (handler d req g)) = 403 \<and> forwarded (snd (handler d req g)) = forwarded g"
    if "lr_status reqData = 0"
  proof -
    have "resolveAccessRequest d ?n = Inr (Denied 403 ''request is not approved'')"
      using that assms(10,11) by (simp add: resolveAccessRequest_def)
    with sec H show ?thesis by (simp add: respond_def)
  qed
  have granted: "forwarded (snd (handler d req g))
              = forwarded g @ [(forwardUrlOf d req (if rest = [] then ''/'' else rest),
                                acceptHeaderOf req (if rest = [] then ''/'' else rest))]"
    if st: "1 \<le> lr_status reqData"
      and cl: "\<exists>(clinicId, info) \<in> set (g_clinics d). cc_role info = Requester \<and>
               clinicKey (g_keccak256 d) clinicId = lr_requesterClinicKey reqData"
  proof -
    from cl have "managedRequester d (toLowerCase (lr_requesterClinicKey reqData))"
      by (auto intro: managedRequester_exact)
    then obtain pa pid where "resolveAccessRequest d ?n = Inr (Granted reqData pa pid)"
      using st assms(10,11) by (simp add: resolveAccessRequest_def)
    with sec H have "handler d req g =
        proxyForward d req princ ?n pa pid (if rest = [] then ''/'' else rest) g"
      by simp
    then show ?thesis
      using proxyForward_effects [of d req princ ?n pa pid "if rest = [] then ''/'' else rest" g]
        forwardPathOf_rest [OF restc]
      by simp
  qed
  from denied granted show ?thesis by blast
qed

text \<open>
  Claim C1 as stated fails twice.  Request 999 was never created, so its on-chain status
  reads 0, and the gateway answers 404, not 403.  And the \<open>requestId\<close> query parameter has
  precedence over the path: request 5 is still requested, yet \<open>/secure/5/studies?requestId=7\<close>
  is checked against request 7 and forwarded.
\<close>

theorem secure_route_not_found_and_query_precedence:
  "(\<exists>r. g_reqs sampleGdeps (Whole 999) = Inr r \<and> lr_status r = 0) \<and>
   rs_status (fst (handler sampleGdeps
      (sampleRequest ''GET'' ''/secure/999/studies'' [] (Some ''Bearer viewer-token'')) emptyGateway)) = 404 \<and>
   (\<exists>r. g_reqs sampleGdeps (Whole 5) = Inr r \<and> lr_id r = 5 \<and> lr_status r = 0) \<and>
   rs_status (fst (handler sampleGdeps
      (sampleRequest ''GET'' ''/secure/5/studies'' [(''requestId'', ''7'')] (Some ''Bearer viewer-token''))
      emptyGateway)) = 200 \<and>
   forwarded (snd (handler sampleGdeps
      (sampleRequest ''GET'' ''/secure/5/studies'' [(''requestId'', ''7'')] (Some ''Bearer viewer-token''))
      emptyGateway)) = [(''/5/studies'', ''application/json'')]"
  by (simp add: gw_defs handler_def matchRoute_def startsWith_def secureProxy_def requireAuth_def
      verifyHeader_def toLowerCase_def lowerChar_def requestIdParamOf_def searchGet_def
      pathMatch_def isDigit_def jsNumber_def decimalValue_def digitValue_def resolveAccessRequest_def
      managedRequester_def clinicKey_def proxyForward_def forwardPathOf_def forwardUrlOf_def
      searchToString_def acceptHeaderOf_def wantsBinaryFor_def auditCommon_def auditWrite_def
      deniedEntry_def respond_def Let_def)

lemmas gw_eval = gw_defs handler_def matchRoute_def startsWith_def secureProxy_def requireAuth_def
  verifyHeader_def toLowerCase_def lowerChar_def requestIdParamOf_def searchGet_def
  pathMatch_def isDigit_def jsNumber_def decimalValue_def digitValue_def resolveAccessRequest_def
  managedRequester_def clinicKey_def proxyForward_def forwardPathOf_def forwardUrlOf_def
  searchToString_def acceptHeaderOf_def wantsBinaryFor_def auditCommon_def auditWrite_def
  deniedEntry_def respond_def putClinicConfig_def deleteClinicConfig_def isAdmin_def
  principalClinic_def Let_def

lemma sampleRequest_sel:
  "rq_method (sampleRequest m p s a) = m" "rq_pathname (sampleRequest m p s a) = p"
  "rq_search (sampleRequest m p s a) = s" "rq_authorization (sampleRequest m p s a) = a"
  by (simp_all add: sampleRequest_def)

lemma sample_viewer:
  "g_auth sampleGdeps = Some sampleAuth"
  "verifyHeader (Some ''Bearer viewer-token'') = Inr ''viewer-token''"
  "verifyToken sampleAuth ''viewer-token''
     = Inr \<lparr>pn_subject = ''alice'', pn_roles = [''requester.viewer''], pn_clinicId = Some ''CLINIC-A''\<rparr>"
  by (simp_all add: gw_defs verifyHeader_def toLowerCase_def lowerChar_def)

text \<open>
  Request 5 is still requested: \<open>/secure/5/studies\<close> is answered 403 and nothing goes
  upstream.  Request 7 is approved for the managed requester clinic: \<open>/secure/007/studies\<close>
  is forwarded as \<open>/studies\<close>.
\<close>

theorem secure_route_consent_gate_witness:
  "rs_status (fst (handler sampleGdeps
      (sampleRequest ''GET'' ''/secure/5/studies'' [] (Some ''Bearer viewer-token'')) emptyGateway)) = 403 \<and>
   forwarded (snd (handler sampleGdeps
      (sampleRequest ''GET'' ''/secure/5/studies'' [] (Some ''Bearer viewer-token'')) emptyGateway)) = [] \<and>
   forwarded (snd (handler sampleGdeps
      (sampleRequest ''GET'' ''/secure/007/studies'' [] (Some ''Bearer viewer-token'')) emptyGateway))
     = [(''/studies'', ''application/json'')]"
proof -
  let ?p = "\<lparr>pn_subject = ''alice'', pn_roles = [''requester.viewer''], pn_clinicId = Some ''CLINIC-A''\<rparr>"
  let ?r5 = "sampleRequest ''GET'' ''/secure/5/studies'' [] (Some ''Bearer viewer-token'')"
  let ?r7 = "sampleRequest ''GET'' ''/secure/007/studies'' [] (Some ''Bearer viewer-token'')"
  let ?q5 = "\<lparr>lr_id = 5, lr_patient = ''0xpatient'', lr_providerClinicKey = ''PROV-001'',
              lr_requesterClinicKey = ''REQ-001'', lr_status = 0\<rparr>"
  let ?q7 = "\<lparr>lr_id = 7, lr_patient = ''0xpatient'', lr_providerClinicKey = ''PROV-001'',
              lr_requesterClinicKey = ''REQ-001'', lr_status = 1\<rparr>"
  have rest: "''/studies'' = [] \<or> (hd ''/studies'' = CHR ''/'' \<and>
      \<not> list_ex (\<lambda>x. x = CHR 0x0A \<or> x = CHR 0x0D) ''/studies'')"
    by simp
  have auth: "requireAuth (g_auth sampleGdeps) (Some ''Bearer viewer-token'') [''requester.viewer'']
                = AuthOk (Some ?p)"
    using requireAuth_granted [of sampleGdeps sampleAuth ?r5 "''viewer-token''" ?p "''requester.viewer''"]
    by (simp add: sample_viewer sampleRequest_sel)
  have a5: "rs_status (fst (handler sampleGdeps ?r5 emptyGateway)) = 403 \<and>
            forwarded (snd (handler sampleGdeps ?r5 emptyGateway)) = forwarded emptyGateway"
  proof -
    have "(lr_status ?q5 = 0 \<longrightarrow>
            rs_status (fst (handler sampleGdeps ?r5 emptyGateway)) = 403 \<and>
            forwarded (snd (handler sampleGdeps ?r5 emptyGateway)) = forwarded emptyGateway) \<and>
         (1 \<le> lr_status ?q5 \<and>
          (\<exists>(clinicId, info) \<in> set (g_clinics sampleGdeps). cc_role info = Requester \<and>
               clinicKey (g_keccak256 sampleGdeps) clinicId = lr_requesterClinicKey ?q5) \<longrightarrow>
            forwarded (snd (handler sampleGdeps ?r5 emptyGateway))
              = forwarded emptyGateway @ [(forwardUrlOf sampleGdeps ?r5 (if ''/studies'' = [] then ''/'' else ''/studies''),
                                acceptHeaderOf ?r5 (if ''/studies'' = [] then ''/'' else ''/studies''))])"
      by (rule secure_route_consent_gate [where ds = "''5''" and princ = "Some ?p"])
         (simp_all add: auth sampleRequest_sel rest searchGet_def isDigit_def
            decimalValue_def digitValue_def,
          simp_all add: gw_defs)
    then show ?thesis by simp
  qed
  have a7: "forwarded (snd (handler sampleGdeps ?r7 emptyGateway))
      = forwarded emptyGateway @ [(forwardUrlOf sampleGdeps ?r7 (if ''/studies'' = [] then ''/'' else ''/studies''),
                                acceptHeaderOf ?r7 (if ''/studies'' = [] then ''/'' else ''/studies''))]"
  proof -
    have "(lr_status ?q7 = 0 \<longrightarrow>
            rs_status (fst (handler sampleGdeps ?r7 emptyGateway)) = 403 \<and>
            forwarded (snd (handler sampleGdeps ?r7 emptyGateway)) = forwarded emptyGateway) \<and>
         (1 \<le> lr_status ?q7 \<and>
          (\<exists>(clinicId, info) \<in> set (g_clinics sampleGdeps). cc_role info = Requester \<and>
               clinicKey (g_keccak256 sampleGdeps) clinicId = lr_requesterClinicKey ?q7) \<longrightarrow>
            forwarded (snd (handler sampleGdeps ?r7 emptyGateway))
              = forwarded emptyGateway @ [(forwardUrlOf sampleGdeps ?r7 (if ''/studies'' = [] then ''/'' else ''/studies''),
                                acceptHeaderOf ?r7 (if ''/studies'' = [] then ''/'' else ''/studies''))])"
      by (rule secure_route_consent_gate [where ds = "''007''" and princ = "Some ?p"])
         (simp_all add: auth sampleRequest_sel rest searchGet_def isDigit_def
            decimalValue_def digitValue_def,
          simp_all add: gw_defs)
    moreover have "\<exists>(clinicId, info) \<in> set (g_clinics sampleGdeps). cc_role info = Requester \<and>
               clinicKey (g_keccak256 sampleGdeps) clinicId = lr_requesterClinicKey ?q7"
      by (simp add: gw_defs clinicKey_def)
    ultimately show ?thesis by simp
  qed
  have ev: "forwardUrlOf sampleGdeps ?r7 ''/studies'' = ''/studies''"
    "acceptHeaderOf ?r7 ''/studies'' = ''application/json''" "forwarded emptyGateway = []"
    by (simp_all add: gw_defs forwardUrlOf_def searchToString_def acceptHeaderOf_def wantsBinaryFor_def
        startsWith_def Let_def)
  from a5 a7 ev show ?thesis by simp
qed




text \<open>
  Claim C3 at a failing input.  \<open>alice\<close> holds a valid token with the clinic-identity
  claim \<open>CLINIC-A\<close> and without the role \<open>worker.admin\<close>.  Her \<open>PUT /clinics/config\<close> for
  \<open>CLINIC-A\<close> and her \<open>DELETE /clinics/config/CLINIC-A\<close> are both answered 403 by
  \<open>requireAuth\<close>, before the test that would let her through is reached, and the clinic
  store is not changed; the same \<open>PUT\<close> with the administrator's token is answered 200.
\<close>

theorem self_edit_rejected_without_admin_role:
  "verifyToken sampleAuth ''viewer-token''
     = Inr \<lparr>pn_subject = ''alice'', pn_roles = [''requester.viewer''], pn_clinicId = Some ''CLINIC-A''\<rparr> \<and>
   rq_body (sampleRequest ''PUT'' ''/clinics/config'' [] (Some ''Bearer viewer-token''))
     = Inr (''CLINIC-A'', Some ''http://a.example/qido'', Some ''http://a.example/wado'') \<and>
   handler sampleGdeps (sampleRequest ''PUT'' ''/clinics/config'' [] (Some ''Bearer viewer-token'')) emptyGateway
     = (\<lparr>rs_status = 403, rs_body = Text ''forbidden: insufficient role''\<rparr>, emptyGateway) \<and>
   handler sampleGdeps (sampleRequest ''DELETE'' ''/clinics/config/CLINIC-A'' [] (Some ''Bearer viewer-token''))
       emptyGateway
     = (\<lparr>rs_status = 403, rs_body = Text ''forbidden: insufficient role''\<rparr>, emptyGateway) \<and>
   rs_status (fst (handler sampleGdeps
       (sampleRequest ''PUT'' ''/clinics/config'' [] (Some ''Bearer admin-token'')) emptyGateway)) = 200"
  by (simp add: gw_eval)

section \<open>Properties of the audit logger\<close>

subsection \<open>Lines of a file\<close>

lemma splitOn_nonempty [simp]: "splitOn sep xs \<noteq> []"
  by (induction xs) (auto split: list.splits)

lemma splitOn_no_sep: "sep \<notin> set xs \<Longrightarrow> splitOn sep xs = [xs]"
  by (induction xs) auto

lemma splitOn_append_sep: "splitOn sep (xs @ sep # ys) = splitOn sep xs @ splitOn sep ys"
proof (induction xs)
  case Nil
  show ?case by simp
next
  case (Cons x xs)
  show ?case
  proof (cases "x = sep")
    case True
    with Cons show ?thesis by simp
  next
    case False
    obtain w ws where s: "splitOn sep xs = w # ws"
      by (cases "splitOn sep xs") auto
    with Cons False show ?thesis by simp
  qed
qed

lemma lines_after_append:
  assumes wf: "content = [] \<or> last content = CHR 0x0A"
    and nl: "CHR 0x0A \<notin> set line"
  shows "\<exists>older. splitOn CHR 0x0A (content @ line @ [CHR 0x0A]) = older @ [line, []]"
proof (cases "content = []")
  case True
  have "splitOn CHR 0x0A (line @ CHR 0x0A # []) = splitOn CHR 0x0A line @ splitOn CHR 0x0A []"
    by (rule splitOn_append_sep)
  with True nl show ?thesis by (simp add: splitOn_no_sep)
next
  case False
  with wf obtain c where c: "content = c @ [CHR 0x0A]"
    by (metis append_butlast_last_id)
  have "splitOn CHR 0x0A (c @ CHR 0x0A # (line @ CHR 0x0A # []))
          = splitOn CHR 0x0A c @ splitOn CHR 0x0A (line @ CHR 0x0A # [])"
    by (rule splitOn_append_sep)
  also have "splitOn CHR 0x0A (line @ CHR 0x0A # []) = splitOn CHR 0x0A line @ splitOn CHR 0x0A []"
    by (rule splitOn_append_sep)
  finally show ?thesis using nl c by (simp add: splitOn_no_sep)
qed

lemma rotate_wellFormed: "wellFormedLog fs \<Longrightarrow> wellFormedLog (rotateIfNeeded io fs)"
  by (auto simp: rotateIfNeeded_def wellFormedLog_def Let_def split: option.splits)

lemma audit_log_wellFormed:
  "\<not> df_append io \<Longrightarrow> wellFormedLog (audit_log rt io encryptionKey iv entry fs)"
  by (simp add: audit_log_def appendFile_def wellFormedLog_def)

lemma trim_nil [simp]: "trim [] = []"
  by (simp add: trim_def)

text \<open>
  A line without a line feed that is appended to a well-formed file is the first line
  that \<open>read\<close> decodes.
\<close>

lemma read_after_append:
  assumes wf: "wellFormedLog fs"
    and nl: "CHR 0x0A \<notin> set line" and nb: "trim line \<noteq> []"
    and lim: "0 < lim" and dec: "decodeLine rt key line = Some j"
    and io: "\<not> df_append io" "\<not> df_read io"
  shows "\<exists>older. audit_read rt io key lim (appendFile io (line @ [CHR 0x0A]) fs) = Inr (j # older)"
proof -
  let ?content = "case af_main fs of None \<Rightarrow> [] | Some c \<Rightarrow> c"
  have "?content = [] \<or> last ?content = CHR 0x0A"
    using wf by (auto simp: wellFormedLog_def split: option.splits)
  from lines_after_append [OF this nl]
  obtain older where sp: "splitOn CHR 0x0A (?content @ line @ [CHR 0x0A]) = older @ [line, []]"
    by blast
  have "filter (\<lambda>l. trim l \<noteq> []) (older @ [line, []]) = filter (\<lambda>l. trim l \<noteq> []) older @ [line]"
    using nb by simp
  then have "rev (filter (\<lambda>l. trim l \<noteq> []) (splitOn CHR 0x0A (?content @ line @ [CHR 0x0A])))
      = line # rev (filter (\<lambda>l. trim l \<noteq> []) older)"
    by (simp add: sp)
  moreover obtain m where "lim = Suc m" using lim by (cases lim) auto
  ultimately show ?thesis
    using dec io by (simp add: audit_read_def appendFile_def)
qed

subsection \<open>The serialisation of a value is one line\<close>

declare showNat.simps [simp del]

lemma hexDigit_mem: "hexDigit n \<in> set ''0123456789abcdef''"
  unfolding hexDigit_def by (rule nth_mem) simp

lemma hexDigit_not_nl: "hexDigit n \<noteq> CHR 0x0A" "CHR 0x0A \<noteq> hexDigit n"
  using hexDigit_mem [of n] by auto

lemma digitChar_mem: "digitChar n \<in> set ''0123456789''"
  unfolding digitChar_def by (rule nth_mem) simp

lemma digitChar_not_nl: "digitChar n \<noteq> CHR 0x0A" "CHR 0x0A \<noteq> digitChar n"
  using digitChar_mem [of n] by auto

lemma no_nl_escape: "CHR 0x0A \<notin> set (jsonEscapeChar c)"
  by (simp add: hexDigit_not_nl)

lemma no_nl_jsonString: "CHR 0x0A \<notin> set (jsonString s)"
  using no_nl_escape by (auto simp: jsonString_def simp del: jsonEscapeChar.simps)

lemma no_nl_showNat: "CHR 0x0A \<notin> set (showNat n)"
  by (induction n rule: showNat.induct) (subst showNat.simps, simp add: digitChar_not_nl)

lemma no_nl_showInt: "CHR 0x0A \<notin> set (showInt i)"
  using no_nl_showNat by (simp add: showInt_def)

lemma no_nl_numberText:
  "\<forall>n. CHR 0x0A \<notin> set (other n) \<Longrightarrow> CHR 0x0A \<notin> set (numberText other n)"
  by (simp add: numberText_def no_nl_showInt split: jsnum.splits)

lemma no_nl_joinWith:
  "CHR 0x0A \<notin> set sep \<Longrightarrow> (\<And>x. x \<in> set xs \<Longrightarrow> CHR 0x0A \<notin> set x) \<Longrightarrow> CHR 0x0A \<notin> set (joinWith sep xs)"
  by (induction sep xs rule: joinWith.induct) auto

lemma no_nl_stringify:
  assumes num: "\<forall>n. CHR 0x0A \<notin> set (other n)"
  shows "CHR 0x0A \<notin> set (stringify other j)"
proof (induction j)
  case (JArr xs)
  have "CHR 0x0A \<notin> set (joinWith '','' (map (stringify other) xs))"
    using JArr by (intro no_nl_joinWith) auto
  then show ?case by simp
next
  case (JObj kvs)
  have "CHR 0x0A \<notin> set (joinWith '','' (map (\<lambda>kv. jsonString (fst kv) @ '':'' @ stringify other (snd kv)) kvs))"
  proof (intro no_nl_joinWith)
    show "CHR 0x0A \<notin> set '',''" by simp
  next
    fix x assume "x \<in> set (map (\<lambda>kv. jsonString (fst kv) @ '':'' @ stringify other (snd kv)) kvs)"
    then obtain kv where kv: "kv \<in> set kvs" "x = jsonString (fst kv) @ '':'' @ stringify other (snd kv)"
      by auto
    obtain k v where "kv = (k, v)" by (cases kv)
    with kv JObj [of kv v] have "CHR 0x0A \<notin> set (stringify other (snd kv))" by auto
    with kv no_nl_jsonString show "CHR 0x0A \<notin> set x" by simp
  qed
  then show ?case by simp
next
  case (JNum n)
  from no_nl_numberText [OF num] show ?case by simp
qed (simp_all add: no_nl_jsonString)

lemma trim_object: "trim (CHR ''{'' # s) \<noteq> []"
proof -
  have "dropWhile isSpace (CHR ''{'' # s) = CHR ''{'' # s"
    by (simp add: isSpace_def)
  moreover have "dropWhile isSpace (rev (CHR ''{'' # s)) \<noteq> []"
    by (simp add: isSpace_def)
  ultimately show ?thesis by (simp add: trim_def)
qed

lemma stringify_object_nonblank: "trim (stringify (rt_numberText rt) (JObj kvs)) \<noteq> []"
  using trim_object by simp

text \<open>The serialisation of an object without a property \<open>v\<close> is not that of an envelope.\<close>

lemma stringify_not_envelope:
  assumes "''v'' \<notin> fst ` set props"
  shows "stringify (rt_numberText rt) (JObj props) \<noteq> stringify (rt_numberText rt) (envelopeJson rt iv authTag encrypted)"
proof (cases props)
  case Nil
  then show ?thesis by (simp add: envelopeJson_def jsonString_def)
next
  case (Cons kv rest)
  obtain k x where kv: "kv = (k, x)" by (cases kv)
  with Cons assms have k: "k \<noteq> ''v''" by auto
  show ?thesis
  proof
    assume eq: "stringify (rt_numberText rt) (JObj props) = stringify (rt_numberText rt) (envelopeJson rt iv authTag encrypted)"
    have "\<exists>r. stringify (rt_numberText rt) (JObj props) = CHR ''{'' # jsonString k @ r"
      using Cons kv by (simp add: joinWith_Cons)
    moreover have "\<exists>r. stringify (rt_numberText rt) (envelopeJson rt iv authTag encrypted) = CHR ''{'' # jsonString ''v'' @ r"
      by (simp add: envelopeJson_def)
    ultimately obtain r r' where "jsonString k @ r = jsonString ''v'' @ r'"
      using eq by auto
    from jsonString_prefix [OF this] k show False by simp
  qed
qed

subsection \<open>Decoding a line\<close>

lemma decodeLine_plain:
  "rt_parse rt line = Some (JObj props) \<Longrightarrow> decodeLine rt None line = Some (JObj props)"
  by (simp add: decodeLine_def)

lemma decodeLine_envelope:
  assumes "rt_parse rt line = Some (envelopeJson rt iv authTag encrypted)"
    and "rt_toHex rt iv \<noteq> []" "authTag \<noteq> []" "encrypted \<noteq> []"
    and "rt_fromHex rt (JStr (rt_toHex rt iv)) = Some iv" "rt_fromHex rt (JStr authTag) = Some tagBytes"
    and "rt_decrypt rt k iv tagBytes (JStr encrypted) = Some serialised"
    and "rt_parse rt serialised = Some (JObj props)"
  shows "decodeLine rt (Some k) line = Some (JObj props)"
  using assms by (simp add: decodeLine_def envelopeJson_def jget_def truthy_def notNull_def)

text \<open>
  Claim C9, as the code has it.  For an entry that is an object, a log file that is
  missing, empty or ends with a line feed, a write that succeeds and a read with a limit
  of at least 1: \<open>log\<close> followed by \<open>read\<close> returns the entry as the first, newest element.
  The line \<open>log\<close> appends is, without a key, the \<open>JSON.stringify\<close> of the entry, and with a
  key the \<open>JSON.stringify\<close> of the envelope of nonce, authentication tag and ciphertext,
  which is not the serialisation of the entry when the entry has no property \<open>v\<close>.  What
  is used of the runtime: the text of a number holds no line feed, \<open>JSON.parse\<close> reads
  back what \<open>JSON.stringify\<close> wrote for the entry and for the envelope, the hex texts of
  nonce, tag and ciphertext are not empty and are read back by \<open>Buffer.from\<close>, and the
  decipher returns the plaintext for the key, nonce and tag of the cipher.
\<close>

theorem audit_log_read_roundtrip:
  assumes "wellFormedLog fs" and "0 < lim" and "\<not> df_append io" and "\<not> df_read io"
    and "\<forall>n. CHR 0x0A \<notin> set (rt_numberText rt n)"
    and "rt_parse rt (stringify (rt_numberText rt) (JObj props)) = Some (JObj props)"
    and "\<forall>k encrypted authTag.
           encryptionKey = Some k \<and> rt_encrypt rt k iv (stringify (rt_numberText rt) (JObj props)) = (encrypted, authTag) \<longrightarrow>
             rt_parse rt (stringify (rt_numberText rt) (envelopeJson rt iv authTag encrypted))
               = Some (envelopeJson rt iv authTag encrypted) \<and>
             rt_toHex rt iv \<noteq> [] \<and> authTag \<noteq> [] \<and> encrypted \<noteq> [] \<and>
             rt_fromHex rt (JStr (rt_toHex rt iv)) = Some iv \<and>
             (\<exists>tagBytes. rt_fromHex rt (JStr authTag) = Some tagBytes \<and>
                rt_decrypt rt k iv tagBytes (JStr encrypted) = Some (stringify (rt_numberText rt) (JObj props)))"
  shows "(\<exists>older. audit_read rt io encryptionKey lim (audit_log rt io encryptionKey iv (JObj props) fs)
                    = Inr (JObj props # older)) \<and>
         (\<exists>before. af_main (audit_log rt io encryptionKey iv (JObj props) fs)
                    = Some (before @ auditLine rt encryptionKey iv (JObj props) @ [CHR 0x0A])) \<and>
         (encryptionKey = None \<longrightarrow> auditLine rt encryptionKey iv (JObj props) = stringify (rt_numberText rt) (JObj props)) \<and>
         (\<forall>k. encryptionKey = Some k \<longrightarrow>
            auditLine rt encryptionKey iv (JObj props)
              = stringify (rt_numberText rt) (envelopeJson rt iv (snd (rt_encrypt rt k iv (stringify (rt_numberText rt) (JObj props))))
                                                   (fst (rt_encrypt rt k iv (stringify (rt_numberText rt) (JObj props))))) \<and>
            (''v'' \<notin> fst ` set props \<longrightarrow>
               auditLine rt encryptionKey iv (JObj props) \<noteq> stringify (rt_numberText rt) (JObj props)))"
proof -
  let ?line = "auditLine rt encryptionKey iv (JObj props)"
  let ?plain = "stringify (rt_numberText rt) (JObj props)"
  have shape: "(encryptionKey = None \<longrightarrow> ?line = ?plain) \<and>
         (\<forall>k. encryptionKey = Some k \<longrightarrow>
            ?line = stringify (rt_numberText rt) (envelopeJson rt iv (snd (rt_encrypt rt k iv ?plain))
                                                   (fst (rt_encrypt rt k iv ?plain))))"
    by (simp add: auditLine_def Let_def case_prod_beta del: stringify.simps)
  have envl: "\<exists>a t. ?line = stringify (rt_numberText rt) (envelopeJson rt iv t a)" if "encryptionKey = Some k" for k
    using shape that by blast
  have nl: "CHR 0x0A \<notin> set ?line"
    by (cases encryptionKey)
       (simp_all add: auditLine_def Let_def case_prod_beta no_nl_stringify [OF assms(5)] del: stringify.simps)
  have nb: "trim ?line \<noteq> []"
  proof (cases encryptionKey)
    case None
    with shape show ?thesis by (simp add: trim_object)
  next
    case (Some k)
    with shape show ?thesis by (simp add: envelopeJson_def trim_object)
  qed
  have dec: "decodeLine rt encryptionKey ?line = Some (JObj props)"
  proof (cases encryptionKey)
    case None
    with shape assms(6) show ?thesis by (simp add: decodeLine_plain del: stringify.simps)
  next
    case (Some k)
    obtain encrypted authTag where e: "rt_encrypt rt k iv ?plain = (encrypted, authTag)"
      by (cases "rt_encrypt rt k iv ?plain") auto
    with Some shape have l: "?line = stringify (rt_numberText rt) (envelopeJson rt iv authTag encrypted)" by simp
    from assms(7) Some e obtain tagBytes where h:
      "rt_parse rt (stringify (rt_numberText rt) (envelopeJson rt iv authTag encrypted)) = Some (envelopeJson rt iv authTag encrypted)"
      "rt_toHex rt iv \<noteq> []" "authTag \<noteq> []" "encrypted \<noteq> []"
      "rt_fromHex rt (JStr (rt_toHex rt iv)) = Some iv" "rt_fromHex rt (JStr authTag) = Some tagBytes"
      "rt_decrypt rt k iv tagBytes (JStr encrypted) = Some ?plain"
      by blast
    from decodeLine_envelope [OF h(1) [folded l] h(2-7) assms(6)] Some show ?thesis by simp
  qed
  have rd: "\<exists>older. audit_read rt io encryptionKey lim (audit_log rt io encryptionKey iv (JObj props) fs)
                    = Inr (JObj props # older)"
    unfolding audit_log_def
    by (rule read_after_append [OF rotate_wellFormed [OF assms(1)] nl nb assms(2) dec assms(3,4)])
  have disk: "\<exists>before. af_main (audit_log rt io encryptionKey iv (JObj props) fs)
                    = Some (before @ ?line @ [CHR 0x0A])"
    using assms(3) by (simp add: audit_log_def appendFile_def)
  have differs: "?line \<noteq> ?plain" if "encryptionKey = Some k" "''v'' \<notin> fst ` set props" for k
    using envl [OF that(1)] stringify_not_envelope [OF that(2), of rt iv] by auto
  from rd disk shape differs show ?thesis by blast
qed

subsection \<open>The claim on a sample log\<close>

lemma stringify_sample:
  "stringify toyNumberText sampleEntry =
     ''{\"timestamp\":\"2025-01-01T00:00:00.000Z\",\"method\":\"GET\",\"path\":\"/secure/5/studies\",\"requestId\":5,\"status\":403,\"error\":\"request is not approved\"}''"
  by (simp add: sampleEntry_def jsonString_def numberText_def showInt_def showNat.simps digitChar_def)

lemma sample_runtime [simp]:
  "rt_numberText sampleRuntime = toyNumberText" "rt_parse sampleRuntime = toyParse"
  "rt_encrypt sampleRuntime = toyEncrypt" "rt_decrypt sampleRuntime = toyDecrypt"
  "rt_toHex sampleRuntime = (\<lambda>s. s)" "rt_fromHex sampleRuntime = toyFromHex"
  by (simp_all add: sampleRuntime_def)

lemma sample_no_v: "stringify toyNumberText sampleEntry \<noteq> stringify toyNumberText sealedEntry"
  using stringify_not_envelope [of "[(''timestamp'', JStr ''2025-01-01T00:00:00.000Z''), (''method'', JStr ''GET''),
           (''path'', JStr ''/secure/5/studies''), (''requestId'', JNum (Whole 5)),
           (''status'', JNum (Whole 403)), (''error'', JStr ''request is not approved'')]"
      sampleRuntime "''0001''" "''c0ffee''" "''k3y'' @ stringify toyNumberText sampleEntry"]
  by (simp add: sampleEntry_def sealedEntry_def envelopeJson_def del: stringify.simps)

lemma sample_parse:
  "rt_parse sampleRuntime (stringify toyNumberText sampleEntry) = Some sampleEntry"
  "rt_parse sampleRuntime (stringify toyNumberText sealedEntry) = Some sealedEntry"
  using sample_no_v by (simp_all add: toyParse_def del: stringify.simps)

text \<open>
  Claim C9 as stated fails.  A read with limit 0 returns nothing.  \<open>log\<close> swallows the
  failure of a write: on a disk that rejects the write the file stays as it was and the
  entry is not read back.  And when the file ends in the middle of a line, the entry is
  appended to that line and is lost with it.
\<close>

theorem audit_entry_not_read_back:
  "audit_read sampleRuntime healthyDisk None 0
       (audit_log sampleRuntime healthyDisk None ''0001'' sampleEntry emptyDisk) = Inr [] \<and>
   audit_log sampleRuntime fullDisk None ''0001'' sampleEntry emptyDisk = emptyDisk \<and>
   audit_read sampleRuntime fullDisk None 100
       (audit_log sampleRuntime fullDisk None ''0001'' sampleEntry emptyDisk) = Inr [] \<and>
   audit_read sampleRuntime healthyDisk None 100
       (audit_log sampleRuntime healthyDisk None ''0001'' sampleEntry tornDisk) = Inr []"
proof -
  have a: "audit_read sampleRuntime healthyDisk None 0
       (audit_log sampleRuntime healthyDisk None ''0001'' sampleEntry emptyDisk) = Inr []"
    by (simp add: audit_read_def audit_log_def appendFile_def rotateIfNeeded_def healthyDisk_def
        emptyDisk_def)
  have b: "audit_log sampleRuntime fullDisk None ''0001'' sampleEntry emptyDisk = emptyDisk"
    by (simp add: audit_log_def appendFile_def rotateIfNeeded_def healthyDisk_def fullDisk_def emptyDisk_def)
  have c: "audit_read sampleRuntime fullDisk None 100 emptyDisk = Inr []"
    by (simp add: audit_read_def healthyDisk_def fullDisk_def emptyDisk_def)
  have d: "audit_read sampleRuntime healthyDisk None 100
       (audit_log sampleRuntime healthyDisk None ''0001'' sampleEntry tornDisk) = Inr []"
  proof -
    let ?line = "stringify toyNumberText sampleEntry"
    let ?torn = "''{\"timestamp\":'' @ ?line"
    have nl: "CHR 0x0A \<notin> set ?torn"
      using no_nl_stringify [of toyNumberText sampleEntry] by (simp add: toyNumberText_def del: stringify.simps)
    have "splitOn CHR 0x0A (?torn @ CHR 0x0A # []) = splitOn CHR 0x0A ?torn @ splitOn CHR 0x0A []"
      by (rule splitOn_append_sep)
    with nl have sp: "splitOn CHR 0x0A (?torn @ [CHR 0x0A]) = [?torn, []]"
      by (simp add: splitOn_no_sep del: stringify.simps)
    have nb: "trim ?torn \<noteq> []"
      using trim_object [of "''\"timestamp\":'' @ ?line"] by (simp del: stringify.simps)
    have p1: "?torn \<noteq> ?line" by (simp del: stringify.simps)
    have p2: "?torn \<noteq> stringify toyNumberText sealedEntry"
      by (simp add: sealedEntry_def jsonString_def)
    from p1 p2 have dec: "decodeLine sampleRuntime None ?torn = None"
      by (simp add: decodeLine_def toyParse_def del: stringify.simps)
    show ?thesis
      using sp nb dec
      by (simp add: audit_read_def audit_log_def appendFile_def rotateIfNeeded_def healthyDisk_def
          tornDisk_def auditLine_def del: stringify.simps)
  qed
  from a b c d show ?thesis by simp
qed

text \<open>
  The denial is logged and read back, in the clear and, with the key \<open>k3y\<close> and the
  nonce \<open>0001\<close>, from its envelope.
\<close>

theorem audit_log_read_roundtrip_witness:
  "(\<exists>older. audit_read sampleRuntime healthyDisk None 100
               (audit_log sampleRuntime healthyDisk None ''0001'' sampleEntry emptyDisk)
             = Inr (sampleEntry # older)) \<and>
   (\<exists>older. audit_read sampleRuntime healthyDisk (Some ''k3y'') 100
               (audit_log sampleRuntime healthyDisk (Some ''k3y'') ''0001'' sampleEntry emptyDisk)
             = Inr (sampleEntry # older)) \<and>
   auditLine sampleRuntime (Some ''k3y'') ''0001'' sampleEntry = stringify toyNumberText sealedEntry \<and>
   auditLine sampleRuntime (Some ''k3y'') ''0001'' sampleEntry \<noteq> stringify toyNumberText sampleEntry"
proof -
  let ?props = "[(''timestamp'', JStr ''2025-01-01T00:00:00.000Z''), (''method'', JStr ''GET''),
           (''path'', JStr ''/secure/5/studies''), (''requestId'', JNum (Whole 5)),
           (''status'', JNum (Whole 403)), (''error'', JStr ''request is not approved'')]"
  have e: "JObj ?props = sampleEntry" by (simp add: sampleEntry_def)
  have wf: "wellFormedLog emptyDisk" by (simp add: wellFormedLog_def emptyDisk_def)
  have io: "\<not> df_append healthyDisk" "\<not> df_read healthyDisk" by (simp_all add: healthyDisk_def)
  have num: "\<forall>n. CHR 0x0A \<notin> set (rt_numberText sampleRuntime n)"
    by (simp add: toyNumberText_def)
  have p: "rt_parse sampleRuntime (stringify (rt_numberText sampleRuntime) (JObj ?props)) = Some (JObj ?props)"
    using sample_parse(1) by (simp only: e sample_runtime)
  have sealed: "envelopeJson sampleRuntime ''0001'' ''c0ffee'' (''k3y'' @ stringify toyNumberText sampleEntry)
                = sealedEntry"
    by (simp add: envelopeJson_def sealedEntry_def del: stringify.simps)
  have hyp: "\<forall>k encrypted authTag.
           key = Some k \<and>
           rt_encrypt sampleRuntime k ''0001'' (stringify (rt_numberText sampleRuntime) (JObj ?props))
             = (encrypted, authTag) \<longrightarrow>
             rt_parse sampleRuntime
                 (stringify (rt_numberText sampleRuntime) (envelopeJson sampleRuntime ''0001'' authTag encrypted))
               = Some (envelopeJson sampleRuntime ''0001'' authTag encrypted) \<and>
             rt_toHex sampleRuntime ''0001'' \<noteq> [] \<and> authTag \<noteq> [] \<and> encrypted \<noteq> [] \<and>
             rt_fromHex sampleRuntime (JStr (rt_toHex sampleRuntime ''0001'')) = Some ''0001'' \<and>
             (\<exists>tagBytes. rt_fromHex sampleRuntime (JStr authTag) = Some tagBytes \<and>
                rt_decrypt sampleRuntime k ''0001'' tagBytes (JStr encrypted)
                  = Some (stringify (rt_numberText sampleRuntime) (JObj ?props)))"
    if "key = None \<or> key = Some ''k3y''" for key
  proof (intro allI impI)
    fix k encrypted authTag
    assume h: "key = Some k \<and>
           rt_encrypt sampleRuntime k ''0001'' (stringify (rt_numberText sampleRuntime) (JObj ?props))
             = (encrypted, authTag)"
    with that have k: "k = ''k3y''" by auto
    from h have en: "encrypted = ''k3y'' @ stringify toyNumberText sampleEntry" and tg: "authTag = ''c0ffee''"
      unfolding e k by (auto simp: toyEncrypt_def simp del: stringify.simps)
    show "rt_parse sampleRuntime
                 (stringify (rt_numberText sampleRuntime) (envelopeJson sampleRuntime ''0001'' authTag encrypted))
               = Some (envelopeJson sampleRuntime ''0001'' authTag encrypted) \<and>
             rt_toHex sampleRuntime ''0001'' \<noteq> [] \<and> authTag \<noteq> [] \<and> encrypted \<noteq> [] \<and>
             rt_fromHex sampleRuntime (JStr (rt_toHex sampleRuntime ''0001'')) = Some ''0001'' \<and>
             (\<exists>tagBytes. rt_fromHex sampleRuntime (JStr authTag) = Some tagBytes \<and>
                rt_decrypt sampleRuntime k ''0001'' tagBytes (JStr encrypted)
                  = Some (stringify (rt_numberText sampleRuntime) (JObj ?props)))"
      unfolding k en tg sealed e using sample_parse(2)
      by (simp add: toyDecrypt_def toyFromHex_def del: stringify.simps)
  qed
  have nov: "''v'' \<notin> fst ` set ?props" by simp
  have lim: "0 < (100::nat)" by simp
  have k0: "(None :: string option) = None \<or> None = Some ''k3y''" by simp
  have k1: "Some ''k3y'' = None \<or> Some ''k3y'' = Some ''k3y''" by simp
  from audit_log_read_roundtrip [OF wf lim io num p hyp [OF k0]]
  have a: "\<exists>older. audit_read sampleRuntime healthyDisk None 100
               (audit_log sampleRuntime healthyDisk None ''0001'' (JObj ?props) emptyDisk)
             = Inr (JObj ?props # older)"
    by blast
  from audit_log_read_roundtrip [OF wf lim io num p hyp [OF k1]] nov
  have b: "(\<exists>older. audit_read sampleRuntime healthyDisk (Some ''k3y'') 100
               (audit_log sampleRuntime healthyDisk (Some ''k3y'') ''0001'' (JObj ?props) emptyDisk)
             = Inr (JObj ?props # older)) \<and>
       auditLine sampleRuntime (Some ''k3y'') ''0001'' (JObj ?props)
         \<noteq> stringify (rt_numberText sampleRuntime) (JObj ?props)"
    by blast
  have c: "auditLine sampleRuntime (Some ''k3y'') ''0001'' sampleEntry = stringify toyNumberText sealedEntry"
    using sealed by (simp add: auditLine_def toyEncrypt_def del: stringify.simps)
  from a b c show ?thesis by (simp only: e sample_runtime) simp
qed

end
